(* ===== verification/Prelude.thy ===== *)
theory Prelude
  imports Main "HOL-Library.Word" "HOL-Library.Char_ord" "HOL-Library.List_Lexorder"
begin

text \<open>
  Shared vocabulary of the development: the widths of the machine integers the
  client uses, the result of an operation that may fail an assertion, the
  collections of facts the component theories extend, and generic lemmas on
  lists, words and options.
\<close>

section \<open>Collections of facts\<close>

named_theorems rmq_defs \<open>definitions of operations, for unfolding\<close>
named_theorems rmq_inv \<open>an operation preserves the invariant of its component\<close>
named_theorems rmq_frame \<open>fields an operation leaves alone\<close>

section \<open>Machine types\<close>

type_synonym u16 = "16 word"
type_synonym u32 = "32 word"
type_synonym u64 = "64 word"

text \<open>
  Signed integers (\<open>int\<close>, \<open>int32_t\<close>, \<open>int64_t\<close>) are mathematical integers:
  overflow of a signed integer is undefined behaviour in C++. Time points and
  durations are integers too, in the unit the source uses at that place.
\<close>

type_synonym i32 = int
type_synonym i64 = int
type_synonym time_point = int
type_synonym duration = int

section \<open>Lists\<close>

lemma sum_list_map_append_single:
  "sum_list (map f (xs @ [x])) = sum_list (map f xs) + (f x :: nat)"
  by simp

lemma sum_list_map_remove1:
  "x \<in> set xs \<Longrightarrow> sum_list (map f (remove1 x xs)) + (f x :: nat) = sum_list (map f xs)"
  by (induction xs) auto

lemma distinct_map_remove1:
  "distinct (map f xs) \<Longrightarrow> x \<in> set xs \<Longrightarrow> f ` set (remove1 x xs) = f ` set xs - {f x}"
  by (induction xs) (auto simp: image_iff)

lemma distinct_map_remove1I:
  "distinct (map f xs) \<Longrightarrow> distinct (map f (remove1 x xs))"
  by (induction xs) (auto dest: notin_set_remove1 set_mp[OF set_remove1_subset])

lemma length_remove1_in:
  "x \<in> set xs \<Longrightarrow> Suc (length (remove1 x xs)) = length xs"
  by (induction xs) auto

section \<open>Sequences of operations that may fail\<close>

primrec fold_option :: "('a \<Rightarrow> 's \<Rightarrow> 's option) \<Rightarrow> 'a list \<Rightarrow> 's \<Rightarrow> 's option" where
  "fold_option f [] s = Some s"
| "fold_option f (x # xs) s = (case f x s of None \<Rightarrow> None | Some s' \<Rightarrow> fold_option f xs s')"

section \<open>Words\<close>

lemma word_of_nat_Suc_diff:
  "n = Suc m \<Longrightarrow> (of_nat n :: 'a::len word) - 1 = of_nat m"
  by simp

lemma word_of_nat_diff:
  "n = m + k \<Longrightarrow> (of_nat n :: 'a::len word) - of_nat k = of_nat m"
  by simp

lemma unat_u32_less: "unat (w :: u32) < 4294967296"
proof -
  have "(unsigned w :: nat) < 2 ^ LENGTH(32)" by (rule unsigned_less)
  then show ?thesis by simp
qed

lemma unat_of_nat_small:
  "n < 2 ^ LENGTH('a) \<Longrightarrow> unat (of_nat n :: 'a::len word) = n"
  by (simp add: unat_of_nat take_bit_nat_eq_self)

end
