(* ===== verification/Containers.thy ===== *)
theory Containers
  imports Prelude
begin

text \<open>
  The containers of the C++ standard library and of Abseil that the client keeps
  its state in. A \<open>std::set\<close> with a comparator is a list sorted strictly by the
  compared key; a hash map is an association list without duplicate keys whose
  order stands for the unspecified iteration order, compared through a projection
  because a key type may define its own equality. The locales \<open>ordered_set\<close> and
  \<open>hash_table\<close> state what the clients rely on.
\<close>

section \<open>Ordered sets\<close>

fun oset_emplace :: "('a \<Rightarrow> 'k::linorder) \<Rightarrow> 'a \<Rightarrow> 'a list \<Rightarrow> 'a list" where
  "oset_emplace key x [] = [x]"
| "oset_emplace key x (y # ys) =
     (if key x < key y then x # y # ys
      else if key x = key y then y # ys
      else y # oset_emplace key x ys)"

definition oset_erase :: "('a \<Rightarrow> 'k::linorder) \<Rightarrow> 'k \<Rightarrow> 'a list \<Rightarrow> 'a list" where
  "oset_erase key k xs = filter (\<lambda>y. key y \<noteq> k) xs"

fun oset_begin :: "'a list \<Rightarrow> 'a option" where
  "oset_begin [] = None"
| "oset_begin (y # ys) = Some y"

definition oset_inv :: "('a \<Rightarrow> 'k::linorder) \<Rightarrow> 'a list \<Rightarrow> bool" where
  "oset_inv key xs = sorted_wrt (<) (map key xs)"

section \<open>Hash maps\<close>

fun hm_find :: "('k \<Rightarrow> 'e) \<Rightarrow> ('k \<times> 'v) list \<Rightarrow> 'k \<Rightarrow> 'v option" where
  "hm_find key [] k = None"
| "hm_find key ((k', v) # m) k = (if key k' = key k then Some v else hm_find key m k)"

definition hm_contains :: "('k \<Rightarrow> 'e) \<Rightarrow> ('k \<times> 'v) list \<Rightarrow> 'k \<Rightarrow> bool" where
  "hm_contains key m k = (hm_find key m k \<noteq> None)"

definition hm_emplace :: "('k \<Rightarrow> 'e) \<Rightarrow> 'k \<Rightarrow> 'v \<Rightarrow> ('k \<times> 'v) list \<Rightarrow> ('k \<times> 'v) list" where
  "hm_emplace key k v m = (if hm_contains key m k then m else m @ [(k, v)])"

fun hm_assign :: "('k \<Rightarrow> 'e) \<Rightarrow> 'k \<Rightarrow> 'v \<Rightarrow> ('k \<times> 'v) list \<Rightarrow> ('k \<times> 'v) list" where
  "hm_assign key k v [] = [(k, v)]"
| "hm_assign key k v ((k', v') # m) =
     (if key k' = key k then (k', v) # m else (k', v') # hm_assign key k v m)"

definition hm_erase :: "('k \<Rightarrow> 'e) \<Rightarrow> 'k \<Rightarrow> ('k \<times> 'v) list \<Rightarrow> ('k \<times> 'v) list" where
  "hm_erase key k m = filter (\<lambda>p. key (fst p) \<noteq> key k) m"

definition hm_inv :: "('k \<Rightarrow> 'e) \<Rightarrow> ('k \<times> 'v) list \<Rightarrow> bool" where
  "hm_inv key m = distinct (map (key \<circ> fst) m)"

section \<open>Contracts\<close>

text \<open>What a client of an ordered set relies on: it holds one element per key,
  \<open>emplace\<close> keeps an element that is already there, and \<open>begin\<close> is the element with
  the least key.\<close>

locale ordered_set =
  fixes key :: "'a \<Rightarrow> 'k::linorder"
    and emplace :: "'a \<Rightarrow> 's \<Rightarrow> 's"
    and erase :: "'k \<Rightarrow> 's \<Rightarrow> 's"
    and first :: "'s \<Rightarrow> 'a option"
    and elems :: "'s \<Rightarrow> 'a set"
    and invar :: "'s \<Rightarrow> bool"
  assumes emplace_elems: "invar s \<Longrightarrow> elems (emplace x s) =
      (if key x \<in> key ` elems s then elems s else insert x (elems s))"
    and erase_elems: "invar s \<Longrightarrow> elems (erase k s) = {y \<in> elems s. key y \<noteq> k}"
    and first_None: "invar s \<Longrightarrow> first s = None \<longleftrightarrow> elems s = {}"
    and first_Some: "invar s \<Longrightarrow> first s = Some y \<Longrightarrow>
      y \<in> elems s \<and> (\<forall>z \<in> elems s. key y \<le> key z)"
    and key_unique: "invar s \<Longrightarrow> y \<in> elems s \<Longrightarrow> z \<in> elems s \<Longrightarrow> key y = key z \<Longrightarrow> y = z"
    and emplace_invar: "invar s \<Longrightarrow> invar (emplace x s)"
    and erase_invar: "invar s \<Longrightarrow> invar (erase k s)"
begin

lemma keys_emplace:
  "invar s \<Longrightarrow> key ` elems (emplace x s) = insert (key x) (key ` elems s)"
  by (auto simp: emplace_elems)

lemma keys_erase:
  "invar s \<Longrightarrow> key ` elems (erase k s) = key ` elems s - {k}"
  by (auto simp: erase_elems)

lemma first_is_least:
  assumes "invar s" "y \<in> elems s" "\<forall>z \<in> elems s. key y \<le> key z"
  shows "first s = Some y"
proof (cases "first s")
  case None
  then show ?thesis using assms first_None by auto
next
  case (Some w)
  then have "w \<in> elems s" "key w \<le> key y" using assms first_Some by auto
  then show ?thesis using Some assms key_unique[of s w y] by auto
qed

lemma first_key_Min:
  assumes "invar s" "finite (elems s)" "first s = Some y"
  shows "key y = Min (key ` elems s)"
  using assms first_Some[OF assms(1,3)] by (intro Min_eqI[symmetric]) auto

text \<open>Replacing the element stored under a key.\<close>

lemma erase_emplace_elems:
  "invar s \<Longrightarrow> elems (emplace x (erase (key x) s)) = insert x {y \<in> elems s. key y \<noteq> key x}"
  by (auto simp: emplace_elems erase_elems erase_invar)

end

text \<open>What a client of a hash map relies on.\<close>

locale hash_table =
  fixes key :: "'k \<Rightarrow> 'e"
    and find :: "'m \<Rightarrow> 'k \<Rightarrow> 'v option"
    and emplace :: "'k \<Rightarrow> 'v \<Rightarrow> 'm \<Rightarrow> 'm"
    and assign :: "'k \<Rightarrow> 'v \<Rightarrow> 'm \<Rightarrow> 'm"
    and erase :: "'k \<Rightarrow> 'm \<Rightarrow> 'm"
    and invar :: "'m \<Rightarrow> bool"
  assumes find_cong: "key k = key k' \<Longrightarrow> find m k = find m k'"
    and find_emplace: "find (emplace k v m) k' =
      (if key k' = key k then Some (case find m k of None \<Rightarrow> v | Some w \<Rightarrow> w) else find m k')"
    and find_assign: "find (assign k v m) k' = (if key k' = key k then Some v else find m k')"
    and find_erase: "invar m \<Longrightarrow> find (erase k m) k' = (if key k' = key k then None else find m k')"
    and emplace_invar: "invar m \<Longrightarrow> invar (emplace k v m)"
    and assign_invar: "invar m \<Longrightarrow> invar (assign k v m)"
    and erase_invar: "invar m \<Longrightarrow> invar (erase k m)"
begin

text \<open>\<open>emplace\<close> never replaces, \<open>insert_or_assign\<close> always does.\<close>

lemma emplace_keeps: "find m k = Some w \<Longrightarrow> find (emplace k v m) k = Some w"
  by (simp add: find_emplace)

lemma emplace_new: "find m k = None \<Longrightarrow> find (emplace k v m) k = Some v"
  by (simp add: find_emplace)

lemma find_emplace_other: "key k' \<noteq> key k \<Longrightarrow> find (emplace k v m) k' = find m k'"
  by (simp add: find_emplace)

lemma assign_assign: "find (assign k v (assign k w m)) k' = find (assign k v m) k'"
  by (simp add: find_assign)

lemma erase_assign:
  "invar m \<Longrightarrow> find (erase k (assign k v m)) k' = find (erase k m) k'"
  by (simp add: find_erase find_assign assign_invar)

end

section \<open>The models of the containers meet the contracts\<close>

lemma keys_oset_emplace:
  "set (map key (oset_emplace key x xs)) = insert (key x) (set (map key xs))"
  by (induction key x xs rule: oset_emplace.induct) (simp_all add: insert_commute)

lemma oset_inv_Cons:
  "oset_inv key (y # ys) \<longleftrightarrow> (\<forall>k \<in> set (map key ys). key y < k) \<and> oset_inv key ys"
  by (simp add: oset_inv_def)

lemma oset_inv_Nil [simp]: "oset_inv key []"
  by (simp add: oset_inv_def)

lemma set_oset_emplace:
  "oset_inv key xs \<Longrightarrow>
   set (oset_emplace key x xs) = (if key x \<in> key ` set xs then set xs else insert x (set xs))"
proof (induction key x xs rule: oset_emplace.induct)
  case (2 key x y ys)
  consider "key x < key y" | "key x = key y" | "key y < key x" by force
  then show ?case
  proof cases
    case 1
    then have "key x \<notin> key ` set (y # ys)" using 2(2) by (auto simp: oset_inv_Cons)
    then show ?thesis using 1 by simp
  next
    case 3
    then have "key x \<noteq> key y" "\<not> key x < key y" by auto
    then show ?thesis using 2 by (simp add: oset_inv_Cons insert_commute)
  qed simp
qed simp

lemma oset_inv_emplace: "oset_inv key xs \<Longrightarrow> oset_inv key (oset_emplace key x xs)"
proof (induction key x xs rule: oset_emplace.induct)
  case (2 key x y ys)
  consider "key x < key y" | "key x = key y" | "key y < key x" by force
  then show ?case
  proof cases
    case 1
    then show ?thesis using 2(2) by (auto simp: oset_inv_Cons)
  next
    case 3
    then have "key x \<noteq> key y" "\<not> key x < key y" by auto
    then show ?thesis using 2 3 keys_oset_emplace[of key x ys]
      by (simp only: oset_emplace.simps oset_inv_Cons if_False) simp
  qed (use 2(2) in simp)
qed (simp add: oset_inv_Cons)

lemma oset_inv_erase: "oset_inv key xs \<Longrightarrow> oset_inv key (oset_erase key k xs)"
  by (induction xs) (auto simp: oset_inv_Cons oset_erase_def)

lemma oset_inv_distinct_keys: "oset_inv key xs \<Longrightarrow> distinct (map key xs)"
  by (simp add: oset_inv_def strict_sorted_iff)

lemma oset_inv_unique:
  "oset_inv key xs \<Longrightarrow> y \<in> set xs \<Longrightarrow> z \<in> set xs \<Longrightarrow> key y = key z \<Longrightarrow> y = z"
  using oset_inv_distinct_keys[of key xs] by (simp add: distinct_map inj_on_def)

lemma oset_begin_least:
  "oset_inv key xs \<Longrightarrow> oset_begin xs = Some y \<Longrightarrow> y \<in> set xs \<and> (\<forall>z \<in> set xs. key y \<le> key z)"
  by (cases xs) (auto simp: oset_inv_Cons)

lemma oset_inv_distinct: "oset_inv key xs \<Longrightarrow> distinct xs"
  using oset_inv_distinct_keys distinct_map by blast

interpretation os: ordered_set key "oset_emplace key" "oset_erase key" oset_begin set "oset_inv key"
  for key :: "'a \<Rightarrow> 'k::linorder"
proof (unfold_locales, goal_cases)
  case (1 s x)
  then show ?case by (rule set_oset_emplace)
next
  case (3 s)
  then show ?case by (cases s) auto
next
  case (4 s y)
  then show ?case by (rule oset_begin_least)
next
  case (5 s y z)
  then show ?case by (rule oset_inv_unique)
qed (auto simp: oset_erase_def oset_inv_emplace oset_inv_erase[unfolded oset_erase_def])

lemma hm_find_append:
  "hm_find key (m @ m') k = (case hm_find key m k of None \<Rightarrow> hm_find key m' k | Some v \<Rightarrow> Some v)"
  by (induction m) auto

lemma hm_find_filter:
  "hm_find key (filter (\<lambda>p. key (fst p) \<noteq> key k) m) k' =
     (if key k' = key k then None else hm_find key m k')"
  by (induction m) auto

lemma hm_find_None: "hm_find key m k = None \<longleftrightarrow> key k \<notin> set (map (key \<circ> fst) m)"
  by (induction key m k rule: hm_find.induct) auto

lemma hm_find_SomeD: "hm_find key m k = Some v \<Longrightarrow> \<exists>k'. (k', v) \<in> set m \<and> key k' = key k"
  by (induction m) (auto split: if_splits)

lemma hm_assign_find:
  "hm_find key (hm_assign key k v m) k' = (if key k' = key k then Some v else hm_find key m k')"
  by (induction m) auto

lemma keys_hm_assign:
  "set (map (key \<circ> fst) (hm_assign key k v m)) = insert (key k) (set (map (key \<circ> fst) m))"
  by (induction key k v m rule: hm_assign.induct) (simp_all add: insert_commute)

lemma hm_inv_assign: "hm_inv key m \<Longrightarrow> hm_inv key (hm_assign key k v m)"
proof (induction key k v m rule: hm_assign.induct)
  case (2 key k v k' v' m)
  then show ?case using keys_hm_assign[of key k v m]
    by (cases "key k' = key k") (simp_all add: hm_inv_def)
qed (simp add: hm_inv_def)

lemma hm_find_cong: "key k = key k' \<Longrightarrow> hm_find key m k = hm_find key m k'"
  by (induction m) auto

lemma hm_inv_findI:
  "hm_inv key m \<Longrightarrow> (k, v) \<in> set m \<Longrightarrow> hm_find key m k = Some v"
proof (induction key m k rule: hm_find.induct)
  case (2 key k' v' m k)
  then have "key k = key k' \<Longrightarrow> (k, v) \<notin> set m"
    by (auto simp: hm_inv_def rev_image_eqI)
  then show ?case using 2 by (auto simp: hm_inv_def)
qed simp

interpretation hm: hash_table key "hm_find key" "hm_emplace key" "hm_assign key" "hm_erase key" "hm_inv key"
  for key :: "'k \<Rightarrow> 'e"
proof (unfold_locales, goal_cases)
  case (1 k k' m)
  then show ?case by (rule hm_find_cong)
next
  case (2 k v m k')
  show ?case using hm_find_cong[of key k' k m]
    by (auto simp: hm_emplace_def hm_contains_def hm_find_append split: option.splits)
next
  case (5 m k v)
  then show ?case
    by (simp add: hm_emplace_def hm_contains_def hm_find_None hm_inv_def)
next
  case (7 m k)
  then show ?case by (simp add: hm_inv_def hm_erase_def distinct_map_filter)
qed (auto simp: hm_assign_find hm_erase_def hm_find_filter hm_inv_assign)

end
