(* ===== verification/Messages.thy ===== *)
theory Messages
  imports Containers "HOL-Library.Product_Lexorder"
begin

text \<open>
  The public data types of \<open>api/rocketmq\<close> and the message representation of
  \<open>base\<close>: error codes, life-cycle states, message queues with the equality and the
  order the client defines on them, messages with their system attributes, send
  results and filter expressions. A constructor that reads a clock, the host name
  or the id generator takes the value read as an argument.
\<close>

section \<open>Error codes and states\<close>

datatype ErrorCode =
    Success | IllegalState | BadConfiguration | BadRequest | Unauthorized | Forbidden
  | NotFound | RequestTimeout | PayloadTooLarge | PreconditionRequired | TooManyRequest
  | HeaderFieldsTooLarge | UnavailableForLegalReasons | InternalServerError | NotImplemented
  | BadGateway | ServiceUnavailable | GatewayTimeout | ProtocolVersionNotSupported
  | InsufficientStorage

fun error_value :: "ErrorCode \<Rightarrow> int" where
  "error_value Success = 0"
| "error_value IllegalState = 1"
| "error_value BadConfiguration = 300"
| "error_value BadRequest = 400"
| "error_value Unauthorized = 401"
| "error_value Forbidden = 403"
| "error_value NotFound = 404"
| "error_value RequestTimeout = 408"
| "error_value PayloadTooLarge = 413"
| "error_value PreconditionRequired = 428"
| "error_value TooManyRequest = 429"
| "error_value HeaderFieldsTooLarge = 431"
| "error_value UnavailableForLegalReasons = 451"
| "error_value InternalServerError = 500"
| "error_value NotImplemented = 501"
| "error_value BadGateway = 502"
| "error_value ServiceUnavailable = 503"
| "error_value GatewayTimeout = 504"
| "error_value ProtocolVersionNotSupported = 505"
| "error_value InsufficientStorage = 507"

text \<open>A \<open>std::error_code\<close> converts to true when its value is not zero. A default
  constructed one is \<open>Success\<close>.\<close>

definition failed :: "ErrorCode \<Rightarrow> bool" where
  "failed ec = (error_value ec \<noteq> 0)"

lemma failed_simps [simp]: "failed ec \<longleftrightarrow> ec \<noteq> Success"
  by (cases ec) (simp_all add: failed_def)

datatype State = CREATED | STARTING | STARTED | STOPPING | STOPPED

fun state_value :: "State \<Rightarrow> nat" where
  "state_value CREATED = 0"
| "state_value STARTING = 1"
| "state_value STARTED = 2"
| "state_value STOPPING = 3"
| "state_value STOPPED = 4"

instantiation State :: linorder
begin

definition less_eq_State :: "State \<Rightarrow> State \<Rightarrow> bool" where
  "less_eq_State s t = (state_value s \<le> state_value t)"

definition less_State :: "State \<Rightarrow> State \<Rightarrow> bool" where
  "less_State s t = (state_value s < state_value t)"

instance
proof
  fix s t :: State
  show "s \<le> t \<Longrightarrow> t \<le> s \<Longrightarrow> s = t"
    by (cases s; cases t) (simp_all add: less_eq_State_def)
qed (auto simp: less_eq_State_def less_State_def)

end

text \<open>\<open>compare_exchange_strong\<close> on an atomic: the new value, and whether it was stored.\<close>

definition compare_exchange :: "'a \<Rightarrow> 'a \<Rightarrow> 'a \<Rightarrow> 'a \<times> bool" where
  "compare_exchange current expected desired =
     (if current = expected then (desired, True) else (current, False))"

datatype MessageModel = BROADCASTING | CLUSTERING

datatype MessageType = NORMAL | FIFO | DELAY | TRANSACTION

datatype ExpressionType = TAG | SQL92

datatype ReceiveMessageAction = POLLING | PULL

datatype ConsumeMessageResult = SUCCESS | FAILURE

datatype Encoding = IDENTITY | GZIP | SNAPPY

datatype DigestType = CRC32 | MD5 | SHA1

section \<open>Decimal numbers\<close>

text \<open>\<open>std::to_string\<close> of an integer.\<close>

fun to_string_nat :: "nat \<Rightarrow> string" where
  "to_string_nat n =
     (if n < 10 then [char_of (48 + n)]
      else to_string_nat (n div 10) @ [char_of (48 + n mod 10)])"

declare to_string_nat.simps [simp del]

definition to_string_int :: "int \<Rightarrow> string" where
  "to_string_int i = (if i < 0 then ''-'' @ to_string_nat (nat (- i)) else to_string_nat (nat i))"

section \<open>Message queues\<close>

record MQMessageQueue =
  mq_topic :: string
  mq_broker_name :: string
  mq_queue_id :: i32
  mq_service_address :: string

definition make_MQMessageQueue :: "string \<Rightarrow> string \<Rightarrow> i32 \<Rightarrow> MQMessageQueue" where
  "make_MQMessageQueue topic broker_name queue_id =
     \<lparr>mq_topic = topic, mq_broker_name = broker_name, mq_queue_id = queue_id,
      mq_service_address = []\<rparr>"

definition mq_eq :: "MQMessageQueue \<Rightarrow> MQMessageQueue \<Rightarrow> bool" where
  "mq_eq a b = (mq_topic a = mq_topic b \<and> mq_broker_name a = mq_broker_name b
     \<and> mq_queue_id a = mq_queue_id b)"

definition mq_less :: "MQMessageQueue \<Rightarrow> MQMessageQueue \<Rightarrow> bool" where
  "mq_less a b =
     (if mq_topic a \<noteq> mq_topic b then mq_topic a < mq_topic b
      else if mq_broker_name a \<noteq> mq_broker_name b then mq_broker_name a < mq_broker_name b
      else mq_queue_id a < mq_queue_id b)"

definition mq_bool :: "MQMessageQueue \<Rightarrow> bool" where
  "mq_bool q = (mq_topic q \<noteq> [] \<and> mq_broker_name q \<noteq> [] \<and> mq_queue_id q \<ge> 0)"

definition mq_compareTo :: "MQMessageQueue \<Rightarrow> MQMessageQueue \<Rightarrow> int" where
  "mq_compareTo a b = (if mq_less a b then -1 else if mq_less b a then 1 else 0)"

definition mq_simpleName :: "MQMessageQueue \<Rightarrow> string" where
  "mq_simpleName q =
     mq_topic q @ ''_'' @ mq_broker_name q @ ''_'' @ to_string_int (mq_queue_id q)"

text \<open>The fields that equality, order and hash of a queue look at.\<close>

definition mq_key :: "MQMessageQueue \<Rightarrow> string \<times> string \<times> int" where
  "mq_key q = (mq_topic q, mq_broker_name q, mq_queue_id q)"

section \<open>Messages\<close>

record Digest =
  dg_type :: DigestType
  dg_checksum :: string

record Resource =
  rs_namespace :: string
  rs_name :: string

record SystemAttribute =
  sa_tag :: string
  sa_keys :: "string list"
  sa_message_id :: string
  sa_digest :: Digest
  sa_body_encoding :: Encoding
  sa_message_type :: MessageType
  sa_born_timestamp :: time_point
  sa_born_host :: string
  sa_store_timestamp :: time_point
  sa_store_host :: string
  sa_delivery_timestamp :: time_point
  sa_decode_timestamp :: time_point
  sa_delay_level :: i32
  sa_receipt_handle :: string
  sa_partition_id :: i32
  sa_partition_offset :: i64
  sa_invisible_period :: duration
  sa_attempt_times :: i32
  sa_publisher_group :: Resource
  sa_trace_context :: string
  sa_target_endpoint :: string

record MessageImpl =
  mi_topic :: Resource
  mi_user_attribute_map :: "string \<rightharpoonup> string"
  mi_system_attribute :: SystemAttribute
  mi_body :: string

record MQMessage =
  msg_impl :: MessageImpl
  msg_message_group :: string
  msg_message_queue :: MQMessageQueue

text \<open>\<open>MQMessageExt\<close> adds no field to \<open>MQMessage\<close>.\<close>

type_synonym MQMessageExt = MQMessage

text \<open>The attributes of a fresh message. The fields without an initialiser
  (\<open>body_encoding\<close>, \<open>message_type\<close>) are indeterminate in C++, so they are arguments.\<close>

definition fresh_attributes :: "Encoding \<Rightarrow> MessageType \<Rightarrow> time_point \<Rightarrow> SystemAttribute" where
  "fresh_attributes enc ty now =
     \<lparr>sa_tag = [], sa_keys = [], sa_message_id = [],
      sa_digest = \<lparr>dg_type = MD5, dg_checksum = []\<rparr>, sa_body_encoding = enc,
      sa_message_type = ty, sa_born_timestamp = now, sa_born_host = [],
      sa_store_timestamp = 0, sa_store_host = [], sa_delivery_timestamp = 0,
      sa_decode_timestamp = now, sa_delay_level = 0, sa_receipt_handle = [],
      sa_partition_id = 0, sa_partition_offset = 0, sa_invisible_period = 0,
      sa_attempt_times = 0, sa_publisher_group = \<lparr>rs_namespace = [], rs_name = []\<rparr>,
      sa_trace_context = [], sa_target_endpoint = []\<rparr>"

definition make_MQMessage ::
  "Encoding \<Rightarrow> MessageType \<Rightarrow> time_point \<Rightarrow> string \<Rightarrow> string \<Rightarrow>
   string \<Rightarrow> string \<Rightarrow> string \<Rightarrow> string \<Rightarrow> MQMessage" where
  "make_MQMessage enc ty now hostname next_id topic tags keys body =
     \<lparr>msg_impl =
        \<lparr>mi_topic = \<lparr>rs_namespace = [], rs_name = topic\<rparr>,
         mi_user_attribute_map = Map.empty,
         mi_system_attribute = (fresh_attributes enc ty now)
           \<lparr>sa_tag := tags, sa_keys := (if keys = [] then [] else [keys]),
            sa_born_host := hostname, sa_born_timestamp := now, sa_message_id := next_id\<rparr>,
         mi_body = body\<rparr>,
      msg_message_group = [], msg_message_queue = make_MQMessageQueue [] [] 0\<rparr>"

text \<open>The copy constructor copies \<open>impl_\<close>; group and queue of the copy are default
  constructed. The assignment leaves the target's group and queue alone.\<close>

definition copy_MQMessage :: "MQMessage \<Rightarrow> MQMessage" where
  "copy_MQMessage other =
     \<lparr>msg_impl = msg_impl other, msg_message_group = [],
      msg_message_queue = make_MQMessageQueue [] [] 0\<rparr>"

definition assign_MQMessage :: "MQMessage \<Rightarrow> MQMessage \<Rightarrow> MQMessage" where
  "assign_MQMessage target other = target\<lparr>msg_impl := msg_impl other\<rparr>"

abbreviation msg_attrs :: "MQMessage \<Rightarrow> SystemAttribute" where
  "msg_attrs m \<equiv> mi_system_attribute (msg_impl m)"

definition getMsgId :: "MQMessage \<Rightarrow> string" where
  "getMsgId m = sa_message_id (msg_attrs m)"

definition getTopic :: "MQMessage \<Rightarrow> string" where
  "getTopic m = rs_name (mi_topic (msg_impl m))"

definition getTags :: "MQMessage \<Rightarrow> string" where
  "getTags m = sa_tag (msg_attrs m)"

definition getBody :: "MQMessage \<Rightarrow> string" where
  "getBody m = mi_body (msg_impl m)"

definition bodyLength :: "MQMessage \<Rightarrow> u32" where
  "bodyLength m = of_nat (length (mi_body (msg_impl m)))"

definition getQueueOffset :: "MQMessageExt \<Rightarrow> i64" where
  "getQueueOffset m = sa_partition_offset (msg_attrs m)"

definition getDeliveryAttempt :: "MQMessageExt \<Rightarrow> i32" where
  "getDeliveryAttempt m = sa_attempt_times (msg_attrs m)"

definition receiptHandle :: "MQMessageExt \<Rightarrow> string" where
  "receiptHandle m = sa_receipt_handle (msg_attrs m)"

definition targetEndpoint :: "MQMessage \<Rightarrow> string" where
  "targetEndpoint m = sa_target_endpoint (msg_attrs m)"

definition update_attrs :: "(SystemAttribute \<Rightarrow> SystemAttribute) \<Rightarrow> MQMessage \<Rightarrow> MQMessage" where
  "update_attrs f m = m\<lparr>msg_impl := (msg_impl m)\<lparr>mi_system_attribute := f (msg_attrs m)\<rparr>\<rparr>"

definition setDeliveryAttempt :: "MQMessageExt \<Rightarrow> i32 \<Rightarrow> MQMessageExt" where
  "setDeliveryAttempt m n = update_attrs (\<lambda>a. a\<lparr>sa_attempt_times := n\<rparr>) m"

definition setQueueOffset :: "MQMessageExt \<Rightarrow> i64 \<Rightarrow> MQMessageExt" where
  "setQueueOffset m n = update_attrs (\<lambda>a. a\<lparr>sa_partition_offset := n\<rparr>) m"

definition setProperty :: "MQMessage \<Rightarrow> string \<Rightarrow> string \<Rightarrow> MQMessage" where
  "setProperty m name val = m\<lparr>msg_impl := (msg_impl m)
     \<lparr>mi_user_attribute_map := (mi_user_attribute_map (msg_impl m))(name \<mapsto> val)\<rparr>\<rparr>"

definition getProperty :: "MQMessage \<Rightarrow> string \<Rightarrow> string" where
  "getProperty m name =
     (case mi_user_attribute_map (msg_impl m) name of None \<Rightarrow> [] | Some v \<Rightarrow> v)"

text \<open>\<open>setProperties\<close> uses \<open>std::map::insert\<close>, which keeps an entry that exists.\<close>

definition setProperties :: "MQMessage \<Rightarrow> (string \<times> string) list \<Rightarrow> MQMessage" where
  "setProperties m props = m\<lparr>msg_impl := (msg_impl m)\<lparr>mi_user_attribute_map :=
     fold (\<lambda>(k, v) a. if a k = None then a(k \<mapsto> v) else a) props
       (mi_user_attribute_map (msg_impl m))\<rparr>\<rparr>"

definition messageExt_eq :: "MQMessageExt \<Rightarrow> MQMessageExt \<Rightarrow> bool" where
  "messageExt_eq a b = (getMsgId a = getMsgId b)"

section \<open>Send results\<close>

datatype SendStatus =
  SEND_OK | SEND_FLUSH_DISK_TIMEOUT | SEND_FLUSH_SLAVE_TIMEOUT | SEND_SLAVE_NOT_AVAILABLE

record SendResult =
  sr_send_status :: SendStatus
  sr_message_id :: string
  sr_message_queue :: MQMessageQueue
  sr_queue_offset :: int
  sr_transaction_id :: string
  sr_region_id :: string
  sr_trace_context :: string

definition default_SendResult :: SendResult where
  "default_SendResult =
     \<lparr>sr_send_status = SEND_OK, sr_message_id = [],
      sr_message_queue = make_MQMessageQueue [] [] 0, sr_queue_offset = 0,
      sr_transaction_id = [], sr_region_id = [], sr_trace_context = []\<rparr>"

text \<open>Assignment copies every field but the trace context of the source.\<close>

definition assign_SendResult :: "SendResult \<Rightarrow> SendResult \<Rightarrow> SendResult" where
  "assign_SendResult target other = target
     \<lparr>sr_send_status := sr_send_status other, sr_message_id := sr_message_id other,
      sr_message_queue := sr_message_queue other, sr_queue_offset := sr_queue_offset other,
      sr_transaction_id := sr_transaction_id other, sr_region_id := sr_region_id other\<rparr>"

definition SendResult_bool :: "SendResult \<Rightarrow> bool" where
  "SendResult_bool r = (sr_message_id r \<noteq> [])"

section \<open>Filter expressions\<close>

record FilterExpression =
  fe_content :: string
  fe_type :: ExpressionType
  fe_version :: time_point

abbreviation WILD_CARD_TAG :: string where
  "WILD_CARD_TAG \<equiv> ''*''"

definition make_FilterExpression ::
  "string \<Rightarrow> ExpressionType \<Rightarrow> time_point \<Rightarrow> FilterExpression" where
  "make_FilterExpression expression ty now =
     \<lparr>fe_content = (if ty = TAG \<and> expression = [] then WILD_CARD_TAG else expression),
      fe_type = ty, fe_version = now\<rparr>"

definition accept :: "FilterExpression \<Rightarrow> MQMessageExt \<Rightarrow> bool" where
  "accept fe message = (case fe_type fe of
       TAG \<Rightarrow> if WILD_CARD_TAG = fe_content fe then True else getTags message = fe_content fe
     | SQL92 \<Rightarrow> True)"

section \<open>Facts\<close>

lemmas message_getters [rmq_defs] =
  getMsgId_def getTopic_def getTags_def getBody_def getQueueOffset_def
  getDeliveryAttempt_def receiptHandle_def targetEndpoint_def

lemma setDeliveryAttempt_frame [rmq_frame, simp]:
  "getBody (setDeliveryAttempt m n) = getBody m"
  "getQueueOffset (setDeliveryAttempt m n) = getQueueOffset m"
  "getMsgId (setDeliveryAttempt m n) = getMsgId m"
  "getTopic (setDeliveryAttempt m n) = getTopic m"
  "receiptHandle (setDeliveryAttempt m n) = receiptHandle m"
  "getDeliveryAttempt (setDeliveryAttempt m n) = n"
  by (simp_all add: setDeliveryAttempt_def update_attrs_def message_getters)

lemma mq_eq_key: "mq_eq a b \<longleftrightarrow> mq_key a = mq_key b"
  by (auto simp: mq_eq_def mq_key_def)

lemma mq_less_key: "mq_less a b \<longleftrightarrow> mq_key a < mq_key b"
  by (auto simp: mq_less_def mq_key_def less_prod_def)

lemma mq_compareTo_key:
  "mq_compareTo a b = (if mq_key a < mq_key b then -1 else if mq_key a = mq_key b then 0 else 1)"
  by (auto simp: mq_compareTo_def mq_less_key)

end
