(* ===== verification/Mix_All.thy ===== *)
theory Mix_All
  imports Messages
begin

text \<open>
  The helpers of \<open>base/MixAll.cpp\<close>: its constants, the validation of a message
  before it is sent, hexadecimal encoding and decoding, the digests and the test for
  an IPv4 literal. The digest algorithms themselves (zlib, OpenSSL) are parameters.
\<close>

unbundle bit_operations_syntax

type_synonym byte = "8 word"

section \<open>Constants\<close>

definition MASTER_BROKER_ID :: i32 where "MASTER_BROKER_ID = 0"
definition DEFAULT_RECEIVE_MESSAGE_BATCH_SIZE :: i32 where
  "DEFAULT_RECEIVE_MESSAGE_BATCH_SIZE = 32"
definition MAX_MESSAGE_BODY_SIZE :: u32 where "MAX_MESSAGE_BODY_SIZE = 4194304"
definition DEFAULT_CACHED_MESSAGE_COUNT :: u32 where "DEFAULT_CACHED_MESSAGE_COUNT = 1024"
definition DEFAULT_CACHED_MESSAGE_MEMORY :: u64 where "DEFAULT_CACHED_MESSAGE_MEMORY = 134217728"
definition DEFAULT_CONSUME_THREAD_POOL_SIZE :: u32 where "DEFAULT_CONSUME_THREAD_POOL_SIZE = 20"
definition DEFAULT_CONSUME_MESSAGE_BATCH_SIZE :: u32 where "DEFAULT_CONSUME_MESSAGE_BATCH_SIZE = 1"
definition DEFAULT_MAX_DELIVERY_ATTEMPTS :: i32 where "DEFAULT_MAX_DELIVERY_ATTEMPTS = 16"
definition DEFAULT_INVISIBLE_TIME_ms :: duration where "DEFAULT_INVISIBLE_TIME_ms = 30000"
definition PROCESS_QUEUE_EXPIRATION_THRESHOLD_ns :: duration where
  "PROCESS_QUEUE_EXPIRATION_THRESHOLD_ns = 120000000000"
definition MAX_SEND_MESSAGE_ATTEMPT_TIMES :: i32 where "MAX_SEND_MESSAGE_ATTEMPT_TIMES = 3"
definition DEFAULT_COMPRESS_BODY_THRESHOLD :: u32 where
  "DEFAULT_COMPRESS_BODY_THRESHOLD = 4194304"

lemmas mix_constants [rmq_defs] =
  MASTER_BROKER_ID_def DEFAULT_RECEIVE_MESSAGE_BATCH_SIZE_def MAX_MESSAGE_BODY_SIZE_def
  DEFAULT_CACHED_MESSAGE_COUNT_def DEFAULT_CACHED_MESSAGE_MEMORY_def
  DEFAULT_CONSUME_THREAD_POOL_SIZE_def DEFAULT_CONSUME_MESSAGE_BATCH_SIZE_def
  DEFAULT_MAX_DELIVERY_ATTEMPTS_def DEFAULT_INVISIBLE_TIME_ms_def
  PROCESS_QUEUE_EXPIRATION_THRESHOLD_ns_def MAX_SEND_MESSAGE_ATTEMPT_TIMES_def
  DEFAULT_COMPRESS_BODY_THRESHOLD_def

section \<open>Characters\<close>

definition char_in :: "char \<Rightarrow> char \<Rightarrow> char \<Rightarrow> bool" where
  "char_in lo c hi = (lo \<le> c \<and> c \<le> hi)"

text \<open>A full match of \<open>TOPIC_REGEX\<close>: 3 to 64 letters, digits, hyphens or underscores.\<close>

definition topic_char :: "char \<Rightarrow> bool" where
  "topic_char c = (char_in CHR ''a'' c CHR ''z'' \<or> char_in CHR ''A'' c CHR ''Z''
     \<or> char_in CHR ''0'' c CHR ''9'' \<or> c = CHR ''-'' \<or> c = CHR ''_'')"

definition TOPIC_REGEX :: "string \<Rightarrow> bool" where
  "TOPIC_REGEX s = (3 \<le> length s \<and> length s \<le> 64 \<and> list_all topic_char s)"

definition starts_with :: "string \<Rightarrow> string \<Rightarrow> bool" where
  "starts_with s p = (take (length p) s = p)"

definition validate :: "MQMessage \<Rightarrow> bool" where
  "validate message =
     (if getTopic message = [] then False
      else if starts_with (getTopic message) ''CID'' \<or> starts_with (getTopic message) ''GID''
        then False
      else if \<not> TOPIC_REGEX (getTopic message) then False
      else if bodyLength message = 0 \<or> bodyLength message > MAX_MESSAGE_BODY_SIZE then False
      else True)"

section \<open>Hexadecimal\<close>

definition hex_digit :: "byte \<Rightarrow> char" where
  "hex_digit d = ''0123456789ABCDEF'' ! unat d"

definition hex :: "byte list \<Rightarrow> string" where
  "hex data = concat (map (\<lambda>c. [hex_digit (drop_bit 4 (0xF0 AND c)), hex_digit (0x0F AND c)]) data)"

definition char_byte :: "char \<Rightarrow> byte" where
  "char_byte c = of_nat (of_char c)"

definition hexCharValue :: "char \<Rightarrow> byte option" where
  "hexCharValue c =
     (if char_in CHR ''0'' c CHR ''9'' then Some (char_byte c - char_byte CHR ''0'')
      else if char_in CHR ''a'' c CHR ''f'' then Some (char_byte c - char_byte CHR ''a'' + 10)
      else if char_in CHR ''A'' c CHR ''F'' then Some (char_byte c - char_byte CHR ''A'' + 10)
      else None)"

text \<open>The loop appends to the output vector, which keeps the bytes decoded before a
  bad character: the result is the returned flag and the vector.\<close>

fun hexToBinary_loop :: "string \<Rightarrow> byte list \<Rightarrow> bool \<times> byte list" where
  "hexToBinary_loop (c1 # c2 # cs) bin =
     (case hexCharValue c1 of
        None \<Rightarrow> (False, bin)
      | Some hi \<Rightarrow> (case hexCharValue c2 of
            None \<Rightarrow> (False, bin)
          | Some lo \<Rightarrow> hexToBinary_loop cs (bin @ [push_bit 4 hi OR lo])))"
| "hexToBinary_loop _ bin = (True, bin)"

definition hexToBinary :: "string \<Rightarrow> byte list \<Rightarrow> bool \<times> byte list" where
  "hexToBinary h bin = (if odd (length h) then (False, bin) else hexToBinary_loop h bin)"

section \<open>Digests\<close>

text \<open>\<open>crc32\<close> prints the checksum in network byte order; \<open>md5\<close> and \<open>sha1\<close> print the
  raw digest. The parameters are the checksum of zlib and the digests of OpenSSL.\<close>

definition big_endian32 :: "u32 \<Rightarrow> byte list" where
  "big_endian32 w = map (\<lambda>i. ucast (drop_bit (8 * i) w)) [3, 2, 1, 0]"

definition crc32_hex :: "(string \<Rightarrow> u32) \<Rightarrow> string \<Rightarrow> string" where
  "crc32_hex zlib_crc data = hex (big_endian32 (zlib_crc data))"

definition md5_hex :: "(string \<Rightarrow> byte list option) \<Rightarrow> string \<Rightarrow> string option" where
  "md5_hex md5_final data = map_option hex (md5_final data)"

definition sha1_hex :: "(string \<Rightarrow> byte list) \<Rightarrow> string \<Rightarrow> string" where
  "sha1_hex sha1_final data = hex (sha1_final data)"

section \<open>IPv4 literals\<close>

text \<open>A full match of \<open>IP_REGEX\<close>, read left to right: \<open>dots\<close> more separators are
  expected and \<open>seen\<close> tells whether the current group has a digit.\<close>

definition is_digit :: "char \<Rightarrow> bool" where
  "is_digit c = char_in CHR ''0'' c CHR ''9''"

fun ip_groups :: "nat \<Rightarrow> bool \<Rightarrow> string \<Rightarrow> bool" where
  "ip_groups dots seen [] = (dots = 0 \<and> seen)"
| "ip_groups dots seen (c # cs) =
     (if is_digit c then ip_groups dots True cs
      else if c = CHR ''.'' \<and> seen \<and> dots > 0 then ip_groups (dots - 1) False cs
      else False)"

definition isIPv4 :: "string \<Rightarrow> bool" where
  "isIPv4 host = ip_groups 3 False host"

section \<open>Lemmas on hexadecimal\<close>

lemma byte_nibbles: "push_bit 4 (drop_bit 4 (0xF0 AND c)) OR (0x0F AND c) = (c :: byte)"
proof (rule bit_word_eqI)
  let ?w = "push_bit 4 (drop_bit 4 (0xF0 AND c)) OR (0x0F AND c)"
  have all: "\<forall>n \<in> {0, 1, 2, 3, 4, 5, 6, 7}. bit ?w n = bit c n" by (simp add: bit_simps)
  fix n
  assume "n < LENGTH(8)"
  then have "n \<in> {0, 1, 2, 3, 4, 5, 6, 7}" by auto
  then show "bit ?w n = bit c n" using all by blast
qed

lemma hexCharValue_digit_nat:
  assumes "n < 16"
  shows "hexCharValue (''0123456789ABCDEF'' ! n) = Some (of_nat n)"
proof -
  have "\<forall>k \<in> set [0..<16]. hexCharValue (''0123456789ABCDEF'' ! k) = Some (of_nat k)" by code_simp
  then show ?thesis using assms by simp
qed

lemma hexCharValue_hex_digit: "unat d < 16 \<Longrightarrow> hexCharValue (hex_digit d) = Some d"
  using hexCharValue_digit_nat[of "unat d"] by (simp add: hex_digit_def)

lemma unat_low_nibble: "unat (0x0F AND c :: byte) < 16"
proof -
  have "(0x0F AND c :: byte) \<le> 0x0F" by (rule word_and_le2)
  then show ?thesis by (simp add: word_le_nat_alt)
qed

lemma unat_high_nibble: "unat (drop_bit 4 (0xF0 AND c) :: byte) < 16"
  using unat_low_nibble[of "drop_bit 4 c"] by simp

lemma hex_Cons:
  "hex (c # data) = hex_digit (drop_bit 4 (0xF0 AND c)) # hex_digit (0x0F AND c) # hex data"
  by (simp add: hex_def)

lemma length_hex [simp]: "length (hex data) = 2 * length data"
  by (induction data) (simp_all add: hex_def)

lemma hexToBinary_loop_hex: "hexToBinary_loop (hex data) bin = (True, bin @ data)"
proof (induction data arbitrary: bin)
  case (Cons c data)
  then show ?case
    by (simp only: hex_Cons hexToBinary_loop.simps hexCharValue_hex_digit unat_low_nibble
      unat_high_nibble option.case byte_nibbles) simp
qed (simp add: hex_def)

lemma hex_inject: "hex a = hex b \<longleftrightarrow> a = b"
  by (metis Pair_inject append_Nil hexToBinary_loop_hex)

lemma validate_iff:
  "validate m \<longleftrightarrow> TOPIC_REGEX (getTopic m) \<and> \<not> starts_with (getTopic m) ''CID''
     \<and> \<not> starts_with (getTopic m) ''GID'' \<and> 0 < bodyLength m \<and> bodyLength m \<le> 4194304"
  by (auto simp: validate_def TOPIC_REGEX_def MAX_MESSAGE_BODY_SIZE_def word_gt_0)

end
