(* ===== verification/Routes.thy ===== *)
theory Routes
  imports Mix_All "HOL-Library.Multiset"
begin

text \<open>
  Route data as the client keeps it (\<open>client/include/{ServiceAddress,Broker,Topic,
  Partition,TopicRouteData,Assignment,TopicAssignmentInfo}.h\<close>), the publish
  information derived from it (\<open>client/TopicPublishInfo.cpp\<close>), the assignment a load
  balancer returns (\<open>client/TopicAssignmentInfo.cpp\<close>) and the choice of a broker to
  query (\<open>PushConsumerImpl::selectBroker\<close>). The thread local counters are arguments.
\<close>

section \<open>Addresses, topics, brokers and partitions\<close>

datatype AddressScheme = IPv4 | IPv6 | DOMAIN_NAME

datatype Address = Address (addr_host: string) (addr_port: i32)

definition Address_less :: "Address \<Rightarrow> Address \<Rightarrow> bool" where
  "Address_less a b =
     (if addr_host a < addr_host b then True
      else if addr_host b < addr_host a then False
      else if addr_port a < addr_port b then True
      else if addr_port b < addr_port a then False
      else False)"

instantiation Address :: linorder
begin

definition less_Address :: "Address \<Rightarrow> Address \<Rightarrow> bool" where
  "less_Address a b = Address_less a b"

definition less_eq_Address :: "Address \<Rightarrow> Address \<Rightarrow> bool" where
  "less_eq_Address a b = (a = b \<or> Address_less a b)"

instance
  by standard (auto simp: less_Address_def less_eq_Address_def Address_less_def Address.expand
      split: if_splits)

end

text \<open>The constructor sorts the addresses.\<close>

record ServiceAddress =
  svc_scheme :: AddressScheme
  svc_addresses :: "Address list"

definition make_ServiceAddress :: "AddressScheme \<Rightarrow> Address list \<Rightarrow> ServiceAddress" where
  "make_ServiceAddress scheme addresses = \<lparr>svc_scheme = scheme, svc_addresses = sort addresses\<rparr>"

definition ServiceAddress_bool :: "ServiceAddress \<Rightarrow> bool" where
  "ServiceAddress_bool s = (svc_addresses s \<noteq> [])"

fun join_addresses :: "Address list \<Rightarrow> string" where
  "join_addresses [] = []"
| "join_addresses [a] = addr_host a @ '':'' @ to_string_int (addr_port a)"
| "join_addresses (a # as) = addr_host a @ '':'' @ to_string_int (addr_port a) @ '','' @ join_addresses as"

fun scheme_prefix :: "AddressScheme \<Rightarrow> string" where
  "scheme_prefix IPv4 = ''ipv4:''"
| "scheme_prefix IPv6 = ''ipv6:''"
| "scheme_prefix DOMAIN_NAME = ''dns:''"

definition address :: "ServiceAddress \<Rightarrow> string" where
  "address s = scheme_prefix (svc_scheme s) @ join_addresses (svc_addresses s)"

text \<open>Brokers are compared by name.\<close>

record Broker =
  br_name :: string
  br_id :: i32
  br_service_address :: ServiceAddress

definition Broker_bool :: "Broker \<Rightarrow> bool" where
  "Broker_bool b = ServiceAddress_bool (br_service_address b)"

definition Broker_eq :: "Broker \<Rightarrow> Broker \<Rightarrow> bool" where
  "Broker_eq a b = (br_name a = br_name b)"

definition Broker_less :: "Broker \<Rightarrow> Broker \<Rightarrow> bool" where
  "Broker_less a b = (br_name a < br_name b)"

definition Broker_serviceAddress :: "Broker \<Rightarrow> string" where
  "Broker_serviceAddress b = address (br_service_address b)"

datatype Topic = Topic (tp_namespace: string) (tp_name: string)

definition Topic_less :: "Topic \<Rightarrow> Topic \<Rightarrow> bool" where
  "Topic_less a b =
     (if tp_namespace a < tp_namespace b then True
      else if tp_namespace b < tp_namespace a then False
      else if tp_name a < tp_name b then True
      else if tp_name b < tp_name a then False
      else False)"

instantiation Topic :: linorder
begin

definition less_Topic :: "Topic \<Rightarrow> Topic \<Rightarrow> bool" where
  "less_Topic a b = Topic_less a b"

definition less_eq_Topic :: "Topic \<Rightarrow> Topic \<Rightarrow> bool" where
  "less_eq_Topic a b = (a = b \<or> Topic_less a b)"

instance
  by standard (auto simp: less_Topic_def less_eq_Topic_def Topic_less_def Topic.expand
      split: if_splits)

end

datatype Permission = NONE | READ | WRITE | READ_WRITE

record Partition =
  pt_topic :: Topic
  pt_broker :: Broker
  pt_id :: i32
  pt_permission :: Permission

definition asMessageQueue :: "Partition \<Rightarrow> MQMessageQueue" where
  "asMessageQueue p =
     (make_MQMessageQueue (tp_name (pt_topic p)) (br_name (pt_broker p)) (pt_id p))
       \<lparr>mq_service_address := Broker_serviceAddress (pt_broker p)\<rparr>"

definition Partition_eq :: "Partition \<Rightarrow> Partition \<Rightarrow> bool" where
  "Partition_eq a b = (pt_topic a = pt_topic b \<and> pt_id a = pt_id b
     \<and> Broker_eq (pt_broker a) (pt_broker b) \<and> pt_permission a = pt_permission b)"

definition Partition_less :: "Partition \<Rightarrow> Partition \<Rightarrow> bool" where
  "Partition_less a b =
     (if Topic_less (pt_topic a) (pt_topic b) then True
      else if Topic_less (pt_topic b) (pt_topic a) then False
      else if Broker_less (pt_broker a) (pt_broker b) then True
      else if Broker_less (pt_broker b) (pt_broker a) then False
      else pt_id a < pt_id b)"

text \<open>The key that \<open>Partition_less\<close> compares. Sorting by it models \<open>std::sort\<close>, whose
  result is determined up to the order of partitions with the same key.\<close>

definition partition_key :: "Partition \<Rightarrow> Topic \<times> string \<times> int" where
  "partition_key p = (pt_topic p, br_name (pt_broker p), pt_id p)"

record TopicRouteData =
  rt_partitions :: "Partition list"
  rt_debug_string :: string

definition make_TopicRouteData :: "Partition list \<Rightarrow> string \<Rightarrow> TopicRouteData" where
  "make_TopicRouteData partitions debug_string =
     \<lparr>rt_partitions = sort_key partition_key partitions, rt_debug_string = debug_string\<rparr>"

definition TopicRouteData_eq :: "TopicRouteData \<Rightarrow> TopicRouteData \<Rightarrow> bool" where
  "TopicRouteData_eq a b = list_all2 Partition_eq (rt_partitions a) (rt_partitions b)"

section \<open>Publish information\<close>

record TopicPublishInfo =
  pi_topic :: string
  pi_route :: TopicRouteData
  pi_partition_list :: "Partition list"

definition writable_master :: "Partition \<Rightarrow> bool" where
  "writable_master p = (\<not> (READ = pt_permission p \<or> NONE = pt_permission p)
     \<and> \<not> MASTER_BROKER_ID \<noteq> br_id (pt_broker p))"

text \<open>None: the assertion on the topic of a partition fails.\<close>

definition updatePublishInfo :: "TopicPublishInfo \<Rightarrow> TopicPublishInfo option" where
  "updatePublishInfo info =
     (if list_all (\<lambda>p. tp_name (pt_topic p) = pi_topic info) (rt_partitions (pi_route info)) then
        let writable = filter writable_master (rt_partitions (pi_route info))
        in Some (if writable = [] then info else info\<lparr>pi_partition_list := writable\<rparr>)
      else None)"

definition make_TopicPublishInfo :: "string \<Rightarrow> TopicRouteData \<Rightarrow> TopicPublishInfo option" where
  "make_TopicPublishInfo topic route =
     updatePublishInfo \<lparr>pi_topic = topic, pi_route = route, pi_partition_list = []\<rparr>"

definition topicRouteData :: "TopicPublishInfo \<Rightarrow> TopicRouteData \<Rightarrow> TopicPublishInfo option" where
  "topicRouteData info route = updatePublishInfo (info\<lparr>pi_route := route\<rparr>)"

text \<open>The first argument is the thread local \<open>send_which_queue_\<close>, which is returned
  incremented.\<close>

definition selectOneMessageQueue :: "u32 \<Rightarrow> TopicPublishInfo \<Rightarrow> u32 \<times> MQMessageQueue option" where
  "selectOneMessageQueue send_which_queue info =
     (let index = send_which_queue + 1; ps = pi_partition_list info
      in (index, if ps = [] then None else Some (asMessageQueue (ps ! (unat index mod length ps)))))"

fun selectActive_loop :: "nat \<Rightarrow> u32 \<Rightarrow> string set \<Rightarrow> Partition list \<Rightarrow> MQMessageQueue option" where
  "selectActive_loop 0 index isolated ps = None"
| "selectActive_loop (Suc n) index isolated ps =
     (let q = asMessageQueue (ps ! (unat index mod length ps))
      in if mq_service_address q \<notin> isolated then Some q
         else selectActive_loop n (index + 1) isolated ps)"

definition selectOneActiveMessageQueue ::
  "u32 \<Rightarrow> TopicPublishInfo \<Rightarrow> string set \<Rightarrow> u32 \<times> MQMessageQueue option" where
  "selectOneActiveMessageQueue send_which_queue info isolated =
     (let index = send_which_queue + 1; ps = pi_partition_list info
      in (index, if ps = [] then None else selectActive_loop (length ps) index isolated ps))"

fun takeQueues_loop ::
  "nat \<Rightarrow> u32 \<Rightarrow> string set \<Rightarrow> nat \<Rightarrow> Partition list \<Rightarrow> MQMessageQueue list \<Rightarrow> bool \<times> MQMessageQueue list" where
  "takeQueues_loop 0 index isolated cnt ps candidates = (candidates \<noteq> [], candidates)"
| "takeQueues_loop (Suc n) index isolated cnt ps candidates =
     (let q = asMessageQueue (ps ! (unat index mod length ps))
      in if mq_service_address q \<notin> isolated then
           let candidates' = (if list_all (\<lambda>item. mq_broker_name item \<noteq> mq_broker_name q) candidates
                              then candidates @ [q] else candidates)
           in if length candidates' \<ge> cnt then (True, candidates')
              else takeQueues_loop n (index + 1) isolated cnt ps candidates'
         else takeQueues_loop n (index + 1) isolated cnt ps candidates)"

definition takeMessageQueues ::
  "u32 \<Rightarrow> TopicPublishInfo \<Rightarrow> string set \<Rightarrow> MQMessageQueue list \<Rightarrow> u32 \<Rightarrow>
   u32 \<times> bool \<times> MQMessageQueue list" where
  "takeMessageQueues send_which_queue info isolated candidates cnt =
     (let index = send_which_queue + 1; ps = pi_partition_list info
      in (index, if ps = [] then (False, candidates)
                 else takeQueues_loop (length ps) index isolated (unat cnt) ps candidates))"

definition getMessageQueueList :: "TopicPublishInfo \<Rightarrow> MQMessageQueue list" where
  "getMessageQueueList info = sort_key mq_key
     (filter (\<lambda>q. mq_service_address q \<noteq> [])
       (map asMessageQueue
         (filter (\<lambda>p. \<not> (READ = pt_permission p \<or> NONE = pt_permission p)) (pi_partition_list info))))"

section \<open>Assignments\<close>

text \<open>What the response of a load balancer carries; the scheme is None when it is none
  of the three known ones.\<close>

record pb_Broker =
  pb_broker_name :: string
  pb_scheme :: "AddressScheme option"
  pb_addresses :: "Address list"

record pb_Partition =
  pb_topic_name :: string
  pb_id :: i32
  pb_permission :: Permission
  pb_broker :: "pb_Broker option"

text \<open>The text of an endpoint: the scheme is written before the first address, and only
  the first address of a domain name is used.\<close>

definition first_prefix :: "AddressScheme option \<Rightarrow> string" where
  "first_prefix scheme = (case scheme of None \<Rightarrow> [] | Some s \<Rightarrow> scheme_prefix s)"

fun endpoint_text :: "AddressScheme option \<Rightarrow> string \<Rightarrow> Address list \<Rightarrow> string" where
  "endpoint_text scheme text [] = text"
| "endpoint_text scheme text (a # as) =
     (let text' = (if text = [] then text @ first_prefix scheme else text @ '','')
                    @ addr_host a @ '':'' @ to_string_int (addr_port a)
      in if scheme = Some DOMAIN_NAME then text' else endpoint_text scheme text' as)"

text \<open>One entry of the response: Some [] when it is skipped, None when the assertion
  that it names a broker fails.\<close>

definition assignment_of :: "pb_Partition \<Rightarrow> MQMessageQueue list option" where
  "assignment_of p =
     (if READ \<noteq> pb_permission p \<and> READ_WRITE \<noteq> pb_permission p then Some []
      else case pb_broker p of
        None \<Rightarrow> None
      | Some b \<Rightarrow>
          if pb_addresses b = [] then Some []
          else Some [(make_MQMessageQueue (pb_topic_name p) (pb_broker_name b) (pb_id p))
                 \<lparr>mq_service_address := endpoint_text (pb_scheme b) [] (pb_addresses b)\<rparr>])"

fun assignments_loop :: "pb_Partition list \<Rightarrow> MQMessageQueue list option" where
  "assignments_loop [] = Some []"
| "assignments_loop (p # ps) = (case assignment_of p of
       None \<Rightarrow> None
     | Some qs \<Rightarrow> map_option (\<lambda>rest. qs @ rest) (assignments_loop ps))"

text \<open>An assignment is a message queue; \<open>ok\<close> tells whether the status code is OK.\<close>

definition TopicAssignment_of_response :: "bool \<Rightarrow> pb_Partition list \<Rightarrow> MQMessageQueue list option" where
  "TopicAssignment_of_response ok ps =
     (if ok then map_option (sort_key mq_key) (assignments_loop ps) else Some [])"

definition make_TopicAssignment :: "MQMessageQueue list \<Rightarrow> MQMessageQueue list" where
  "make_TopicAssignment assignments = sort_key mq_key assignments"

section \<open>Choosing a broker\<close>

text \<open>The loop of \<open>selectBroker\<close> counts a 32 bit word up to a 64 bit bound; Some None means
  that the loop ended without a broker, None that it does not end.\<close>

definition broker_eligible :: "Partition \<Rightarrow> bool" where
  "broker_eligible p = (\<not> (MASTER_BROKER_ID \<noteq> br_id (pt_broker p) \<or> NONE = pt_permission p)
     \<and> Broker_bool (pt_broker p))"

partial_function (option) selectBroker_loop :: "u32 \<Rightarrow> nat \<Rightarrow> Partition list \<Rightarrow> string option option" where
  "selectBroker_loop i bound ps =
     (if unat i < bound then
        let p = ps ! (unat i mod length ps)
        in if broker_eligible p then Some (Some (Broker_serviceAddress (pt_broker p)))
           else selectBroker_loop (i + 1) bound ps
      else Some None)"

definition selectBroker :: "u32 \<Rightarrow> TopicRouteData option \<Rightarrow> u32 \<times> string option option" where
  "selectBroker query_which_broker route = (case route of
       None \<Rightarrow> (query_which_broker, Some None)
     | Some r \<Rightarrow>
         if rt_partitions r = [] then (query_which_broker, Some None)
         else let index = query_which_broker + 1
              in (index, selectBroker_loop index (unat index + length (rt_partitions r)) (rt_partitions r)))"

section \<open>Lemmas: counters that walk a list\<close>

lemma rotation_surj:
  assumes "j < n"
  shows "\<exists>i<n. (s + i) mod n = (j :: nat)"
proof -
  have n: "0 < n" using assms by simp
  define i where "i = (j + (n - s mod n)) mod n"
  have sn: "s mod n < n" using n by simp
  have "(s + i) mod n = (s mod n + (j + (n - s mod n))) mod n"
    unfolding i_def by (simp add: mod_simps)
  also have "s mod n + (j + (n - s mod n)) = j + n" using sn by simp
  finally have "(s + i) mod n = j" using assms by simp
  moreover have "i < n" using n by (simp add: i_def)
  ultimately show ?thesis by blast
qed

lemma rotation_mset:
  fixes xs :: "'a list"
  shows "mset (map (\<lambda>i. xs ! ((s + i) mod length xs)) [0..<length xs]) = mset xs"
proof -
  let ?n = "length xs"
  let ?f = "\<lambda>i. (s + i) mod ?n"
  have img: "?f ` {..<?n} = {..<?n}"
    using rotation_surj[of _ ?n s] by (auto simp: image_iff Bex_def) (metis mod_less_divisor bot_nat_0.not_eq_extremum less_nat_zero_code)
  have inj: "inj_on ?f {..<?n}"
    by (rule eq_card_imp_inj_on) (simp_all only: img finite_lessThan)
  have "mset (map ?f [0..<?n]) = image_mset ?f (mset_set {..<?n})"
    by (simp add: atLeast0LessThan)
  also have "\<dots> = mset_set (?f ` {..<?n})"
    using inj by (rule image_mset_mset_set)
  also have "\<dots> = mset [0..<?n]"
    by (simp only: img) (simp add: atLeast0LessThan)
  finally have perm: "mset (map ?f [0..<?n]) = mset [0..<?n]" .
  have "map (\<lambda>i. xs ! ?f i) [0..<?n] = map ((!) xs) (map ?f [0..<?n])" by simp
  then have "mset (map (\<lambda>i. xs ! ?f i) [0..<?n]) = image_mset ((!) xs) (mset (map ?f [0..<?n]))"
    by (simp only: mset_map)
  also have "\<dots> = mset (map ((!) xs) [0..<?n])" by (simp only: perm) (simp only: mset_map)
  finally show ?thesis by (simp only: map_nth)
qed

lemma unat_u32_add:
  "unat (w :: u32) + i < 4294967296 \<Longrightarrow> unat (w + of_nat i) = unat w + i"
  by (simp add: unat_word_ariths unat_of_nat)

text \<open>The partitions a loop of \<open>n\<close> steps visits from a counter.\<close>

definition visited :: "nat \<Rightarrow> u32 \<Rightarrow> Partition list \<Rightarrow> Partition list" where
  "visited n index ps = map (\<lambda>i. ps ! (unat (index + of_nat i) mod length ps)) [0..<n]"

lemma visited_0 [simp]: "visited 0 index ps = []"
  by (simp add: visited_def)

lemma visited_Suc [simp]:
  "visited (Suc n) index ps = ps ! (unat index mod length ps) # visited n (index + 1) ps"
  by (simp add: visited_def upt_conv_Cons map_Suc_upt[symmetric] add.assoc del: upt_Suc map_Suc_upt)

lemma visited_subset: "ps \<noteq> [] \<Longrightarrow> set (visited n index ps) \<subseteq> set ps"
  by (auto simp: visited_def)

lemma visited_all:
  assumes "unat index + length ps \<le> 4294967296"
  shows "mset (visited (length ps) index ps) = mset ps"
proof -
  have "visited (length ps) index ps = map (\<lambda>i. ps ! ((unat index + i) mod length ps)) [0..<length ps]"
    unfolding visited_def using assms by (intro map_cong) (auto simp: unat_u32_add)
  then show ?thesis by (simp only: rotation_mset)
qed

lemma visited_all_set:
  "unat index + length ps \<le> 4294967296 \<Longrightarrow> set (visited (length ps) index ps) = set ps"
  using visited_all by (metis set_mset_mset)

section \<open>Lemmas: orders and texts\<close>

lemma Partition_less_key: "Partition_less a b \<longleftrightarrow> partition_key a < partition_key b"
proof -
  have eq: "a = b" if "\<not> Topic_less a b" "\<not> Topic_less b a" for a b
    using that less_linear[of a b] by (auto simp: less_Topic_def)
  show ?thesis
    using eq[of "pt_topic a" "pt_topic b"]
    by (auto simp: Partition_less_def partition_key_def less_prod_def Broker_less_def less_Topic_def
        simp flip: less_Topic_def)
qed

lemma address_not_empty [simp]: "address s \<noteq> []"
  by (cases "svc_scheme s") (simp_all add: address_def)

lemma asMessageQueue_simps [simp]:
  "mq_service_address (asMessageQueue p) = Broker_serviceAddress (pt_broker p)"
  "mq_topic (asMessageQueue p) = tp_name (pt_topic p)"
  "mq_broker_name (asMessageQueue p) = br_name (pt_broker p)"
  "mq_queue_id (asMessageQueue p) = pt_id p"
  by (simp_all add: asMessageQueue_def make_MQMessageQueue_def)

lemma endpoint_text_join:
  "s \<noteq> DOMAIN_NAME \<Longrightarrow> acc \<noteq> [] \<Longrightarrow>
   endpoint_text (Some s) acc as = acc @ concat (map (\<lambda>a. '','' @ addr_host a @ '':'' @ to_string_int (addr_port a)) as)"
  by (induction as arbitrary: acc) (simp_all add: Let_def)

lemma join_addresses_concat:
  "join_addresses (a # as) = addr_host a @ '':'' @ to_string_int (addr_port a)
     @ concat (map (\<lambda>a. '','' @ addr_host a @ '':'' @ to_string_int (addr_port a)) as)"
  by (induction as arbitrary: a) simp_all

lemma endpoint_text_address:
  assumes "as \<noteq> []" "sorted as" "s \<noteq> DOMAIN_NAME \<or> length as = 1"
  shows "endpoint_text (Some s) [] as = address (make_ServiceAddress s as)"
proof -
  obtain a as' where as: "as = a # as'" using assms by (cases as) auto
  have ne: "scheme_prefix s \<noteq> []" by (cases s) auto
  have "address (make_ServiceAddress s as) = scheme_prefix s @ join_addresses (a # as')"
    using assms(2) by (simp only: address_def make_ServiceAddress_def sorted_sort_id ServiceAddress.simps as)
  then show ?thesis
    using assms(3) ne by (auto simp: as first_prefix_def endpoint_text_join join_addresses_concat Let_def)
qed

section \<open>Lemmas: publish information\<close>

lemma selectActive_loop_find:
  "selectActive_loop n index isolated ps =
     List.find (\<lambda>q. mq_service_address q \<notin> isolated) (map asMessageQueue (visited n index ps))"
  by (induction n arbitrary: index) (simp_all add: Let_def)

primrec select_rounds :: "nat \<Rightarrow> u32 \<Rightarrow> TopicPublishInfo \<Rightarrow> MQMessageQueue option list" where
  "select_rounds 0 c info = []"
| "select_rounds (Suc n) c info =
     (case selectOneMessageQueue c info of (c', q) \<Rightarrow> q # select_rounds n c' info)"

lemma select_rounds_visited:
  "pi_partition_list info \<noteq> [] \<Longrightarrow>
   select_rounds n c info = map (Some \<circ> asMessageQueue) (visited n (c + 1) (pi_partition_list info))"
  by (induction n arbitrary: c) (simp_all add: selectOneMessageQueue_def Let_def)

definition candidates_ok :: "string set \<Rightarrow> Partition list \<Rightarrow> MQMessageQueue list \<Rightarrow> bool" where
  "candidates_ok isolated ps qs \<longleftrightarrow> distinct (map mq_broker_name qs)
     \<and> (\<forall>q\<in>set qs. mq_service_address q \<notin> isolated \<and> q \<in> asMessageQueue ` set ps)"

lemma takeQueues_loop_sound:
  assumes "takeQueues_loop n index isolated cnt ps qs = (ok, qs')" "ps \<noteq> []"
    "candidates_ok isolated ps qs" "length qs < cnt"
  shows "candidates_ok isolated ps qs' \<and> length qs' \<le> cnt \<and> set qs \<subseteq> set qs' \<and> ok = (qs' \<noteq> [])"
  using assms
proof (induction n arbitrary: index qs)
  case 0
  then show ?case by auto
next
  case (Suc n)
  let ?p = "ps ! (unat index mod length ps)"
  let ?q = "asMessageQueue ?p"
  let ?qs = "if list_all (\<lambda>item. mq_broker_name item \<noteq> mq_broker_name ?q) qs then qs @ [?q] else qs"
  have mem: "?p \<in> set ps" using Suc.prems(2) by simp
  show ?case
  proof (cases "mq_service_address ?q \<in> isolated")
    case True
    then show ?thesis using Suc by (simp add: Let_def)
  next
    case False
    have ok: "candidates_ok isolated ps ?qs"
      using Suc.prems(3) False mem by (auto simp: candidates_ok_def list_all_iff)
    have sub: "set qs \<subseteq> set ?qs" by auto
    have len: "length ?qs \<le> cnt" using Suc.prems(4) by simp
    show ?thesis
    proof (cases "length ?qs \<ge> cnt")
      case True
      then have "ok \<and> qs' = ?qs" using Suc.prems(1) False by (simp add: Let_def split: if_splits)
      moreover have "?qs \<noteq> []" using True Suc.prems(4) by (auto split: if_splits)
      ultimately show ?thesis using ok sub len by simp
    next
      case lt: False
      have rec: "takeQueues_loop n (index + 1) isolated cnt ps ?qs = (ok, qs')"
        using Suc.prems(1) False lt by (simp add: Let_def split: if_splits)
      have "candidates_ok isolated ps qs' \<and> length qs' \<le> cnt \<and> set ?qs \<subseteq> set qs' \<and> ok = (qs' \<noteq> [])"
        by (rule Suc.IH[OF rec Suc.prems(2) ok]) (use lt in simp)
      then show ?thesis using sub by blast
    qed
  qed
qed

lemma takeQueues_loop_complete:
  assumes "takeQueues_loop n index isolated cnt ps qs = (ok, qs')" "length qs' < cnt"
  shows "set qs \<subseteq> set qs' \<and> (\<forall>p\<in>set (visited n index ps). Broker_serviceAddress (pt_broker p) \<notin> isolated
           \<longrightarrow> br_name (pt_broker p) \<in> mq_broker_name ` set qs')"
  using assms
proof (induction n arbitrary: index qs)
  case 0
  then show ?case by simp
next
  case (Suc n)
  let ?p = "ps ! (unat index mod length ps)"
  let ?q = "asMessageQueue ?p"
  let ?qs = "if list_all (\<lambda>item. mq_broker_name item \<noteq> mq_broker_name ?q) qs then qs @ [?q] else qs"
  show ?case
  proof (cases "mq_service_address ?q \<in> isolated")
    case True
    then show ?thesis using Suc by (simp add: Let_def)
  next
    case False
    have rec: "takeQueues_loop n (index + 1) isolated cnt ps ?qs = (ok, qs')"
      using Suc.prems False by (auto simp: Let_def split: if_splits)
    have sub: "set qs \<subseteq> set ?qs" by auto
    have "br_name (pt_broker ?p) \<in> mq_broker_name ` set ?qs"
      by (auto simp: list_all_iff image_iff) (metis)
    then show ?thesis using Suc.IH[OF rec Suc.prems(2)] sub by auto
  qed
qed

definition publish_ok :: "TopicPublishInfo \<Rightarrow> TopicRouteData list \<Rightarrow> bool" where
  "publish_ok info routes \<longleftrightarrow>
     (let good = filter (\<lambda>r. filter writable_master (rt_partitions r) \<noteq> []) routes
      in pi_partition_list info = (if good = [] then [] else filter writable_master (rt_partitions (List.last good))))
     \<and> (\<forall>p\<in>set (pi_partition_list info). tp_name (pt_topic p) = pi_topic info)"

lemma topicRouteData_topic: "topicRouteData info r = Some info' \<Longrightarrow> pi_topic info' = pi_topic info"
  by (auto simp: topicRouteData_def updatePublishInfo_def Let_def split: if_splits)

lemma topicRouteData_publish_ok:
  assumes "topicRouteData info r = Some info'" "publish_ok info routes"
  shows "publish_ok info' (routes @ [r])"
  using assms
  by (auto simp: topicRouteData_def updatePublishInfo_def publish_ok_def Let_def list_all_iff split: if_splits)

lemma fold_topicRouteData_publish_ok:
  assumes "fold_option (\<lambda>r i. topicRouteData i r) rs info = Some info'" "publish_ok info routes"
  shows "publish_ok info' (routes @ rs) \<and> pi_topic info' = pi_topic info"
  using assms
proof (induction rs arbitrary: info routes)
  case Nil
  then show ?case by simp
next
  case (Cons r rs)
  obtain i where i: "topicRouteData info r = Some i"
    "fold_option (\<lambda>r i. topicRouteData i r) rs i = Some info'"
    using Cons.prems(1) by (auto split: option.splits)
  have "publish_ok i (routes @ [r])" using i(1) Cons.prems(2) by (rule topicRouteData_publish_ok)
  from Cons.IH[OF i(2) this] show ?case using topicRouteData_topic[OF i(1)] by simp
qed

lemma make_TopicPublishInfo_publish_ok:
  "make_TopicPublishInfo topic r = Some info \<Longrightarrow> publish_ok info [r] \<and> pi_topic info = topic"
  by (auto simp: make_TopicPublishInfo_def updatePublishInfo_def publish_ok_def Let_def list_all_iff
      split: if_splits)

section \<open>Lemmas: choosing a broker\<close>

lemma selectBroker_loop_finds:
  assumes "broker_eligible (ps ! (unat (i + of_nat k) mod length ps))"
    "\<forall>j\<le>k. unat (i + of_nat j) < bound" "ps \<noteq> []"
  shows "\<exists>p\<in>set ps. broker_eligible p
           \<and> selectBroker_loop i bound ps = Some (Some (Broker_serviceAddress (pt_broker p)))"
  using assms
proof (induction k arbitrary: i)
  case 0
  then have "unat i < bound" "ps ! (unat i mod length ps) \<in> set ps" by auto
  then show ?case using 0 by (auto simp: selectBroker_loop.simps[of i] Let_def)
next
  case (Suc k)
  have i: "unat i < bound" using spec[OF Suc.prems(2), of 0] by simp
  have mem: "ps ! (unat i mod length ps) \<in> set ps" using Suc.prems(3) by simp
  show ?case
  proof (cases "broker_eligible (ps ! (unat i mod length ps))")
    case True
    then show ?thesis using i mem by (auto simp: selectBroker_loop.simps[of i] Let_def)
  next
    case False
    have "\<exists>p\<in>set ps. broker_eligible p
           \<and> selectBroker_loop (i + 1) bound ps = Some (Some (Broker_serviceAddress (pt_broker p)))"
    proof (rule Suc.IH)
      show "broker_eligible (ps ! (unat (i + 1 + of_nat k) mod length ps))"
        using Suc.prems(1) by (simp add: algebra_simps)
      show "\<forall>j\<le>k. unat (i + 1 + of_nat j) < bound"
      proof (intro allI impI)
        fix j assume "j \<le> k"
        then have "unat (i + of_nat (Suc j)) < bound" using spec[OF Suc.prems(2), of "Suc j"] by simp
        then show "unat (i + 1 + of_nat j) < bound" by (simp add: algebra_simps)
      qed
    qed (rule Suc.prems(3))
    then show ?thesis using i False by (simp add: selectBroker_loop.simps[of i] Let_def)
  qed
qed

lemma selectBroker_loop_exhausts:
  assumes "\<forall>p\<in>set ps. \<not> broker_eligible p" "ps \<noteq> []" "unat i + n = bound" "bound < 4294967296"
  shows "selectBroker_loop i bound ps = Some None"
  using assms
proof (induction n arbitrary: i)
  case 0
  then show ?case by (simp add: selectBroker_loop.simps)
next
  case (Suc n)
  have "unat (i + 1) = unat i + 1" using unat_u32_add[of i 1] Suc.prems by simp
  then have "selectBroker_loop (i + 1) bound ps = Some None" using Suc by simp
  moreover have "\<not> broker_eligible (ps ! (unat i mod length ps))" using Suc.prems by simp
  ultimately show ?case by (simp add: selectBroker_loop.simps[of i] Let_def)
qed

lemma selectBroker_loop_diverges:
  assumes "\<forall>p\<in>set ps. \<not> broker_eligible p" "ps \<noteq> []" "4294967296 \<le> bound"
  shows "selectBroker_loop i bound ps = None"
proof (rule ccontr)
  assume "selectBroker_loop i bound ps \<noteq> None"
  then obtain y where y: "selectBroker_loop i bound ps = Some y" by auto
  have "\<not> (4294967296 \<le> bound \<and> ps \<noteq> [] \<and> (\<forall>p\<in>set ps. \<not> broker_eligible p))"
  proof (induction rule: selectBroker_loop.raw_induct[OF _ y])
    case (1 loop j b qs z)
    have "unat j < 4294967296" by (rule unat_u32_less)
    then show ?case using 1 by (auto simp: Let_def split: if_splits)
  qed
  then show False using assms by simp
qed

section \<open>A sample route\<close>

definition sample_broker :: "string \<Rightarrow> i32 \<Rightarrow> Broker" where
  "sample_broker name i = \<lparr>br_name = name, br_id = i,
     br_service_address = make_ServiceAddress IPv4 [Address name 8081]\<rparr>"

definition sample_partition :: "string \<Rightarrow> i32 \<Rightarrow> Permission \<Rightarrow> Partition" where
  "sample_partition broker i perm = \<lparr>pt_topic = Topic [] ''T'', pt_broker = sample_broker broker 0,
     pt_id = i, pt_permission = perm\<rparr>"

definition sample_route :: TopicRouteData where
  "sample_route = \<lparr>rt_partitions = [sample_partition ''a'' 0 READ_WRITE, sample_partition ''a'' 1 READ,
     sample_partition ''b'' 0 WRITE], rt_debug_string = []\<rparr>"

definition sample_info :: TopicPublishInfo where
  "sample_info = \<lparr>pi_topic = ''T'', pi_route = sample_route,
     pi_partition_list = [sample_partition ''a'' 0 READ_WRITE, sample_partition ''b'' 0 WRITE]\<rparr>"

lemma sample_info_updates:
  "make_TopicPublishInfo ''T'' sample_route = Some sample_info"
  "fold_option (\<lambda>r i. topicRouteData i r) [sample_route\<lparr>rt_partitions := []\<rparr>, sample_route] sample_info
     = Some sample_info"
  by (simp_all add: make_TopicPublishInfo_def topicRouteData_def updatePublishInfo_def sample_info_def
      sample_route_def sample_partition_def sample_broker_def writable_master_def MASTER_BROKER_ID_def)

lemma sample_info_list:
  "pi_partition_list sample_info = [sample_partition ''a'' 0 READ_WRITE, sample_partition ''b'' 0 WRITE]"
  by (simp add: sample_info_def)

lemma sample_info_bounds:
  "unat (c + 1) \<le> 4294967294 \<Longrightarrow> unat (c + 1) + length (pi_partition_list sample_info) \<le> 4294967296"
  by (simp add: sample_info_list)

lemma sample_brokers_differ:
  "Broker_serviceAddress (sample_broker ''b'' 0) \<noteq> Broker_serviceAddress (sample_broker ''a'' 0)"
  by (simp add: Broker_serviceAddress_def sample_broker_def make_ServiceAddress_def address_def)

section \<open>Properties\<close>

text \<open>C22. The publish information of a topic, after its construction from a first route and any
  sequence of route updates, lists exactly the writable partitions on master brokers of the latest
  route that had one; a later route with none leaves the list as it was. Every listed partition
  belongs to the topic.\<close>

theorem publish_info_latest_writable:
  assumes "make_TopicPublishInfo topic r = Some info"
    and "fold_option (\<lambda>r i. topicRouteData i r) rs info = Some info'"
  shows "pi_partition_list info' =
      (let good = filter (\<lambda>r. \<exists>p\<in>set (rt_partitions r). writable_master p) (r # rs)
       in if good = [] then [] else filter writable_master (rt_partitions (List.last good)))
    \<and> (\<forall>p\<in>set (pi_partition_list info'). tp_name (pt_topic p) = topic)"
proof -
  have eq: "(\<lambda>r. filter writable_master (rt_partitions r) \<noteq> []) = (\<lambda>r. \<exists>p\<in>set (rt_partitions r). writable_master p)"
    by (auto simp: filter_empty_conv)
  have "publish_ok info' (r # rs) \<and> pi_topic info' = topic"
    using make_TopicPublishInfo_publish_ok[OF assms(1)] fold_topicRouteData_publish_ok[OF assms(2), of "[r]"]
    by simp
  then show ?thesis unfolding publish_ok_def eq Let_def by blast
qed

theorem publish_info_latest_writable_witness:
  "length (pi_partition_list sample_info) = 2
   \<and> list_all (\<lambda>p. tp_name (pt_topic p) = ''T'') (pi_partition_list sample_info)"
  using conjunct2[OF publish_info_latest_writable[OF sample_info_updates]] by (simp add: sample_info_list list_all_iff)

text \<open>As many consecutive calls of \<open>selectOneMessageQueue\<close> as there are partitions return
  every partition of the publish information exactly once, as long as the counter does not pass
  \<open>2^32\<close> on the way.\<close>

theorem selectOneMessageQueue_round_robin:
  assumes "pi_partition_list info \<noteq> []"
    and "unat (c + 1) + length (pi_partition_list info) \<le> 4294967296"
  shows "mset (select_rounds (length (pi_partition_list info)) c info)
           = image_mset (Some \<circ> asMessageQueue) (mset (pi_partition_list info))"
  using visited_all[OF assms(2)] by (simp add: select_rounds_visited[OF assms(1)])

theorem selectOneMessageQueue_round_robin_witness:
  "mset (select_rounds (length (pi_partition_list sample_info)) 41 sample_info)
     = {# Some (asMessageQueue (sample_partition ''a'' 0 READ_WRITE)),
          Some (asMessageQueue (sample_partition ''b'' 0 WRITE)) #}"
  using selectOneMessageQueue_round_robin[of sample_info 41] by (simp add: sample_info_bounds sample_info_list)

text \<open>\<open>selectOneActiveMessageQueue\<close> fails only when every partition lives on an isolated
  endpoint, and the queue it selects is one of the partitions, on an endpoint that is not isolated
  (the counter does not pass \<open>2^32\<close> during the scan).\<close>

theorem selectOneActiveMessageQueue_correct:
  assumes "unat (c + 1) + length (pi_partition_list info) \<le> 4294967296"
  shows "case snd (selectOneActiveMessageQueue c info isolated) of
      None \<Rightarrow> \<forall>p\<in>set (pi_partition_list info). Broker_serviceAddress (pt_broker p) \<in> isolated
    | Some q \<Rightarrow> q \<in> asMessageQueue ` set (pi_partition_list info) \<and> mq_service_address q \<notin> isolated"
proof (cases "snd (selectOneActiveMessageQueue c info isolated)")
  case None
  then show ?thesis
    using visited_all_set[OF assms]
    by (auto simp: selectOneActiveMessageQueue_def Let_def selectActive_loop_find find_None_iff split: if_splits)
next
  case (Some q)
  then show ?thesis
    using visited_all_set[OF assms]
    by (auto simp: selectOneActiveMessageQueue_def Let_def selectActive_loop_find find_Some_iff
        in_set_conv_nth image_iff split: if_splits) (metis nth_mem)
qed

theorem selectOneActiveMessageQueue_correct_witness:
  "\<exists>q. snd (selectOneActiveMessageQueue 1 sample_info {Broker_serviceAddress (sample_broker ''a'' 0)}) = Some q
     \<and> mq_service_address q \<noteq> Broker_serviceAddress (sample_broker ''a'' 0)"
  using selectOneActiveMessageQueue_correct[OF sample_info_bounds, of 1 "{Broker_serviceAddress (sample_broker ''a'' 0)}"]
    sample_brokers_differ
  by (simp add: sample_info_list sample_partition_def split: option.splits)

text \<open>C21. \<open>takeMessageQueues\<close> into an empty vector: at most \<open>count\<close> candidates, on pairwise
  different brokers, none on an isolated endpoint, all of them partitions of the topic; it returns
  true iff there is one; and when it returns fewer than \<open>count\<close>, every broker with an endpoint that
  is not isolated is represented (the counter does not pass \<open>2^32\<close> during the scan).\<close>

theorem takeMessageQueues_correct:
  assumes "takeMessageQueues c info isolated [] cnt = (c', ok, qs)" and "0 < cnt"
    and "unat (c + 1) + length (pi_partition_list info) \<le> 4294967296"
  shows "ok = (qs \<noteq> []) \<and> length qs \<le> unat cnt \<and> distinct (map mq_broker_name qs)
    \<and> (\<forall>q\<in>set qs. mq_service_address q \<notin> isolated \<and> q \<in> asMessageQueue ` set (pi_partition_list info))
    \<and> (length qs < unat cnt \<longrightarrow> (\<forall>p\<in>set (pi_partition_list info).
         Broker_serviceAddress (pt_broker p) \<notin> isolated \<longrightarrow> br_name (pt_broker p) \<in> mq_broker_name ` set qs))"
proof (cases "pi_partition_list info = []")
  case True
  then show ?thesis using assms(1) by (simp add: takeMessageQueues_def Let_def)
next
  case False
  let ?ps = "pi_partition_list info"
  have run: "takeQueues_loop (length ?ps) (c + 1) isolated (unat cnt) ?ps [] = (ok, qs)"
    using assms(1) False by (auto simp: takeMessageQueues_def Let_def)
  have pos: "0 < unat cnt" using assms(2) by (simp add: word_less_nat_alt)
  show ?thesis
    using takeQueues_loop_sound[OF run False] takeQueues_loop_complete[OF run] pos
      visited_all_set[OF assms(3)]
    by (simp add: candidates_ok_def)
qed

theorem takeMessageQueues_correct_witness:
  "\<exists>c ok qs. takeMessageQueues 7 sample_info {} [] 3 = (c, ok, qs) \<and> distinct (map mq_broker_name qs)
     \<and> length qs \<le> 3"
proof -
  obtain c ok qs where t: "takeMessageQueues 7 sample_info {} [] 3 = (c, ok, qs)"
    by (metis prod_cases3)
  show ?thesis
    using takeMessageQueues_correct[OF t _ sample_info_bounds] t by simp
qed

text \<open>\<open>selectBroker\<close> on a route with at most \<open>2^32\<close> partitions returns the address of a
  readable or writable master broker when the route has one. When it has none, the loop ends without
  a broker as long as the counter plus the number of partitions stays below \<open>2^32\<close>; beyond that the
  32 bit loop variable wraps before it reaches the 64 bit bound and the loop does not end.\<close>

theorem selectBroker_result:
  assumes "rt_partitions r \<noteq> []" and "length (rt_partitions r) \<le> 4294967296"
  shows "if \<exists>p\<in>set (rt_partitions r). broker_eligible p
      then \<exists>p\<in>set (rt_partitions r). broker_eligible p
         \<and> snd (selectBroker c (Some r)) = Some (Some (Broker_serviceAddress (pt_broker p)))
      else snd (selectBroker c (Some r)) =
         (if unat (c + 1) + length (rt_partitions r) < 4294967296 then Some None else None)"
proof (cases "\<exists>p\<in>set (rt_partitions r). broker_eligible p")
  case True
  let ?ps = "rt_partitions r" and ?i = "c + 1"
  obtain j where j: "j < length ?ps" "broker_eligible (?ps ! j)"
    using True by (metis in_set_conv_nth)
  have "\<exists>k. unat (?i + of_nat k) mod length ?ps = j \<and> (\<forall>l\<le>k. unat (?i + of_nat l) < unat ?i + length ?ps)"
  proof (cases "unat ?i + length ?ps < 4294967296")
    case True
    obtain k where "k < length ?ps" "(unat ?i + k) mod length ?ps = j" using rotation_surj[OF j(1)] by blast
    then show ?thesis using True by (intro exI[of _ k]) (auto simp: unat_u32_add)
  next
    case False
    have "unat (?i + of_nat (unat (of_nat j - ?i))) = j"
      using j(1) assms(2) by (simp add: unat_of_nat take_bit_nat_eq_self)
    moreover have "unat w < unat ?i + length ?ps" for w :: u32
      using unat_u32_less[of w] False by simp
    ultimately show ?thesis using j(1) by (intro exI[of _ "unat (of_nat j - ?i)"]) simp
  qed
  then obtain k where k: "unat (?i + of_nat k) mod length ?ps = j"
    "\<forall>l\<le>k. unat (?i + of_nat l) < unat ?i + length ?ps" by blast
  show ?thesis
    using selectBroker_loop_finds[of ?ps ?i k] k j(2) assms(1) True by (simp add: selectBroker_def Let_def)
next
  case False
  then show ?thesis
    using selectBroker_loop_exhausts[of "rt_partitions r" "c + 1"] selectBroker_loop_diverges[of "rt_partitions r"] assms(1)
    by (simp add: selectBroker_def Let_def)
qed

theorem selectBroker_result_witness:
  "\<exists>p\<in>set (rt_partitions sample_route). snd (selectBroker 4294967294 (Some sample_route))
     = Some (Some (Broker_serviceAddress (pt_broker p)))"
proof -
  have e: "\<exists>p\<in>set (rt_partitions sample_route). broker_eligible p"
    by (simp add: sample_route_def sample_partition_def sample_broker_def broker_eligible_def Broker_bool_def
        ServiceAddress_bool_def make_ServiceAddress_def MASTER_BROKER_ID_def)
  have l: "rt_partitions sample_route \<noteq> []" "length (rt_partitions sample_route) \<le> 4294967296"
    by (simp_all add: sample_route_def)
  show ?thesis using selectBroker_result[OF l, of 4294967294] e by auto
qed

end
