(* ===== verification/Name_Server.thy ===== *)
theory Name_Server
  imports Routes
begin

text \<open>
  Name servers: the two resolvers (\<open>rocketmq/StaticNameServerResolver.cpp\<close>,
  \<open>rocketmq/DynamicNameServerResolver.cpp\<close>) and the access point a client writes into its
  requests (\<open>ClientImpl::setAccessPoint\<close>). Splitting a text at a character is the
  parameter \<open>split\<close>; the HTTP exchange with the address server is its answer.
\<close>

section \<open>Resolvers\<close>

datatype resolver_kind = StaticResolver | DynamicResolver

record NameServerResolver =
  ns_kind :: resolver_kind
  ns_list :: "string list"
  ns_index :: u32

definition make_StaticNameServerResolver :: "(char \<Rightarrow> string \<Rightarrow> string list) \<Rightarrow> string \<Rightarrow> NameServerResolver" where
  "make_StaticNameServerResolver split name_server_list =
     \<lparr>ns_kind = StaticResolver, ns_list = split (CHR '';'') name_server_list, ns_index = 0\<rparr>"

definition make_DynamicNameServerResolver :: NameServerResolver where
  "make_DynamicNameServerResolver = \<lparr>ns_kind = DynamicResolver, ns_list = [], ns_index = 0\<rparr>"

text \<open>The static resolver indexes its list without a test for emptiness; a split text has at
  least one part.\<close>

definition current :: "NameServerResolver \<Rightarrow> string" where
  "current r = (case ns_kind r of
       StaticResolver \<Rightarrow> ns_list r ! (unat (ns_index r) mod length (ns_list r))
     | DynamicResolver \<Rightarrow>
         if ns_list r = [] then [] else ns_list r ! (unat (ns_index r) mod length (ns_list r)))"

definition next_server :: "NameServerResolver \<Rightarrow> NameServerResolver \<times> string" where
  "next_server r = (let r' = r\<lparr>ns_index := ns_index r + 1\<rparr> in (r', current r'))"

definition onNameServerListFetched :: "NameServerResolver \<Rightarrow> string list \<Rightarrow> NameServerResolver" where
  "onNameServerListFetched r name_server_list =
     (if name_server_list \<noteq> [] then
        if ns_list r \<noteq> name_server_list then r\<lparr>ns_list := name_server_list\<rparr> else r
      else r)"

text \<open>The answer of the address server: Some body for an HTTP status 200.\<close>

definition fetched_list :: "(char \<Rightarrow> string \<Rightarrow> string list) \<Rightarrow> string option \<Rightarrow> bool \<times> string list" where
  "fetched_list split answer = (case answer of
       Some body \<Rightarrow> (True, split (CHR '';'') body)
     | None \<Rightarrow> (False, []))"

definition fetch :: "(char \<Rightarrow> string \<Rightarrow> string list) \<Rightarrow> string option \<Rightarrow> NameServerResolver \<Rightarrow> NameServerResolver" where
  "fetch split answer r = (case fetched_list split answer of (success, name_server_list) \<Rightarrow>
     if success \<and> name_server_list \<noteq> [] then onNameServerListFetched r name_server_list else r)"

text \<open>\<open>resolve\<close> fetches the list first when it has none; \<open>fetch_now\<close> is what the fetch has done when it
  returns.\<close>

definition resolve ::
  "(NameServerResolver \<Rightarrow> NameServerResolver) \<Rightarrow> NameServerResolver \<Rightarrow> NameServerResolver \<times> string list" where
  "resolve fetch_now r = (case ns_kind r of
       StaticResolver \<Rightarrow> (r, ns_list r)
     | DynamicResolver \<Rightarrow> let r' = (if ns_list r = [] then fetch_now r else r) in (r', ns_list r'))"

section \<open>The access point\<close>

definition is_space :: "char \<Rightarrow> bool" where
  "is_space c = (c = CHR '' '' \<or> char_in (CHR 0x09) c (CHR 0x0D))"

definition digit_value :: "char \<Rightarrow> int" where
  "digit_value c = of_char c - 48"

definition digits_value :: "string \<Rightarrow> int" where
  "digits_value ds = foldl (\<lambda>n c. 10 * n + digit_value c) 0 ds"

text \<open>\<open>std::stoi\<close>; None: it throws.\<close>

definition stoi :: "string \<Rightarrow> int option" where
  "stoi s =
     (let s1 = dropWhile is_space s;
          (neg, s2) = (case s1 of
              c # cs \<Rightarrow> if c = CHR ''-'' then (True, cs) else if c = CHR ''+'' then (False, cs) else (False, s1)
            | [] \<Rightarrow> (False, s1));
          ds = takeWhile is_digit s2;
          n = (if neg then - digits_value ds else digits_value ds)
      in if ds = [] then None
         else if n < -2147483648 \<or> 2147483647 < n then None
         else Some n)"

text \<open>The text before and after the last colon.\<close>

definition rsplit_colon :: "string \<Rightarrow> (string \<times> string) option" where
  "rsplit_colon s =
     (let port = rev (takeWhile (\<lambda>c. c \<noteq> CHR '':'') (rev s))
      in if CHR '':'' \<in> set s then Some (take (length s - length port - 1) s, port) else None)"

text \<open>Host and port of every name server; the port is cut to 16 bits.\<close>

fun host_ports :: "string list \<Rightarrow> (string \<times> int) list option" where
  "host_ports [] = Some []"
| "host_ports (item # items) = (case rsplit_colon item of
       None \<Rightarrow> host_ports items
     | Some (host, port) \<Rightarrow> (case stoi port of
           None \<Rightarrow> None
         | Some n \<Rightarrow> map_option (Cons (host, n mod 65536)) (host_ports items)))"

record Endpoints =
  ep_scheme :: AddressScheme
  ep_addresses :: "Address list"

definition setAccessPoint :: "string list \<Rightarrow> Endpoints option" where
  "setAccessPoint name_server_list = map_option (\<lambda>pairs. case pairs of
       [] \<Rightarrow> \<lparr>ep_scheme = IPv4, ep_addresses = []\<rparr>
     | (host, _) # _ \<Rightarrow>
         \<lparr>ep_scheme = (if isIPv4 host then IPv4 else if CHR '':'' \<in> set host then IPv6 else DOMAIN_NAME),
          ep_addresses = map (\<lambda>(h, p). Address h p) pairs\<rparr>) (host_ports name_server_list)"

section \<open>Lemmas\<close>

text \<open>The name servers that \<open>n\<close> failing requests in a row move on to.\<close>

primrec failover :: "nat \<Rightarrow> NameServerResolver \<Rightarrow> string list" where
  "failover 0 r = []"
| "failover (Suc n) r = (case next_server r of (r', s) \<Rightarrow> s # failover n r')"

lemma failover_eq:
  assumes "ns_list r \<noteq> []"
  shows "failover n r = map (\<lambda>i. ns_list r ! (unat (ns_index r + 1 + of_nat i) mod length (ns_list r))) [0..<n]"
  using assms
proof (induction n arbitrary: r)
  case (Suc n)
  have "failover n (r\<lparr>ns_index := ns_index r + 1\<rparr>) =
      map (\<lambda>i. ns_list r ! (unat (ns_index r + 1 + of_nat (Suc i)) mod length (ns_list r))) [0..<n]"
    using Suc.IH[of "r\<lparr>ns_index := ns_index r + 1\<rparr>"] Suc.prems by (simp add: algebra_simps)
  then show ?case
    using Suc.prems
    by (simp add: next_server_def current_def Let_def upt_conv_Cons map_Suc_upt[symmetric]
        del: upt_Suc map_Suc_upt split: resolver_kind.split)
qed simp

lemma current_in_list: "ns_list r \<noteq> [] \<Longrightarrow> current r \<in> set (ns_list r)"
  by (simp add: current_def split: resolver_kind.split)

section \<open>Properties\<close>

text \<open>When requests keep failing, a resolver with \<open>n\<close> name servers moves on to every one of
  them within \<open>n\<close> failures, each exactly once (the counter does not pass \<open>2^32\<close> on the way).\<close>

theorem failover_visits_every_server:
  assumes "ns_list r \<noteq> []" and "unat (ns_index r + 1) + length (ns_list r) \<le> 4294967296"
  shows "mset (failover (length (ns_list r)) r) = mset (ns_list r)"
proof -
  have "failover (length (ns_list r)) r =
      map (\<lambda>i. ns_list r ! ((unat (ns_index r + 1) + i) mod length (ns_list r))) [0..<length (ns_list r)]"
    unfolding failover_eq[OF assms(1)] using assms(2) by (intro map_cong) (auto simp: unat_u32_add)
  then show ?thesis by (simp only: rotation_mset)
qed

theorem failover_visits_every_server_witness:
  "mset (failover 3 \<lparr>ns_kind = DynamicResolver, ns_list = [''a:1'', ''b:1'', ''c:1''], ns_index = 0\<rparr>)
     = {# ''a:1'', ''b:1'', ''c:1'' #}"
  using failover_visits_every_server[of "\<lparr>ns_kind = DynamicResolver, ns_list = [''a:1'', ''b:1'', ''c:1''], ns_index = 0\<rparr>"]
  by (simp add: numeral_3_eq_3)

end
