(* ===== verification/Message_Codec.thy ===== *)
theory Message_Codec
  imports Mix_All
begin

text \<open>
  From a message to the wire and back: the request a producer builds for a message
  (\<open>ProducerImpl::wrapSendMessageRequest\<close>), the message a client builds from what the
  broker delivers (\<open>ClientManagerImpl::wrapMessage\<close>), and the result of a pop or a pull
  (\<open>ClientManagerImpl::processPopResult\<close>, \<open>processPullResult\<close>). The protocol messages
  are those of \<open>proto/apache/rocketmq/v1/definition.proto\<close>; an enum value that is not
  declared there is None. Times are in nanoseconds, and the nanoseconds of a protocol
  time are not negative.
\<close>

section \<open>Protocol messages\<close>

datatype Code =
    Code_OK | Code_CANCELLED | Code_UNKNOWN | Code_INVALID_ARGUMENT | Code_DEADLINE_EXCEEDED
  | Code_NOT_FOUND | Code_ALREADY_EXISTS | Code_PERMISSION_DENIED | Code_UNAUTHENTICATED
  | Code_RESOURCE_EXHAUSTED | Code_FAILED_PRECONDITION | Code_ABORTED | Code_OUT_OF_RANGE
  | Code_UNIMPLEMENTED | Code_INTERNAL | Code_UNAVAILABLE | Code_DATA_LOSS

text \<open>Seconds and nanoseconds.\<close>

type_synonym pb_time = "int \<times> int"

datatype timed_delivery = NotTimed | DeliveryTimestamp pb_time | DelayLevel i32

record rmq_SystemAttribute =
  ra_tag :: string
  ra_keys :: "string list"
  ra_message_id :: string
  ra_digest_type :: "DigestType option"
  ra_checksum :: string
  ra_body_encoding :: "Encoding option"
  ra_message_type :: "MessageType option"
  ra_born_timestamp :: "pb_time option"
  ra_born_host :: string
  ra_store_timestamp :: "pb_time option"
  ra_store_host :: string
  ra_timed_delivery :: timed_delivery
  ra_receipt_handle :: string
  ra_partition_id :: i32
  ra_partition_offset :: i64
  ra_invisible_period :: "pb_time option"
  ra_delivery_attempt :: i32
  ra_producer_group :: Resource
  ra_message_group :: string
  ra_trace_context :: string

record rmq_Message =
  rq_topic :: Resource
  rq_user_attribute :: "(string \<times> string) list"
  rq_system_attribute :: rmq_SystemAttribute
  rq_body :: string

text \<open>The default instance: empty strings and lists, zero numbers, the enum value zero.\<close>

definition default_rmq_SystemAttribute :: rmq_SystemAttribute where
  "default_rmq_SystemAttribute =
     \<lparr>ra_tag = [], ra_keys = [], ra_message_id = [], ra_digest_type = Some CRC32, ra_checksum = [],
      ra_body_encoding = Some IDENTITY, ra_message_type = Some NORMAL, ra_born_timestamp = None,
      ra_born_host = [], ra_store_timestamp = None, ra_store_host = [], ra_timed_delivery = NotTimed,
      ra_receipt_handle = [], ra_partition_id = 0, ra_partition_offset = 0, ra_invisible_period = None,
      ra_delivery_attempt = 0, ra_producer_group = \<lparr>rs_namespace = [], rs_name = []\<rparr>,
      ra_message_group = [], ra_trace_context = []\<rparr>"

section \<open>Compression\<close>

text \<open>What zlib answers to a call. \<open>inflate src n\<close> is the answer to call number \<open>n\<close> on a stream
  over \<open>src\<close> together with the bytes it wrote; \<open>deflate\<close> likewise for its only call.\<close>

datatype zstatus = Z_OK | Z_STREAM_END | Z_STREAM_ERROR | Z_FAILED

record codec =
  cd_crc32 :: "string \<Rightarrow> u32"
  cd_md5 :: "string \<Rightarrow> byte list option"
  cd_sha1 :: "string \<Rightarrow> byte list"
  cd_deflate :: "string \<Rightarrow> zstatus \<times> string"
  cd_inflate :: "string \<Rightarrow> nat \<Rightarrow> zstatus \<times> string"

definition compress :: "codec \<Rightarrow> string \<Rightarrow> string \<Rightarrow> bool \<times> string" where
  "compress cd src dst = (case cd_deflate cd src of (status, bytes) \<Rightarrow>
     if status \<noteq> Z_STREAM_END then (False, dst) else (True, dst @ bytes))"

text \<open>None: the loop does not end.\<close>

partial_function (option) uncompress_loop ::
  "codec \<Rightarrow> string \<Rightarrow> nat \<Rightarrow> string \<Rightarrow> (bool \<times> string) option" where
  "uncompress_loop cd src n dst = (case cd_inflate cd src n of (status, bytes) \<Rightarrow>
     if status = Z_STREAM_ERROR then Some (False, dst)
     else if status = Z_STREAM_END then Some (True, dst @ bytes)
     else if status = Z_OK then uncompress_loop cd src (Suc n) (dst @ bytes)
     else Some (False, dst @ bytes))"

definition uncompress :: "codec \<Rightarrow> string \<Rightarrow> string \<Rightarrow> (bool \<times> string) option" where
  "uncompress cd src dst = uncompress_loop cd src 0 dst"

section \<open>Sending\<close>

text \<open>The body of the request: the result of \<open>compress\<close> is ignored.\<close>

definition encode_body :: "codec \<Rightarrow> u32 \<Rightarrow> MQMessage \<Rightarrow> string \<times> Encoding" where
  "encode_body cd compress_body_threshold message =
     (if bodyLength message \<ge> compress_body_threshold
      then (snd (compress cd (getBody message) []), GZIP)
      else (getBody message, IDENTITY))"

definition wrapSendMessageRequest ::
  "codec \<Rightarrow> string \<Rightarrow> string \<Rightarrow> u32 \<Rightarrow> string \<Rightarrow> time_point \<Rightarrow> string \<Rightarrow> (string \<times> string) list \<Rightarrow>
   MQMessage \<Rightarrow> MQMessageQueue \<Rightarrow> rmq_Message" where
  "wrapSendMessageRequest cd resource_namespace group_name threshold hostname now message_id properties
       message message_queue =
     (let (body, enc) = encode_body cd threshold message
      in \<lparr>rq_topic = \<lparr>rs_namespace = resource_namespace, rs_name = getTopic message\<rparr>,
          rq_user_attribute = properties,
          rq_system_attribute = default_rmq_SystemAttribute
            \<lparr>ra_born_timestamp := Some (now div 1000000000, now mod 1000000000),
             ra_born_host := hostname,
             ra_producer_group := \<lparr>rs_namespace = resource_namespace, rs_name = group_name\<rparr>,
             ra_message_type := Some (sa_message_type (msg_attrs message)),
             ra_body_encoding := Some enc,
             ra_message_id := message_id,
             ra_partition_id := mq_queue_id message_queue\<rparr>,
          rq_body = body\<rparr>)"

section \<open>Receiving\<close>

text \<open>\<open>absl::TimeFromTimeval\<close> and \<open>absl::ToUnixMillis\<close>.\<close>

definition time_of_timeval :: "int \<Rightarrow> int \<Rightarrow> time_point" where
  "time_of_timeval sec usec = sec * 1000000000 + usec * 1000"

definition to_unix_millis :: "time_point \<Rightarrow> i64" where
  "to_unix_millis t = t div 1000000"

definition body_digest_match :: "codec \<Rightarrow> rmq_Message \<Rightarrow> bool" where
  "body_digest_match cd item =
     (let checksum = ra_checksum (rq_system_attribute item)
      in if rq_body item = [] then True
         else case ra_digest_type (rq_system_attribute item) of
           Some CRC32 \<Rightarrow> checksum = crc32_hex (cd_crc32 cd) (rq_body item)
         | Some MD5 \<Rightarrow> (case md5_hex (cd_md5 cd) (rq_body item) of
               Some actual \<Rightarrow> checksum = actual
             | None \<Rightarrow> True)
         | Some SHA1 \<Rightarrow> sha1_hex (cd_sha1 cd) (rq_body item) = checksum
         | None \<Rightarrow> True)"

definition decode_body :: "codec \<Rightarrow> rmq_Message \<Rightarrow> string \<Rightarrow> string option" where
  "decode_body cd item previous = (case ra_body_encoding (rq_system_attribute item) of
       Some GZIP \<Rightarrow> map_option snd (uncompress cd (rq_body item) [])
     | Some IDENTITY \<Rightarrow> Some (rq_body item)
     | _ \<Rightarrow> Some previous)"

text \<open>The attributes of the delivered message. The field \<open>tv_usec\<close> of the delivery timestamp
  is given the nanoseconds.\<close>

definition decode_attributes :: "time_point \<Rightarrow> rmq_SystemAttribute \<Rightarrow> SystemAttribute \<Rightarrow> SystemAttribute" where
  "decode_attributes now r a = a
     \<lparr>sa_receipt_handle := ra_receipt_handle r,
      sa_tag := ra_tag r,
      sa_keys := ra_keys r,
      sa_message_id := ra_message_id r,
      sa_message_type := (case ra_message_type r of Some t \<Rightarrow> t | None \<Rightarrow> NORMAL),
      sa_born_timestamp := (case ra_born_timestamp r of
          Some (s, n) \<Rightarrow> time_of_timeval s (n div 1000) | None \<Rightarrow> sa_born_timestamp a),
      sa_born_host := ra_born_host r,
      sa_store_timestamp := (case ra_store_timestamp r of
          Some (s, n) \<Rightarrow> time_of_timeval s (n div 1000) | None \<Rightarrow> sa_store_timestamp a),
      sa_store_host := ra_store_host r,
      sa_delay_level := (case ra_timed_delivery r of DelayLevel l \<Rightarrow> l | _ \<Rightarrow> sa_delay_level a),
      sa_delivery_timestamp := (case ra_timed_delivery r of
          DeliveryTimestamp (s, n) \<Rightarrow> time_of_timeval s n | _ \<Rightarrow> sa_delivery_timestamp a),
      sa_partition_id := ra_partition_id r,
      sa_partition_offset := ra_partition_offset r,
      sa_invisible_period := (case ra_invisible_period r of
          Some (s, n) \<Rightarrow> s * 1000000000 + n | None \<Rightarrow> sa_invisible_period a),
      sa_attempt_times := ra_delivery_attempt r,
      sa_trace_context := ra_trace_context r,
      sa_decode_timestamp := now\<rparr>"

text \<open>What \<open>wrapMessage\<close> tells its caller: the message (None if it is rejected) and the grade it
  counts in the latency histogram. The whole result is None when the assertion on the namespace
  fails or the body cannot be inflated in finite time. The fields written before a rejection are
  not kept: every caller drops such a message.\<close>

definition latency_grade :: "time_point \<Rightarrow> MQMessageExt \<Rightarrow> i32 option" where
  "latency_grade now m =
     (let elapsed = signed_take_bit 31 (to_unix_millis now - to_unix_millis (sa_store_timestamp (msg_attrs m)))
      in if elapsed \<ge> 0 then Some (elapsed div 20) else None)"

definition wrapMessage ::
  "codec \<Rightarrow> string \<Rightarrow> time_point \<Rightarrow> rmq_Message \<Rightarrow> MQMessageExt \<Rightarrow> (MQMessageExt option \<times> i32 option) option" where
  "wrapMessage cd resource_namespace now item message_ext =
     (if rs_namespace (rq_topic item) \<noteq> resource_namespace then None
      else if \<not> body_digest_match cd item then Some (None, None)
      else case decode_body cd item (getBody message_ext) of
        None \<Rightarrow> None
      | Some body \<Rightarrow>
          let m1 = message_ext\<lparr>msg_impl := (msg_impl message_ext)
                \<lparr>mi_topic := (mi_topic (msg_impl message_ext))\<lparr>rs_name := rs_name (rq_topic item)\<rparr>,
                 mi_body := body,
                 mi_system_attribute := decode_attributes now (rq_system_attribute item) (msg_attrs message_ext)\<rparr>\<rparr>;
              m2 = setProperties m1 (rq_user_attribute item)
          in Some (Some m2, latency_grade now m2))"

datatype ReceiveMessageStatus =
    Receive_OK | Receive_DEADLINE_EXCEEDED | Receive_RESOURCE_EXHAUSTED | Receive_NOT_FOUND
  | Receive_OUT_OF_RANGE | Receive_DATA_CORRUPTED | Receive_INTERNAL

record ReceiveMessageResult =
  rr_status :: ReceiveMessageStatus
  rr_messages :: "MQMessageExt list"
  rr_source_host :: string
  rr_next_offset :: i64
  rr_pop_time :: time_point
  rr_invisible_time :: duration

definition default_ReceiveMessageResult :: ReceiveMessageResult where
  "default_ReceiveMessageResult =
     \<lparr>rr_status = Receive_DEADLINE_EXCEEDED, rr_messages = [], rr_source_host = [], rr_next_offset = 0,
      rr_pop_time = 0, rr_invisible_time = 0\<rparr>"

definition setTargetEndpoint :: "MQMessage \<Rightarrow> string \<Rightarrow> MQMessage" where
  "setTargetEndpoint m target = update_attrs (\<lambda>a. a\<lparr>sa_target_endpoint := target\<rparr>) m"

text \<open>The \<open>MQMessageExt\<close> that a received item is decoded into is default constructed; its
  indeterminate fields and the message id it draws are arguments.\<close>

definition pop_status :: "Code option \<Rightarrow> ReceiveMessageStatus" where
  "pop_status code = (case code of
       Some Code_OK \<Rightarrow> Receive_OK
     | Some Code_RESOURCE_EXHAUSTED \<Rightarrow> Receive_RESOURCE_EXHAUSTED
     | Some Code_DEADLINE_EXCEEDED \<Rightarrow> Receive_DEADLINE_EXCEEDED
     | Some Code_NOT_FOUND \<Rightarrow> Receive_NOT_FOUND
     | _ \<Rightarrow> Receive_INTERNAL)"

fun pop_messages ::
  "codec \<Rightarrow> string \<Rightarrow> time_point \<Rightarrow> MQMessageExt \<Rightarrow> string \<Rightarrow> rmq_Message list \<Rightarrow> MQMessageExt list option" where
  "pop_messages cd ns now blank target [] = Some []"
| "pop_messages cd ns now blank target (item # items) =
     (case wrapMessage cd ns now item (setTargetEndpoint blank target) of
        None \<Rightarrow> None
      | Some (None, _) \<Rightarrow> pop_messages cd ns now blank target items
      | Some (Some m, _) \<Rightarrow> map_option (Cons m) (pop_messages cd ns now blank target items))"

record ReceiveMessageResponse =
  rv_code :: "Code option"
  rv_messages :: "rmq_Message list"
  rv_delivery_timestamp :: pb_time
  rv_invisible_duration :: pb_time

definition processPopResult ::
  "codec \<Rightarrow> string \<Rightarrow> time_point \<Rightarrow> MQMessageExt \<Rightarrow> string \<Rightarrow> ReceiveMessageResponse \<Rightarrow> ReceiveMessageResult option" where
  "processPopResult cd ns now blank target_host response =
     (let status = pop_status (rv_code response);
          found = (if status = Receive_OK then pop_messages cd ns now blank target_host (rv_messages response)
                   else Some [])
      in map_option (\<lambda>ms. \<lparr>rr_status = status, rr_messages = ms, rr_source_host = target_host,
             rr_next_offset = 0,
             rr_pop_time = time_of_timeval (fst (rv_delivery_timestamp response))
               (snd (rv_delivery_timestamp response) div 1000),
             rr_invisible_time = fst (rv_invisible_duration response) * 1000000000
               + snd (rv_invisible_duration response)\<rparr>) found)"

record PullMessageResponse =
  pv_code :: "Code option"
  pv_messages :: "rmq_Message list"
  pv_next_offset :: i64

text \<open>The loop over the messages of a pull stops at the first one that is rejected.\<close>

fun pull_messages ::
  "codec \<Rightarrow> string \<Rightarrow> time_point \<Rightarrow> MQMessageExt \<Rightarrow> rmq_Message list \<Rightarrow> ReceiveMessageResult \<Rightarrow>
   ReceiveMessageResult option" where
  "pull_messages cd ns now blank [] result = Some result"
| "pull_messages cd ns now blank (item # items) result =
     (case wrapMessage cd ns now item blank of
        None \<Rightarrow> None
      | Some (None, _) \<Rightarrow> Some (result\<lparr>rr_status := Receive_DATA_CORRUPTED\<rparr>)
      | Some (Some m, _) \<Rightarrow>
          pull_messages cd ns now blank items (result\<lparr>rr_messages := rr_messages result @ [m]\<rparr>))"

definition processPullResult ::
  "codec \<Rightarrow> string \<Rightarrow> time_point \<Rightarrow> MQMessageExt \<Rightarrow> string \<Rightarrow> PullMessageResponse \<Rightarrow> ReceiveMessageResult \<Rightarrow>
   ReceiveMessageResult option" where
  "processPullResult cd ns now blank target_host response result =
     (if pv_code response \<noteq> Some Code_OK then Some (result\<lparr>rr_status := Receive_INTERNAL\<rparr>)
      else if pv_messages response = [] then None
      else pull_messages cd ns now blank (pv_messages response)
             (result\<lparr>rr_source_host := target_host, rr_status := Receive_OK\<rparr>))"

section \<open>Lemmas: compression\<close>

text \<open>The calls \<open>n, n + 1, ..., n + k\<close> of \<open>inflate\<close> write \<open>bytes\<close> and the last one ends the stream.\<close>

fun inflates :: "codec \<Rightarrow> string \<Rightarrow> nat \<Rightarrow> nat \<Rightarrow> string \<Rightarrow> bool" where
  "inflates cd src n 0 bytes = (cd_inflate cd src n = (Z_STREAM_END, bytes))"
| "inflates cd src n (Suc k) bytes =
     (\<exists>b rest. cd_inflate cd src n = (Z_OK, b) \<and> bytes = b @ rest \<and> inflates cd src (Suc n) k rest)"

lemma uncompress_loop_inflates:
  "inflates cd src n k bytes \<Longrightarrow> uncompress_loop cd src n dst = Some (True, dst @ bytes)"
  by (induction k arbitrary: n dst bytes) (auto simp: uncompress_loop.simps[of cd src])

text \<open>What zlib documents: a stream that \<open>deflate\<close> finished inflates to its source in finitely
  many calls.\<close>

definition zlib_round_trip :: "codec \<Rightarrow> string \<Rightarrow> bool" where
  "zlib_round_trip cd src \<longleftrightarrow>
     (\<exists>z. cd_deflate cd src = (Z_STREAM_END, z) \<and> (\<exists>k. inflates cd z 0 k src))"

lemma uncompress_compress:
  "zlib_round_trip cd src \<Longrightarrow> compress cd src [] = (True, z) \<Longrightarrow> uncompress cd z [] = Some (True, src)"
  by (auto simp: zlib_round_trip_def compress_def uncompress_def uncompress_loop_inflates)

lemma decode_encode_body:
  assumes "bodyLength message \<ge> threshold \<Longrightarrow> zlib_round_trip cd (getBody message)"
    and "encode_body cd threshold message = (rq_body item, enc)"
    and "ra_body_encoding (rq_system_attribute item) = Some enc"
  shows "decode_body cd item previous = Some (getBody message)"
proof (cases "bodyLength message \<ge> threshold")
  case True
  then have z: "zlib_round_trip cd (getBody message)" by (rule assms(1))
  then have c: "compress cd (getBody message) [] = (True, snd (compress cd (getBody message) []))"
    by (auto simp: zlib_round_trip_def compress_def)
  have "uncompress cd (rq_body item) [] = Some (True, getBody message)"
    using uncompress_compress[OF z c] assms(2) True by (simp add: encode_body_def)
  then show ?thesis using assms(2,3) True by (simp add: decode_body_def encode_body_def)
next
  case False
  then show ?thesis using assms(2,3) by (simp add: decode_body_def encode_body_def)
qed

section \<open>Lemmas: decoding\<close>

lemma wrapMessage_Some:
  assumes "wrapMessage cd ns now item blank = Some (Some m, g)"
  shows "msg_attrs m = decode_attributes now (rq_system_attribute item) (msg_attrs blank)"
    and "getTopic m = rs_name (rq_topic item)"
    and "decode_body cd item (getBody blank) = Some (getBody m)"
    and "mi_user_attribute_map (msg_impl m) =
      fold (\<lambda>(k, v) a. if a k = None then a(k \<mapsto> v) else a) (rq_user_attribute item)
        (mi_user_attribute_map (msg_impl blank))"
    and "body_digest_match cd item"
  using assms
  by (auto simp: wrapMessage_def setProperties_def getTopic_def getBody_def Let_def split: if_splits option.splits)

lemma decode_attributes_simps [simp]:
  "sa_tag (decode_attributes now r a) = ra_tag r"
  "sa_keys (decode_attributes now r a) = ra_keys r"
  "sa_message_id (decode_attributes now r a) = ra_message_id r"
  "sa_message_type (decode_attributes now r a) = (case ra_message_type r of Some t \<Rightarrow> t | None \<Rightarrow> NORMAL)"
  "sa_partition_id (decode_attributes now r a) = ra_partition_id r"
  "sa_partition_offset (decode_attributes now r a) = ra_partition_offset r"
  "sa_target_endpoint (decode_attributes now r a) = sa_target_endpoint a"
  by (simp_all add: decode_attributes_def)

lemma insert_all_fresh:
  "distinct (map fst ps) \<Longrightarrow> \<forall>k\<in>fst ` set ps. a k = None \<Longrightarrow>
   fold (\<lambda>(k, v) a. if a k = None then a(k \<mapsto> v) else a) ps a = a ++ map_of ps"
proof (induction ps arbitrary: a)
  case (Cons p ps)
  obtain k v where p: "p = (k, v)" by (cases p)
  have nk: "k \<notin> fst ` set ps" using Cons.prems(1) p by simp
  have "fold (\<lambda>(k, v) a. if a k = None then a(k \<mapsto> v) else a) ps (a(k \<mapsto> v))
      = a(k \<mapsto> v) ++ map_of ps"
    by (rule Cons.IH) (use Cons.prems nk p in auto)
  then have "fold (\<lambda>(k, v) a. if a k = None then a(k \<mapsto> v) else a) (p # ps) a
      = a(k \<mapsto> v) ++ map_of ps"
    using Cons.prems p by simp
  also have "\<dots> = a ++ map_of (p # ps)"
  proof
    fix x
    have "map_of ps k = None" using nk by (simp add: map_of_eq_None_iff)
    then show "(a(k \<mapsto> v) ++ map_of ps) x = (a ++ map_of (p # ps)) x"
      by (simp add: p map_add_def split: option.split)
  qed
  finally show ?case .
qed simp

text \<open>What a broker keeps of the message it was sent: topic, user attributes, body and the
  attributes a producer sets. The others (digest, store time, receipt handle, offset and delivery
  attempt) are the broker's.\<close>

definition delivered :: "rmq_Message \<Rightarrow> rmq_Message \<Rightarrow> bool" where
  "delivered sent item \<longleftrightarrow>
     rq_topic item = rq_topic sent \<and> rq_user_attribute item = rq_user_attribute sent
     \<and> rq_body item = rq_body sent
     \<and> (let r = rq_system_attribute item; s = rq_system_attribute sent
        in ra_tag r = ra_tag s \<and> ra_keys r = ra_keys s \<and> ra_message_id r = ra_message_id s
         \<and> ra_body_encoding r = ra_body_encoding s \<and> ra_message_type r = ra_message_type s
         \<and> ra_partition_id r = ra_partition_id s)"

lemma pop_messages_target:
  "pop_messages cd ns now blank target items = Some ms \<Longrightarrow> \<forall>m\<in>set ms. targetEndpoint m = target"
proof (induction items arbitrary: ms)
  case (Cons item items)
  then show ?case
    using wrapMessage_Some(1)[of cd ns now item "setTargetEndpoint blank target"]
    by (auto simp: targetEndpoint_def setTargetEndpoint_def update_attrs_def
        split: option.splits prod.splits)
qed simp

lemma pop_messages_ids:
  "pop_messages cd ns now blank target items = Some ms \<Longrightarrow>
   map getMsgId ms = map (ra_message_id \<circ> rq_system_attribute) (filter (body_digest_match cd) items)"
proof (induction items arbitrary: ms)
  case (Cons item items)
  have rej: "\<not> body_digest_match cd item" if "wrapMessage cd ns now item b = Some (None, g)" for b g
    using that by (auto simp: wrapMessage_def Let_def split: if_splits option.splits)
  show ?case
    using Cons.prems Cons.IH rej
      wrapMessage_Some(1,5)[of cd ns now item "setTargetEndpoint blank target"]
    by (auto simp: getMsgId_def split: option.splits prod.splits)
qed simp

lemma pull_messages_frame:
  "pull_messages cd ns now blank items r = Some r' \<Longrightarrow>
   rr_next_offset r' = rr_next_offset r \<and> rr_source_host r' = rr_source_host r
   \<and> (\<exists>ms. rr_messages r' = rr_messages r @ ms \<and> (\<forall>m\<in>set ms. targetEndpoint m = targetEndpoint blank))
   \<and> (rr_status r' = rr_status r \<or> rr_status r' = Receive_DATA_CORRUPTED)"
proof (induction items arbitrary: r)
  case (Cons item items)
  show ?case
  proof (cases "wrapMessage cd ns now item blank")
    case (Some p)
    obtain mo g where p: "p = (mo, g)" by (cases p)
    show ?thesis
    proof (cases mo)
      case None
      then show ?thesis using Cons.prems Some p by auto
    next
      case m: (Some m)
      have t: "targetEndpoint m = targetEndpoint blank"
        using wrapMessage_Some(1)[of cd ns now item blank m g] Some p m by (simp add: targetEndpoint_def)
      have "pull_messages cd ns now blank items (r\<lparr>rr_messages := rr_messages r @ [m]\<rparr>) = Some r'"
        using Cons.prems Some p m by simp
      from Cons.IH[OF this] show ?thesis using t by auto
    qed
  qed (use Cons.prems in simp)
qed simp

section \<open>A sample codec\<close>

text \<open>A codec whose compression is the identity, delivered in two chunks.\<close>

definition sample_codec :: codec where
  "sample_codec = \<lparr>cd_crc32 = (\<lambda>_. 7), cd_md5 = (\<lambda>_. None), cd_sha1 = (\<lambda>_. []),
     cd_deflate = (\<lambda>s. (Z_STREAM_END, s)),
     cd_inflate = (\<lambda>s n. if n = 0 then (Z_OK, take 1 s) else (Z_STREAM_END, drop 1 s))\<rparr>"

definition sample_outgoing :: MQMessage where
  "sample_outgoing = make_MQMessage IDENTITY FIFO 0 ''h'' ''id0'' ''TopicTest'' ''TagA'' [] ''body''"

definition sample_sent :: rmq_Message where
  "sample_sent = wrapSendMessageRequest sample_codec ''ns'' ''g'' 4 ''h'' 1000000000 ''id1'' [(''k'', ''v'')]
     sample_outgoing (make_MQMessageQueue ''TopicTest'' ''b'' 3)"

definition sample_blank :: MQMessageExt where
  "sample_blank = make_MQMessage IDENTITY NORMAL 0 ''h'' ''id2'' [] [] [] []"

definition sample_item :: rmq_Message where
  "sample_item = sample_sent\<lparr>rq_system_attribute := (rq_system_attribute sample_sent)
     \<lparr>ra_digest_type := Some MD5, ra_receipt_handle := ''rh'', ra_partition_offset := 12\<rparr>\<rparr>"

lemma sample_zlib: "zlib_round_trip sample_codec src"
  unfolding zlib_round_trip_def
  by (rule exI[of _ src], rule conjI, simp add: sample_codec_def, rule exI[of _ "Suc 0"])
     (auto simp: sample_codec_def intro: exI[of _ "take 1 src"])

lemma sample_delivered: "delivered sample_sent sample_item"
  by (simp add: delivered_def sample_item_def Let_def)

lemma sample_digest: "body_digest_match sample_codec sample_item"
  by (simp add: body_digest_match_def sample_item_def md5_hex_def sample_codec_def Let_def)

section \<open>Properties\<close>

text \<open>C10. What a producer sends is what a consumer receives: if the broker delivers the message it
  was sent with a matching digest, and zlib restores a body that was compressed, then decoding
  succeeds and yields the topic, the body, the type, the user properties, the message id and the
  partition of the request.\<close>

theorem send_receive_round_trip:
  assumes "sent = wrapSendMessageRequest cd ns grp threshold host now mid props message q"
    and "delivered sent item" and "body_digest_match cd item"
    and "bodyLength message \<ge> threshold \<longrightarrow> zlib_round_trip cd (getBody message)"
    and "distinct (map fst props)" and "mi_user_attribute_map (msg_impl blank) = Map.empty"
  shows "\<exists>m g. wrapMessage cd ns later item blank = Some (Some m, g)
    \<and> getTopic m = getTopic message \<and> getBody m = getBody message \<and> getMsgId m = mid
    \<and> sa_message_type (msg_attrs m) = sa_message_type (msg_attrs message)
    \<and> mi_user_attribute_map (msg_impl m) = map_of props
    \<and> sa_partition_id (msg_attrs m) = mq_queue_id q"
proof -
  obtain body enc where e: "encode_body cd threshold message = (body, enc)" by fastforce
  have item: "rs_namespace (rq_topic item) = ns" "rs_name (rq_topic item) = getTopic message"
    "rq_user_attribute item = props" "rq_body item = body"
    "ra_body_encoding (rq_system_attribute item) = Some enc"
    "ra_message_id (rq_system_attribute item) = mid"
    "ra_message_type (rq_system_attribute item) = Some (sa_message_type (msg_attrs message))"
    "ra_partition_id (rq_system_attribute item) = mq_queue_id q"
    using assms(1,2) e by (simp_all add: delivered_def wrapSendMessageRequest_def Let_def)
  have body: "decode_body cd item (getBody blank) = Some (getBody message)"
    by (rule decode_encode_body[of threshold message cd item enc]) (use assms(4) e item in auto)
  obtain m g where m: "wrapMessage cd ns later item blank = Some (Some m, g)"
    using body item(1) assms(3) by (simp add: wrapMessage_def Let_def)
  have "fold (\<lambda>(k, v) a. if a k = None then a(k \<mapsto> v) else a) props Map.empty = map_of props"
    using insert_all_fresh[OF assms(5), of Map.empty] by simp
  then show ?thesis
    using m wrapMessage_Some[OF m] item body assms(6)
    by (intro exI[of _ m] exI[of _ g]) (simp add: getMsgId_def)
qed

theorem send_receive_round_trip_witness:
  "\<exists>m g. wrapMessage sample_codec ''ns'' 5 sample_item sample_blank = Some (Some m, g)
     \<and> getTopic m = ''TopicTest'' \<and> getBody m = ''body'' \<and> getMsgId m = ''id1''
     \<and> mi_user_attribute_map (msg_impl m) = [''k'' \<mapsto> ''v'']"
proof -
  have t: "getTopic sample_outgoing = ''TopicTest''" "getBody sample_outgoing = ''body''"
    by (simp_all add: sample_outgoing_def make_MQMessage_def getTopic_def getBody_def)
  have b: "mi_user_attribute_map (msg_impl sample_blank) = Map.empty"
    by (simp add: sample_blank_def make_MQMessage_def)
  show ?thesis
    using send_receive_round_trip[OF sample_sent_def sample_delivered sample_digest _ _ b, of 5] t
    by (auto simp: sample_zlib)
qed

text \<open>The request a producer builds carries neither the tag nor the keys of the message, so no
  consumer that subscribes with a tag expression accepts the message once it is delivered, whatever
  its tag was.\<close>

theorem sent_tag_is_lost:
  assumes "delivered (wrapSendMessageRequest cd ns grp threshold host now mid props message q) item"
    and "wrapMessage cd ns' later item blank = Some (Some m, g)"
    and "expression \<noteq> []" and "expression \<noteq> WILD_CARD_TAG"
  shows "getTags m = [] \<and> sa_keys (msg_attrs m) = []
    \<and> \<not> accept (make_FilterExpression expression TAG t) m"
proof -
  have "ra_tag (rq_system_attribute item) = [] \<and> ra_keys (rq_system_attribute item) = []"
    using assms(1)
    by (simp add: delivered_def wrapSendMessageRequest_def default_rmq_SystemAttribute_def Let_def
        split: prod.splits)
  then have "getTags m = [] \<and> sa_keys (msg_attrs m) = []"
    using wrapMessage_Some(1)[OF assms(2)] by (simp add: getTags_def)
  then show ?thesis using assms(3,4) by (auto simp: accept_def make_FilterExpression_def)
qed

theorem sent_tag_is_lost_witness:
  "getTags sample_outgoing = ''TagA'' \<and> (\<exists>m g. wrapMessage sample_codec ''ns'' 5 sample_item sample_blank = Some (Some m, g)
     \<and> \<not> accept (make_FilterExpression ''TagA'' TAG 0) m)"
proof -
  have "uncompress sample_codec ''body'' [] = Some (True, ''body'')"
    using uncompress_compress[OF sample_zlib, of "''body''" "''body''"] by (simp add: compress_def sample_codec_def)
  then have "\<exists>m g. wrapMessage sample_codec ''ns'' 5 sample_item sample_blank = Some (Some m, g)"
    using sample_digest
    by (simp add: wrapMessage_def Let_def decode_body_def sample_item_def sample_sent_def wrapSendMessageRequest_def
        encode_body_def sample_outgoing_def make_MQMessage_def bodyLength_def getBody_def compress_def sample_codec_def)
  then obtain m g where m: "wrapMessage sample_codec ''ns'' 5 sample_item sample_blank = Some (Some m, g)" by blast
  have "\<not> accept (make_FilterExpression ''TagA'' TAG 0) m"
    using sent_tag_is_lost[OF sample_delivered[unfolded sample_sent_def] m, of "''TagA''" 0] by simp
  moreover have "getTags sample_outgoing = ''TagA''"
    by (simp add: sample_outgoing_def make_MQMessage_def getTags_def)
  ultimately show ?thesis using m by blast
qed

text \<open>C37. A pop hands on, in order, exactly the messages whose body matches its digest, and each of
  them carries the endpoint it came from.\<close>

theorem pop_keeps_intact_messages:
  assumes "processPopResult cd ns now blank target response = Some result"
    and "rv_code response = Some Code_OK"
  shows "rr_status result = Receive_OK
    \<and> map getMsgId (rr_messages result)
        = map (ra_message_id \<circ> rq_system_attribute) (filter (body_digest_match cd) (rv_messages response))
    \<and> (\<forall>m\<in>set (rr_messages result). targetEndpoint m = target)"
  using assms pop_messages_ids pop_messages_target
  by (auto simp: processPopResult_def pop_status_def Let_def)

theorem pop_keeps_intact_messages_witness:
  "\<exists>result. processPopResult sample_codec ''ns'' 5 sample_blank ''ipv4:b:1''
       \<lparr>rv_code = Some Code_OK, rv_messages = [sample_item\<lparr>rq_body := []\<rparr>], rv_delivery_timestamp = (0, 0),
        rv_invisible_duration = (30, 0)\<rparr> = Some result
     \<and> map getMsgId (rr_messages result) = [''id1'']"
proof -
  let ?r = "\<lparr>rv_code = Some Code_OK, rv_messages = [sample_item\<lparr>rq_body := []\<rparr>], rv_delivery_timestamp = (0, 0),
        rv_invisible_duration = (30, 0)\<rparr>"
  have u: "uncompress sample_codec [] [] = Some (True, [])"
    using uncompress_compress[OF sample_zlib, of "[]" "[]"] by (simp add: compress_def sample_codec_def)
  have enc: "ra_body_encoding (rq_system_attribute sample_item) = Some GZIP"
    "rs_namespace (rq_topic sample_item) = ''ns''" "ra_message_id (rq_system_attribute sample_item) = ''id1''"
    by (simp_all add: sample_item_def sample_sent_def wrapSendMessageRequest_def encode_body_def
        sample_outgoing_def make_MQMessage_def bodyLength_def Let_def)
  obtain result where res: "processPopResult sample_codec ''ns'' 5 sample_blank ''ipv4:b:1'' ?r = Some result"
    using u enc by (auto simp: processPopResult_def pop_status_def wrapMessage_def body_digest_match_def decode_body_def Let_def)
  show ?thesis
    using pop_keeps_intact_messages[OF res] res enc(3) by (simp add: body_digest_match_def)
qed

text \<open>A pull does not record where its messages came from and does not report the offset to
  continue at: the messages have the endpoint of the blank message they are decoded into, which is
  empty, and the next offset of the result keeps its initial value.\<close>

theorem pull_result_lacks_origin:
  assumes "processPullResult cd ns now blank target response default_ReceiveMessageResult = Some result"
    and "targetEndpoint blank = []"
  shows "(\<forall>m\<in>set (rr_messages result). targetEndpoint m = []) \<and> rr_next_offset result = 0"
  using assms
    pull_messages_frame[of cd ns now blank "pv_messages response"
      "default_ReceiveMessageResult\<lparr>rr_source_host := target, rr_status := Receive_OK\<rparr>" result]
  by (auto simp: processPullResult_def default_ReceiveMessageResult_def split: if_splits)

theorem pull_result_lacks_origin_witness:
  "\<exists>result. processPullResult sample_codec ''ns'' 5 sample_blank ''ipv4:b:1''
       \<lparr>pv_code = Some Code_OK, pv_messages = [sample_item\<lparr>rq_body := []\<rparr>], pv_next_offset = 13\<rparr>
       default_ReceiveMessageResult = Some result
     \<and> rr_messages result \<noteq> [] \<and> rr_next_offset result = 0"
proof -
  let ?r = "\<lparr>pv_code = Some Code_OK, pv_messages = [sample_item\<lparr>rq_body := []\<rparr>], pv_next_offset = 13\<rparr>"
  have u: "uncompress sample_codec [] [] = Some (True, [])"
    using uncompress_compress[OF sample_zlib, of "[]" "[]"] by (simp add: compress_def sample_codec_def)
  have enc: "ra_body_encoding (rq_system_attribute sample_item) = Some GZIP"
    "rs_namespace (rq_topic sample_item) = ''ns''"
    by (simp_all add: sample_item_def sample_sent_def wrapSendMessageRequest_def encode_body_def
        sample_outgoing_def make_MQMessage_def bodyLength_def Let_def)
  have "\<exists>result. processPullResult sample_codec ''ns'' 5 sample_blank ''ipv4:b:1'' ?r default_ReceiveMessageResult
      = Some result \<and> rr_messages result \<noteq> []"
    using u enc by (auto simp: processPullResult_def wrapMessage_def body_digest_match_def decode_body_def Let_def)
  then obtain result where res: "processPullResult sample_codec ''ns'' 5 sample_blank ''ipv4:b:1'' ?r
      default_ReceiveMessageResult = Some result" and ne: "rr_messages result \<noteq> []" by blast
  have "targetEndpoint sample_blank = []"
    by (simp add: sample_blank_def make_MQMessage_def fresh_attributes_def targetEndpoint_def)
  then show ?thesis using pull_result_lacks_origin[OF res] res ne by blast
qed

end
