(* ===== verification/Signing.thy ===== *)
theory Signing
  imports Mix_All
begin

text \<open>
  The configuration every client carries (\<open>client/ClientConfigImpl\<close>) and the headers
  that sign a request (\<open>client/Signature.cpp\<close>, \<open>client/TlsHelper.cpp\<close>). The HMAC of
  OpenSSL, the formatted time and the credentials a provider returns are parameters.
\<close>

section \<open>Model\<close>

record Credentials =
  cr_access_key :: string
  cr_access_secret :: string
  cr_session_token :: string
  cr_expiration_instant :: time_point

definition Credentials_empty :: "Credentials \<Rightarrow> bool" where
  "Credentials_empty c = (cr_access_key c = [] \<or> cr_access_secret c = [])"

definition Credentials_expired :: "Credentials \<Rightarrow> time_point \<Rightarrow> bool" where
  "Credentials_expired c now = (now > cr_expiration_instant c)"

text \<open>\<open>cc_credentials\<close> is what the provider returns when it is asked, None without a
  provider. Timeouts are in milliseconds.\<close>

record ClientConfig =
  cc_service_name :: string
  cc_region :: string
  cc_resource_namespace :: string
  cc_tenant_id :: string
  cc_instance_name :: string
  cc_group_name :: string
  cc_credentials :: "Credentials option"
  cc_io_timeout :: duration
  cc_long_polling_timeout :: duration

definition make_ClientConfig :: "string \<Rightarrow> ClientConfig" where
  "make_ClientConfig group_name =
     \<lparr>cc_service_name = ''ONS'', cc_region = [], cc_resource_namespace = [], cc_tenant_id = [],
      cc_instance_name = ''DEFAULT'', cc_group_name = group_name, cc_credentials = None,
      cc_io_timeout = 3000, cc_long_polling_timeout = 30000\<rparr>"

definition clientId :: "string \<Rightarrow> int \<Rightarrow> ClientConfig \<Rightarrow> string" where
  "clientId hostname pid c = hostname @ ''@'' @
     (if cc_instance_name c = ''DEFAULT'' then to_string_int pid else cc_instance_name c)"

type_synonym metadata = "(string \<times> string) list"

definition LANGUAGE_KEY :: string where "LANGUAGE_KEY = ''x-mq-language''"
definition CLIENT_VERSION_KEY :: string where "CLIENT_VERSION_KEY = ''x-mq-client-version''"
definition PROTOCOL_VERSION_KEY :: string where "PROTOCOL_VERSION_KEY = ''x-mq-protocol-version''"
definition TENANT_ID_KEY :: string where "TENANT_ID_KEY = ''x-mq-tenant-id''"
definition NAMESPACE_KEY :: string where "NAMESPACE_KEY = ''x-mq-namespace''"
definition DATE_TIME_KEY :: string where "DATE_TIME_KEY = ''x-mq-date-time''"
definition AUTHORIZATION :: string where "AUTHORIZATION = ''authorization''"
definition STS_SESSION_TOKEN :: string where "STS_SESSION_TOKEN = ''x-mq-session-token''"

text \<open>The access key that every trace span records, \<open>credentialsProvider()->getCredentials().accessKey()\<close>. None:
  there is no provider and a null pointer is dereferenced.\<close>

definition access_key :: "ClientConfig \<Rightarrow> string option" where
  "access_key c = map_option cr_access_key (cc_credentials c)"

text \<open>\<open>TlsHelper::sign\<close>: the hexadecimal HMAC-SHA1 of the content.\<close>

definition tls_sign :: "(string \<Rightarrow> string \<Rightarrow> byte list) \<Rightarrow> string \<Rightarrow> string \<Rightarrow> string" where
  "tls_sign hmac_sha1 access_secret content = hex (hmac_sha1 access_secret content)"

definition authorization_header ::
  "(string \<Rightarrow> string \<Rightarrow> byte list) \<Rightarrow> ClientConfig \<Rightarrow> Credentials \<Rightarrow> string \<Rightarrow> string" where
  "authorization_header hmac_sha1 c cr date_time =
     ''MQv2-HMAC-SHA1'' @ '' '' @ ''Credential'' @ ''='' @ cr_access_key cr @ ''/'' @ cc_region c
       @ ''/'' @ cc_service_name c @ '', '' @ ''SignedHeaders'' @ ''='' @ DATE_TIME_KEY @ '', ''
       @ ''Signature'' @ ''='' @ tls_sign hmac_sha1 (cr_access_secret cr) date_time"

abbreviation md_insert :: "string \<Rightarrow> string \<Rightarrow> metadata \<Rightarrow> metadata" where
  "md_insert k v \<equiv> hm_emplace id k v"

definition sign ::
  "(string \<Rightarrow> string \<Rightarrow> byte list) \<Rightarrow> string \<Rightarrow> ClientConfig \<Rightarrow> metadata \<Rightarrow> metadata" where
  "sign hmac_sha1 date_time c md0 =
     (let md1 = md_insert LANGUAGE_KEY ''CPP'' md0;
          md2 = md_insert CLIENT_VERSION_KEY ''1.0.0'' md1;
          md3 = md_insert PROTOCOL_VERSION_KEY ''v1'' md2;
          md4 = (if cc_tenant_id c \<noteq> [] then md_insert TENANT_ID_KEY (cc_tenant_id c) md3 else md3);
          md5 = (if cc_resource_namespace c \<noteq> []
                 then md_insert NAMESPACE_KEY (cc_resource_namespace c) md4 else md4);
          md6 = md_insert DATE_TIME_KEY date_time md5
      in case cc_credentials c of
           None \<Rightarrow> md6
         | Some cr \<Rightarrow>
             if cr_access_key cr = [] \<or> cr_access_secret cr = [] then md6
             else let md7 = md_insert AUTHORIZATION (authorization_header hmac_sha1 c cr date_time) md6
                  in if cr_session_token cr \<noteq> [] then md_insert STS_SESSION_TOKEN (cr_session_token cr) md7
                     else md7)"

section \<open>Lemmas\<close>

lemmas metadata_keys [rmq_defs] =
  LANGUAGE_KEY_def CLIENT_VERSION_KEY_def PROTOCOL_VERSION_KEY_def TENANT_ID_KEY_def
  NAMESPACE_KEY_def DATE_TIME_KEY_def AUTHORIZATION_def STS_SESSION_TOKEN_def

lemma sign_find_authorization:
  "hm_find id (sign hmac date c []) AUTHORIZATION =
     (case cc_credentials c of
        None \<Rightarrow> None
      | Some cr \<Rightarrow> if Credentials_empty cr then None
                  else Some (authorization_header hmac c cr date))"
  by (simp add: sign_def Let_def hm.find_emplace metadata_keys Credentials_empty_def
      split: option.split)

lemma sign_find_date: "hm_find id (sign hmac date c []) DATE_TIME_KEY = Some date"
  by (simp add: sign_def Let_def hm.find_emplace metadata_keys split: option.split)

text \<open>A configuration with credentials, for examples.\<close>

definition sample_config :: "string \<Rightarrow> ClientConfig" where
  "sample_config group_name = (make_ClientConfig group_name)\<lparr>cc_credentials :=
     Some \<lparr>cr_access_key = ''k'', cr_access_secret = ''s'', cr_session_token = [], cr_expiration_instant = 9000\<rparr>\<rparr>"

lemma access_key_sample [simp]: "access_key (sample_config g) = Some ''k''"
  by (simp add: access_key_def sample_config_def)

end
