(* ===== verification/Client_Base.thy ===== *)
theory Client_Base
  imports Name_Server Message_Codec Signing
begin

text \<open>
  What every client shares (\<open>rocketmq/ClientImpl.cpp\<close>): its life cycle, the cache of topic
  routes with the requests that wait for one, the endpoints it isolates, heartbeats and the
  multiplexing poll. A closure that waits for a route is a value of type \<open>'cb\<close>. Each
  critical section is one operation; \<open>getRouteFor\<close> has two.
\<close>

section \<open>State\<close>

record 'cb ClientImpl =
  cl_config :: ClientConfig
  cl_client_id :: string
  cl_state :: State
  cl_topic_route_table :: "(string \<times> TopicRouteData) list"
  cl_inflight_route_requests :: "(string \<times> 'cb list) list"
  cl_route_update_handle :: u32
  cl_name_server_resolver :: "NameServerResolver option"
  cl_isolated_endpoints :: "string list"

definition make_ClientImpl :: "ClientConfig \<Rightarrow> string \<Rightarrow> 'cb ClientImpl" where
  "make_ClientImpl config client_id =
     \<lparr>cl_config = config, cl_client_id = client_id, cl_state = CREATED, cl_topic_route_table = [],
      cl_inflight_route_requests = [], cl_route_update_handle = 0, cl_name_server_resolver = None,
      cl_isolated_endpoints = []\<rparr>"

definition active :: "('cb, 'z) ClientImpl_scheme \<Rightarrow> bool" where
  "active cl = (STARTING = cl_state cl \<or> STARTED = cl_state cl)"

section \<open>Life cycle\<close>

datatype client_action =
    StartResolver | StartManager | StartExporter | ScheduleRouteUpdate nat nat
  | ShutdownResolver | CancelTask u32 | NotifyTermination "string list" | ResetManager

text \<open>None: the client aborts because no name server resolver is configured. The argument is the
  handle the scheduler returns.\<close>

definition client_start ::
  "u32 \<Rightarrow> ('cb, 'z) ClientImpl_scheme \<Rightarrow> (('cb, 'z) ClientImpl_scheme \<times> client_action list) option" where
  "client_start handle cl =
     (case compare_exchange (cl_state cl) CREATED STARTING of (st, ok) \<Rightarrow>
        if \<not> ok then Some (cl, [])
        else case cl_name_server_resolver cl of
          None \<Rightarrow> None
        | Some _ \<Rightarrow> Some (cl\<lparr>cl_route_update_handle := handle, cl_state := STARTED\<rparr>,
              [StartResolver, StartManager, StartExporter, ScheduleRouteUpdate 10 30]))"

definition endpointsInUse :: "('cb, 'z) ClientImpl_scheme \<Rightarrow> string list" where
  "endpointsInUse cl = remdups (concat (map (\<lambda>(_, route).
     map (\<lambda>p. mq_service_address (asMessageQueue p)) (rt_partitions route)) (cl_topic_route_table cl)))"

text \<open>None: the resolver is dereferenced although none is configured.\<close>

definition client_shutdown ::
  "('cb, 'z) ClientImpl_scheme \<Rightarrow> (('cb, 'z) ClientImpl_scheme \<times> client_action list) option" where
  "client_shutdown cl = (case cl_name_server_resolver cl of
       None \<Rightarrow> None
     | Some _ \<Rightarrow> Some (cl\<lparr>cl_state := STOPPING\<rparr>,
         [ShutdownResolver]
         @ (if cl_route_update_handle cl \<noteq> 0 then [CancelTask (cl_route_update_handle cl)] else [])
         @ [NotifyTermination (endpointsInUse cl), ResetManager]))"

section \<open>Routes\<close>

text \<open>The two critical sections of \<open>getRouteFor\<close>.\<close>

definition getRouteFor_lookup :: "('cb, 'z) ClientImpl_scheme \<Rightarrow> string \<Rightarrow> TopicRouteData option" where
  "getRouteFor_lookup cl topic = hm_find id (cl_topic_route_table cl) topic"

datatype route_request = UseRoute TopicRouteData | JoinInflight | QueryBackend

definition getRouteFor_enqueue ::
  "('cb, 'z) ClientImpl_scheme \<Rightarrow> string \<Rightarrow> 'cb \<Rightarrow> ('cb, 'z) ClientImpl_scheme \<times> route_request" where
  "getRouteFor_enqueue cl topic cb =
     (case hm_find id (cl_topic_route_table cl) topic of
        Some route \<Rightarrow> (cl, UseRoute route)
      | None \<Rightarrow> (case hm_find id (cl_inflight_route_requests cl) topic of
            Some cbs \<Rightarrow> (cl\<lparr>cl_inflight_route_requests :=
                hm_assign id topic (cbs @ [cb]) (cl_inflight_route_requests cl)\<rparr>, JoinInflight)
          | None \<Rightarrow> (cl\<lparr>cl_inflight_route_requests :=
                hm_emplace id topic [cb] (cl_inflight_route_requests cl)\<rparr>, QueryBackend)))"

record QueryRouteRequest =
  qr_topic :: Resource
  qr_endpoints :: Endpoints

datatype fetch_outcome =
    NoNameServer
  | BadNameServer
  | Fetch string metadata QueryRouteRequest duration

text \<open>When the list is resolved there is a current name server, so it is not empty and not fetched.\<close>

definition fetchRouteFor ::
  "(string \<Rightarrow> string \<Rightarrow> byte list) \<Rightarrow> string \<Rightarrow> ('cb, 'z) ClientImpl_scheme \<Rightarrow> string \<Rightarrow> fetch_outcome" where
  "fetchRouteFor hmac_sha1 date_time cl topic = (case cl_name_server_resolver cl of
       None \<Rightarrow> NoNameServer
     | Some r \<Rightarrow>
         let name_server = current r
         in if name_server = [] then NoNameServer
            else case setAccessPoint (snd (resolve id r)) of
              None \<Rightarrow> BadNameServer
            | Some eps \<Rightarrow> Fetch name_server (sign hmac_sha1 date_time (cl_config cl) [])
                \<lparr>qr_topic = \<lparr>rs_namespace = cc_resource_namespace (cl_config cl), rs_name = topic\<rparr>,
                 qr_endpoints = eps\<rparr> (cc_io_timeout (cl_config cl)))"

text \<open>The answer to a fetch: a failure moves on to the next name server and drops the route.\<close>

definition fetch_callback ::
  "('cb, 'z) ClientImpl_scheme \<Rightarrow> ErrorCode \<Rightarrow> TopicRouteData option \<Rightarrow>
   ('cb, 'z) ClientImpl_scheme \<times> ErrorCode \<times> TopicRouteData option" where
  "fetch_callback cl ec route =
     (if failed ec
      then (cl\<lparr>cl_name_server_resolver := map_option (fst \<circ> next_server) (cl_name_server_resolver cl)\<rparr>, ec, None)
      else (cl, ec, route))"

definition updateRouteCache ::
  "('cb, 'z) ClientImpl_scheme \<Rightarrow> string \<Rightarrow> ErrorCode \<Rightarrow> TopicRouteData option \<Rightarrow> ('cb, 'z) ClientImpl_scheme" where
  "updateRouteCache cl topic ec route = (case route of
       None \<Rightarrow> cl
     | Some r \<Rightarrow>
         if failed ec \<or> rt_partitions r = [] then cl
         else case hm_find id (cl_topic_route_table cl) topic of
           None \<Rightarrow> cl\<lparr>cl_topic_route_table := hm_emplace id topic r (cl_topic_route_table cl)\<rparr>
         | Some cached \<Rightarrow>
             if \<not> TopicRouteData_eq cached r
             then cl\<lparr>cl_topic_route_table := hm_assign id topic r (cl_topic_route_table cl)\<rparr> else cl)"

text \<open>The second half of \<open>onTopicRouteReady\<close>; None: its assertion fails.\<close>

definition take_pending ::
  "('cb, 'z) ClientImpl_scheme \<Rightarrow> string \<Rightarrow> (('cb, 'z) ClientImpl_scheme \<times> 'cb list) option" where
  "take_pending cl topic = (case hm_find id (cl_inflight_route_requests cl) topic of
       None \<Rightarrow> None
     | Some cbs \<Rightarrow> Some (cl\<lparr>cl_inflight_route_requests :=
         hm_erase id topic (cl_inflight_route_requests cl)\<rparr>, cbs))"

text \<open>The topics whose route the periodic task fetches again.\<close>

definition updateRouteInfo :: "('cb, 'z) ClientImpl_scheme \<Rightarrow> string list" where
  "updateRouteInfo cl =
     (if STARTED \<noteq> cl_state cl \<and> STARTING \<noteq> cl_state cl then []
      else map fst (cl_topic_route_table cl))"

section \<open>Endpoints\<close>

text \<open>The calls a heartbeat makes: target and headers. The request is the client's own.\<close>

definition heartbeat ::
  "(string \<Rightarrow> string \<Rightarrow> byte list) \<Rightarrow> string \<Rightarrow> ('cb, 'z) ClientImpl_scheme \<Rightarrow> (string \<times> metadata) list" where
  "heartbeat hmac_sha1 date_time cl =
     (let hosts = endpointsInUse cl
      in if hosts = [] then []
         else map (\<lambda>target. (target, sign hmac_sha1 date_time (cl_config cl) [])) hosts)"

definition onRemoteEndpointRemoval ::
  "('cb, 'z) ClientImpl_scheme \<Rightarrow> string list \<Rightarrow> ('cb, 'z) ClientImpl_scheme" where
  "onRemoteEndpointRemoval cl hosts =
     cl\<lparr>cl_isolated_endpoints := filter (\<lambda>e. e \<notin> set hosts) (cl_isolated_endpoints cl)\<rparr>"

definition healthCheck ::
  "(string \<Rightarrow> string \<Rightarrow> byte list) \<Rightarrow> string \<Rightarrow> ('cb, 'z) ClientImpl_scheme \<Rightarrow> (string \<times> metadata) list" where
  "healthCheck hmac_sha1 date_time cl =
     map (\<lambda>e. (e, sign hmac_sha1 date_time (cl_config cl) [])) (cl_isolated_endpoints cl)"

definition onHealthCheckResponse ::
  "('cb, 'z) ClientImpl_scheme \<Rightarrow> ErrorCode \<Rightarrow> string \<Rightarrow> ('cb, 'z) ClientImpl_scheme" where
  "onHealthCheckResponse cl ec remote_address =
     (if failed ec then cl
      else cl\<lparr>cl_isolated_endpoints := removeAll remote_address (cl_isolated_endpoints cl)\<rparr>)"

section \<open>Multiplexing\<close>

datatype GroupType = PUBLISHER | SUBSCRIBER

record ClientResourceBundle =
  rb_client_id :: string
  rb_resource_namespace :: string
  rb_group_type :: GroupType
  rb_topics :: "string list"

record PollingRequest =
  pr_client_id :: string
  pr_producer_group :: "Resource option"
  pr_consumer_group :: "Resource option"
  pr_topics :: "Resource list"

datatype MultiplexingRequest =
    Polling PollingRequest
  | PrintThreadStackResponse Code string
  | VerifyMessageConsumptionResponse Code string

datatype MultiplexingResponse =
    PrintThreadStackRequest
  | VerifyMessageConsumptionRequest rmq_Message
  | ResolveOrphanedTransactionRequest string rmq_Message
  | PollingResponse
  | UnknownResponse

datatype multiplexing_effect =
    MultiplexingCall string MultiplexingRequest
  | MultiplexingLater string
  | ResolveOrphan string MQMessageExt

definition fillGenericPollingRequest ::
  "('cb, 'z) ClientImpl_scheme \<Rightarrow> ClientResourceBundle \<Rightarrow> MultiplexingRequest" where
  "fillGenericPollingRequest cl bundle =
     (let group = \<lparr>rs_namespace = cc_resource_namespace (cl_config cl), rs_name = cc_group_name (cl_config cl)\<rparr>
      in Polling
        \<lparr>pr_client_id = cl_client_id cl,
         pr_producer_group = (case rb_group_type bundle of PUBLISHER \<Rightarrow> Some group | SUBSCRIBER \<Rightarrow> None),
         pr_consumer_group = (case rb_group_type bundle of PUBLISHER \<Rightarrow> None | SUBSCRIBER \<Rightarrow> Some group),
         pr_topics = map (\<lambda>t. \<lparr>rs_namespace = cc_resource_namespace (cl_config cl), rs_name = t\<rparr>)
           (rb_topics bundle)\<rparr>)"

text \<open>\<open>wrap\<close> decodes a message (None: it does not return one, Some None: it is rejected), \<open>verify\<close>
  is the client's verification of a message. The status of the call is \<open>ok\<close>.\<close>

definition onMultiplexingResponse ::
  "(rmq_Message \<Rightarrow> MQMessageExt option option) \<Rightarrow> (MQMessageExt \<Rightarrow> string) \<Rightarrow> ('cb, 'z) ClientImpl_scheme \<Rightarrow>
   ClientResourceBundle \<Rightarrow> bool \<Rightarrow> string \<Rightarrow> MultiplexingResponse \<Rightarrow> multiplexing_effect list option" where
  "onMultiplexingResponse wrap verify cl bundle ok remote response =
     (let poll = MultiplexingCall remote (fillGenericPollingRequest cl bundle)
      in if \<not> ok then Some [MultiplexingLater remote]
         else case response of
           PrintThreadStackRequest \<Rightarrow> Some [MultiplexingCall remote (PrintThreadStackResponse Code_UNIMPLEMENTED
               ''Print thread stack trace is not supported by C++ SDK'')]
         | VerifyMessageConsumptionRequest data \<Rightarrow> map_option (\<lambda>r. case r of
               None \<Rightarrow> [MultiplexingCall remote (VerifyMessageConsumptionResponse Code_INVALID_ARGUMENT
                   ''Message to verify is corrupted'')]
             | Some m \<Rightarrow> [MultiplexingCall remote (VerifyMessageConsumptionResponse Code_OK (verify m))]) (wrap data)
         | ResolveOrphanedTransactionRequest transaction_id orphan \<Rightarrow> map_option (\<lambda>r. case r of
               None \<Rightarrow> [poll]
             | Some m \<Rightarrow> [ResolveOrphan transaction_id (setTargetEndpoint m remote), poll]) (wrap orphan)
         | PollingResponse \<Rightarrow> Some [poll]
         | UnknownResponse \<Rightarrow> Some [poll])"

text \<open>The target of every termination notice and its request.\<close>

definition notifyClientTermination ::
  "(string \<Rightarrow> string \<Rightarrow> byte list) \<Rightarrow> string \<Rightarrow> ('cb, 'z) ClientImpl_scheme \<Rightarrow>
   (string \<times> metadata \<times> Resource \<times> string) list" where
  "notifyClientTermination hmac_sha1 date_time cl =
     map (\<lambda>e. (e, sign hmac_sha1 date_time (cl_config cl) [],
       \<lparr>rs_namespace = cc_resource_namespace (cl_config cl), rs_name = cc_group_name (cl_config cl)\<rparr>,
       cl_client_id cl)) (endpointsInUse cl)"

section \<open>Route requests of concurrent threads\<close>

text \<open>
  Threads ask for routes, the periodic task refreshes them, name servers answer in any order and
  the list of name servers may change at any time. A thread that missed the cache waits to enter
  the second critical section of \<open>getRouteFor\<close>; an answer to a first request has updated the cache
  and waits to take the pending callbacks. The ghost fields record the callbacks that were handed
  in, those that ran, and the topics whose request left no fetch behind.
\<close>

datatype fetch_kind = TopicRouteReady | RouteCache

record 'cb route_world =
  rw_client :: "'cb ClientImpl"
  rw_waiting :: "(string \<times> 'cb) list"
  rw_fetching :: "(string \<times> fetch_kind) list"
  rw_ready :: "(string \<times> ErrorCode \<times> TopicRouteData option) list"
  rw_asked :: "'cb list"
  rw_done :: "'cb list"
  rw_lost :: "string list"

definition fetch_issued ::
  "(string \<Rightarrow> string \<Rightarrow> byte list) \<Rightarrow> string \<Rightarrow> ('cb, 'z) ClientImpl_scheme \<Rightarrow> string \<Rightarrow> bool" where
  "fetch_issued hm dt cl topic =
     (case fetchRouteFor hm dt cl topic of Fetch _ _ _ _ \<Rightarrow> True | _ \<Rightarrow> False)"

inductive route_step :: "(string \<Rightarrow> string \<Rightarrow> byte list) \<Rightarrow> 'cb route_world \<Rightarrow> 'cb route_world \<Rightarrow> bool" for hm where
  ask_hit: "getRouteFor_lookup (rw_client w) topic = Some r \<Longrightarrow>
     route_step hm w (w\<lparr>rw_asked := rw_asked w @ [cb], rw_done := rw_done w @ [cb]\<rparr>)"
| ask_miss: "getRouteFor_lookup (rw_client w) topic = None \<Longrightarrow>
     route_step hm w (w\<lparr>rw_asked := rw_asked w @ [cb], rw_waiting := rw_waiting w @ [(topic, cb)]\<rparr>)"
| enqueue_use: "(topic, cb) \<in> set (rw_waiting w) \<Longrightarrow>
     getRouteFor_enqueue (rw_client w) topic cb = (cl, UseRoute r) \<Longrightarrow>
     route_step hm w (w\<lparr>rw_client := cl, rw_waiting := remove1 (topic, cb) (rw_waiting w),
       rw_done := rw_done w @ [cb]\<rparr>)"
| enqueue_join: "(topic, cb) \<in> set (rw_waiting w) \<Longrightarrow>
     getRouteFor_enqueue (rw_client w) topic cb = (cl, JoinInflight) \<Longrightarrow>
     route_step hm w (w\<lparr>rw_client := cl, rw_waiting := remove1 (topic, cb) (rw_waiting w)\<rparr>)"
| enqueue_query: "(topic, cb) \<in> set (rw_waiting w) \<Longrightarrow>
     getRouteFor_enqueue (rw_client w) topic cb = (cl, QueryBackend) \<Longrightarrow> fetch_issued hm dt cl topic \<Longrightarrow>
     route_step hm w (w\<lparr>rw_client := cl, rw_waiting := remove1 (topic, cb) (rw_waiting w),
       rw_fetching := rw_fetching w @ [(topic, TopicRouteReady)]\<rparr>)"
| enqueue_lost: "(topic, cb) \<in> set (rw_waiting w) \<Longrightarrow>
     getRouteFor_enqueue (rw_client w) topic cb = (cl, QueryBackend) \<Longrightarrow> \<not> fetch_issued hm dt cl topic \<Longrightarrow>
     route_step hm w (w\<lparr>rw_client := cl, rw_waiting := remove1 (topic, cb) (rw_waiting w),
       rw_lost := rw_lost w @ [topic]\<rparr>)"
| refresh: "topic \<in> set (updateRouteInfo (rw_client w)) \<Longrightarrow> fetch_issued hm dt (rw_client w) topic \<Longrightarrow>
     route_step hm w (w\<lparr>rw_fetching := rw_fetching w @ [(topic, RouteCache)]\<rparr>)"
| respond_ready: "(topic, TopicRouteReady) \<in> set (rw_fetching w) \<Longrightarrow>
     fetch_callback (rw_client w) ec route = (cl, ec', route') \<Longrightarrow>
     route_step hm w (w\<lparr>rw_client := updateRouteCache cl topic ec' route',
       rw_fetching := remove1 (topic, TopicRouteReady) (rw_fetching w),
       rw_ready := rw_ready w @ [(topic, ec', route')]\<rparr>)"
| respond_cache: "(topic, RouteCache) \<in> set (rw_fetching w) \<Longrightarrow>
     fetch_callback (rw_client w) ec route = (cl, ec', route') \<Longrightarrow>
     route_step hm w (w\<lparr>rw_client := updateRouteCache cl topic ec' route',
       rw_fetching := remove1 (topic, RouteCache) (rw_fetching w)\<rparr>)"
| deliver: "a \<in> set (rw_ready w) \<Longrightarrow> take_pending (rw_client w) (fst a) = Some (cl, cbs) \<Longrightarrow>
     route_step hm w (w\<lparr>rw_client := cl, rw_ready := remove1 a (rw_ready w), rw_done := rw_done w @ cbs\<rparr>)"
| servers: "route_step hm w (w\<lparr>rw_client := (rw_client w)\<lparr>cl_name_server_resolver := r\<rparr>\<rparr>)"

definition route_start :: "'cb ClientImpl \<Rightarrow> 'cb route_world" where
  "route_start cl = \<lparr>rw_client = cl\<lparr>cl_topic_route_table := [], cl_inflight_route_requests := []\<rparr>,
     rw_waiting = [], rw_fetching = [], rw_ready = [], rw_asked = [], rw_done = [], rw_lost = []\<rparr>"

inductive route_reach :: "(string \<Rightarrow> string \<Rightarrow> byte list) \<Rightarrow> 'cb route_world \<Rightarrow> bool" for hm where
  route_init: "route_reach hm (route_start cl)"
| route_next: "route_reach hm w \<Longrightarrow> route_step hm w w' \<Longrightarrow> route_reach hm w'"

text \<open>The callbacks that wait in the table of inflight requests, and the answers on their way
  that will take those of one topic.\<close>

definition inflight_callbacks :: "('cb, 'z) ClientImpl_scheme \<Rightarrow> 'cb list" where
  "inflight_callbacks cl = concat (map snd (cl_inflight_route_requests cl))"

definition answers_due :: "'cb route_world \<Rightarrow> string \<Rightarrow> nat" where
  "answers_due w t = count_list (rw_fetching w) (t, TopicRouteReady) + count_list (map fst (rw_ready w)) t"

definition inflight :: "'cb route_world \<Rightarrow> string \<Rightarrow> bool" where
  "inflight w t = hm_contains id (cl_inflight_route_requests (rw_client w)) t"

definition accounted :: "'cb route_world \<Rightarrow> bool" where
  "accounted w \<longleftrightarrow> mset (rw_asked w) = mset (rw_done w) + mset (map snd (rw_waiting w))
     + mset (inflight_callbacks (rw_client w))"

definition one_answer :: "'cb route_world \<Rightarrow> bool" where
  "one_answer w \<longleftrightarrow> hm_inv id (cl_inflight_route_requests (rw_client w))
     \<and> (\<forall>t. answers_due w t = (if inflight w t \<and> t \<notin> set (rw_lost w) then 1 else 0))"

definition lost_stuck :: "'cb route_world \<Rightarrow> bool" where
  "lost_stuck w \<longleftrightarrow> (\<forall>t\<in>set (rw_lost w). inflight w t \<and> getRouteFor_lookup (rw_client w) t = None
     \<and> (t, TopicRouteReady) \<notin> set (rw_fetching w) \<and> (t, RouteCache) \<notin> set (rw_fetching w)
     \<and> t \<notin> fst ` set (rw_ready w))"

definition quiescent :: "'cb route_world \<Rightarrow> bool" where
  "quiescent w \<longleftrightarrow> rw_waiting w = [] \<and> rw_ready w = [] \<and> (\<forall>t. (t, TopicRouteReady) \<notin> set (rw_fetching w))"

section \<open>Lemmas: tables and counts\<close>

lemma count_list_append_single [simp]:
  "count_list (xs @ [x]) y = count_list xs y + (if x = y then 1 else 0)"
  by simp

lemma count_list_map_remove1:
  "a \<in> set xs \<Longrightarrow> count_list (map f (remove1 a xs)) y + (if f a = y then 1 else 0) = count_list (map f xs) y"
  by (induction xs) auto

lemma count_list_remove1:
  "a \<in> set xs \<Longrightarrow> count_list (remove1 a xs) y + (if a = y then 1 else 0) = count_list xs y"
  using count_list_map_remove1[of a xs id y] by simp

lemma mset_concat_hm_assign:
  "hm_find id m k = Some v \<Longrightarrow>
   mset (concat (map snd (hm_assign id k (v @ v') m))) = mset (concat (map snd m)) + mset v'"
  by (induction m) auto

lemma mset_concat_hm_emplace:
  "hm_find id m k = None \<Longrightarrow> mset (concat (map snd (hm_emplace id k v m))) = mset (concat (map snd m)) + mset v"
  by (simp add: hm_emplace_def hm_contains_def)

lemma mset_concat_hm_erase:
  assumes "hm_inv id m" "hm_find id m k = Some v"
  shows "mset (concat (map snd (hm_erase id k m))) + mset v = mset (concat (map snd m))"
  using assms
proof (induction m)
  case (Cons p m)
  obtain k' v' where p: "p = (k', v')" by (cases p)
  show ?case
  proof (cases "k' = k")
    case True
    then have "k \<notin> fst ` set m" using Cons.prems(1) p by (simp add: hm_inv_def)
    then have "hm_erase id k m = m" by (auto simp: hm_erase_def filter_id_conv)
    then show ?thesis using True Cons.prems p by (simp add: hm_erase_def)
  next
    case False
    have "mset (concat (map snd (hm_erase id k m))) + mset v = mset (concat (map snd m))"
      by (rule Cons.IH) (use Cons.prems False p in \<open>auto simp: hm_inv_def\<close>)
    then show ?thesis using False p by (simp add: hm_erase_def)
  qed
qed simp

lemma fetch_callback_frame [rmq_frame]:
  assumes "fetch_callback cl ec route = (cl', ec', route')"
  shows "cl_topic_route_table cl' = cl_topic_route_table cl"
    and "cl_inflight_route_requests cl' = cl_inflight_route_requests cl"
  using assms by (auto simp: fetch_callback_def split: if_splits)

lemma updateRouteCache_inflight [simp]:
  "cl_inflight_route_requests (updateRouteCache cl topic ec route) = cl_inflight_route_requests cl"
  by (simp add: updateRouteCache_def split: option.split)

lemma updateRouteCache_lookup:
  "getRouteFor_lookup cl t \<noteq> None \<Longrightarrow> getRouteFor_lookup (updateRouteCache cl topic ec route) t \<noteq> None"
  "t \<noteq> topic \<Longrightarrow> getRouteFor_lookup (updateRouteCache cl topic ec route) t = getRouteFor_lookup cl t"
  by (auto simp: updateRouteCache_def getRouteFor_lookup_def hm.find_emplace hm.find_assign split: option.split)

lemma enqueue_UseRoute:
  "getRouteFor_enqueue cl t cb = (cl', UseRoute r) \<Longrightarrow> cl' = cl \<and> getRouteFor_lookup cl t = Some r"
  by (auto simp: getRouteFor_enqueue_def getRouteFor_lookup_def split: option.splits)

lemma enqueue_JoinInflight:
  assumes "getRouteFor_enqueue cl t cb = (cl', JoinInflight)"
  obtains cbs where "hm_find id (cl_inflight_route_requests cl) t = Some cbs"
    "cl' = cl\<lparr>cl_inflight_route_requests := hm_assign id t (cbs @ [cb]) (cl_inflight_route_requests cl)\<rparr>"
  using assms by (auto simp: getRouteFor_enqueue_def split: option.splits)

lemma enqueue_QueryBackend:
  assumes "getRouteFor_enqueue cl t cb = (cl', QueryBackend)"
  shows "hm_find id (cl_inflight_route_requests cl) t = None" "getRouteFor_lookup cl t = None"
    "cl' = cl\<lparr>cl_inflight_route_requests := hm_emplace id t [cb] (cl_inflight_route_requests cl)\<rparr>"
  using assms by (auto simp: getRouteFor_enqueue_def getRouteFor_lookup_def split: option.splits)

lemma take_pending_SomeD:
  assumes "take_pending cl t = Some (cl', cbs)"
  shows "hm_find id (cl_inflight_route_requests cl) t = Some cbs"
    "cl' = cl\<lparr>cl_inflight_route_requests := hm_erase id t (cl_inflight_route_requests cl)\<rparr>"
  using assms by (auto simp: take_pending_def split: option.splits)

section \<open>Lemmas: invariants of route requests\<close>

text \<open>A refresh is on its way only for a topic in the cache, which never loses a topic.\<close>

definition refresh_cached :: "'cb route_world \<Rightarrow> bool" where
  "refresh_cached w \<longleftrightarrow> (\<forall>t. (t, RouteCache) \<in> set (rw_fetching w) \<longrightarrow> getRouteFor_lookup (rw_client w) t \<noteq> None)"

lemma set_remove1_in: "x \<in> set (remove1 y xs) \<Longrightarrow> x \<in> set xs"
  using notin_set_remove1 by fastforce

lemma refresh_cached_step [rmq_inv]:
  assumes "route_step hm w w'" "refresh_cached w"
  shows "refresh_cached w'"
  using assms
proof cases
  case (respond_ready t ec route cl ec' route')
  then show ?thesis using assms(2) updateRouteCache_lookup(1)[of cl] fetch_callback_frame(1)[OF respond_ready(3)]
    by (auto simp: refresh_cached_def getRouteFor_lookup_def dest: set_remove1_in)
next
  case (respond_cache t ec route cl ec' route')
  then show ?thesis using assms(2) updateRouteCache_lookup(1)[of cl] fetch_callback_frame(1)[OF respond_cache(3)]
    by (auto simp: refresh_cached_def getRouteFor_lookup_def dest: set_remove1_in)
next
  case (refresh t dt)
  then show ?thesis using assms(2)
    by (auto simp: refresh_cached_def updateRouteInfo_def getRouteFor_lookup_def hm_find_None split: if_splits)
next
  case (enqueue_join t cb cl)
  then show ?thesis using assms(2)
    by (auto simp: refresh_cached_def getRouteFor_lookup_def elim: enqueue_JoinInflight)
qed (auto simp: refresh_cached_def getRouteFor_lookup_def
      dest: enqueue_UseRoute enqueue_QueryBackend(3) take_pending_SomeD(2))

definition route_inv :: "'cb route_world \<Rightarrow> bool" where
  "route_inv w \<longleftrightarrow> one_answer w \<and> lost_stuck w \<and> refresh_cached w"

lemma route_inv_due: "route_inv w \<Longrightarrow> answers_due w t = (if inflight w t \<and> t \<notin> set (rw_lost w) then 1 else 0)"
  by (simp add: route_inv_def one_answer_def)

lemma route_inv_hm: "route_inv w \<Longrightarrow> hm_inv id (cl_inflight_route_requests (rw_client w))"
  by (simp add: route_inv_def one_answer_def)

lemma not_due:
  "answers_due w t = 0 \<Longrightarrow> (t, TopicRouteReady) \<notin> set (rw_fetching w) \<and> t \<notin> fst ` set (rw_ready w)"
  by (simp add: answers_due_def count_list_0_iff)

lemma due_ready: "a \<in> set (rw_ready w) \<Longrightarrow> answers_due w (fst a) > 0"
  by (auto simp: answers_due_def count_list_0_iff image_iff)

lemma lost_inflight: "route_inv w \<Longrightarrow> t \<in> set (rw_lost w) \<Longrightarrow> inflight w t"
  by (simp add: route_inv_def lost_stuck_def)

lemma lost_lookup: "route_inv w \<Longrightarrow> t \<in> set (rw_lost w) \<Longrightarrow> getRouteFor_lookup (rw_client w) t = None"
  by (simp add: route_inv_def lost_stuck_def)

lemma route_inv_step_client:
  assumes inv: "route_inv w"
    and same: "rw_fetching w' = rw_fetching w" "rw_ready w' = rw_ready w" "rw_lost w' = rw_lost w"
      "cl_topic_route_table (rw_client w') = cl_topic_route_table (rw_client w)"
    and hm: "hm_inv id (cl_inflight_route_requests (rw_client w'))"
      "\<And>t. inflight w' t = inflight w t"
  shows "route_inv w'"
  using assms
  by (auto simp: route_inv_def one_answer_def lost_stuck_def refresh_cached_def answers_due_def getRouteFor_lookup_def)

lemma inflight_hm_assign:
  "hm_find id m k = Some v \<Longrightarrow> hm_contains id (hm_assign id k u m) t = hm_contains id m t"
  by (auto simp: hm_contains_def hm.find_assign)

lemma route_inv_enqueue:
  assumes "route_inv w" "getRouteFor_enqueue (rw_client w) topic cb = (cl, QueryBackend)"
  shows "answers_due w topic = 0" "topic \<notin> set (rw_lost w)" "\<not> inflight w topic"
    "(topic, RouteCache) \<notin> set (rw_fetching w)"
proof -
  show i: "\<not> inflight w topic"
    using enqueue_QueryBackend(1)[OF assms(2)] by (simp add: inflight_def hm_contains_def)
  then show "topic \<notin> set (rw_lost w)" using lost_inflight[OF assms(1)] by blast
  show "answers_due w topic = 0" using route_inv_due[OF assms(1)] i by simp
  show "(topic, RouteCache) \<notin> set (rw_fetching w)"
    using assms(1) enqueue_QueryBackend(2)[OF assms(2)] by (auto simp: route_inv_def refresh_cached_def)
qed

lemma route_inv_respond:
  assumes inv: "route_inv w" and cb: "fetch_callback (rw_client w) ec route = (cl, ec', route')"
    and t: "(topic, k) \<in> set (rw_fetching w)"
    and w': "rw_client w' = updateRouteCache cl topic ec' route'" "rw_lost w' = rw_lost w"
      "rw_fetching w' = remove1 (topic, k) (rw_fetching w)"
      "rw_ready w' = rw_ready w @ (if k = TopicRouteReady then [(topic, ec', route')] else [])"
    and fresh: "refresh_cached w'"
  shows "route_inv w'"
proof -
  have infl: "inflight w' t = inflight w t" for t
    by (simp add: inflight_def w'(1) fetch_callback_frame(2)[OF cb])
  have due: "answers_due w' t = answers_due w t" for t
    using count_list_remove1[OF t, of "(t, TopicRouteReady)"] by (auto simp: answers_due_def w')
  have nl: "topic \<notin> set (rw_lost w)"
    using inv t by (cases k) (auto simp: route_inv_def lost_stuck_def)
  have look: "getRouteFor_lookup (rw_client w') t = None" if "t \<in> set (rw_lost w)" for t
  proof -
    have "t \<noteq> topic" using nl that by blast
    then have "getRouteFor_lookup (rw_client w') t = getRouteFor_lookup (rw_client w) t"
      using updateRouteCache_lookup(2)[of t topic cl ec' route'] fetch_callback_frame(1)[OF cb]
      by (simp add: w'(1) getRouteFor_lookup_def)
    then show ?thesis using lost_lookup[OF inv that] by simp
  qed
  have "lost_stuck w'"
    unfolding lost_stuck_def w'(2)
  proof
    fix t assume t: "t \<in> set (rw_lost w)"
    then have "t \<noteq> topic" using nl by blast
    then show "inflight w' t \<and> getRouteFor_lookup (rw_client w') t = None
        \<and> (t, TopicRouteReady) \<notin> set (rw_fetching w') \<and> (t, RouteCache) \<notin> set (rw_fetching w')
        \<and> t \<notin> fst ` set (rw_ready w')"
      using inv t look[OF t] infl[of t]
      by (auto simp: route_inv_def lost_stuck_def w'(3,4) dest: set_remove1_in)
  qed
  then show ?thesis
    using inv infl due fresh
    by (simp add: route_inv_def one_answer_def w'(1,2) fetch_callback_frame(2)[OF cb])
qed

lemma route_inv_deliver:
  assumes inv: "route_inv w" and a: "a \<in> set (rw_ready w)"
    and tp: "take_pending (rw_client w) (fst a) = Some (cl, cbs)"
    and w': "rw_client w' = cl" "rw_lost w' = rw_lost w" "rw_fetching w' = rw_fetching w"
      "rw_ready w' = remove1 a (rw_ready w)"
    and fresh: "refresh_cached w'"
  shows "route_inv w'"
proof -
  let ?t = "fst a"
  have d: "inflight w ?t \<and> ?t \<notin> set (rw_lost w)" "answers_due w ?t = 1"
    using due_ready[OF a] route_inv_due[OF inv, of ?t] by (auto split: if_splits)
  have infl: "inflight w' t = (inflight w t \<and> t \<noteq> ?t)" for t
    using route_inv_hm[OF inv] take_pending_SomeD(2)[OF tp]
    by (simp add: inflight_def hm_contains_def w'(1) hm.find_erase)
  have due: "answers_due w' t + (if t = ?t then 1 else 0) = answers_due w t" for t
    using count_list_map_remove1[OF a, of fst t] by (auto simp: answers_due_def w')
  have "answers_due w' t = (if inflight w' t \<and> t \<notin> set (rw_lost w') then 1 else 0)" for t
    using due[of t] infl[of t] route_inv_due[OF inv, of t] d by (auto simp: w'(2) split: if_splits)
  moreover have "hm_inv id (cl_inflight_route_requests (rw_client w'))"
    using hm.erase_invar[OF route_inv_hm[OF inv]] take_pending_SomeD(2)[OF tp] by (simp add: w'(1))
  moreover have "lost_stuck w'"
    using inv d infl take_pending_SomeD(2)[OF tp]
    by (auto simp: route_inv_def lost_stuck_def getRouteFor_lookup_def w' dest: set_remove1_in)
  ultimately show ?thesis using fresh by (simp add: route_inv_def one_answer_def)
qed

lemma route_inv_query:
  assumes inv: "route_inv w" and q: "getRouteFor_enqueue (rw_client w) topic cb = (cl, QueryBackend)"
    and w': "rw_client w' = cl" "rw_ready w' = rw_ready w"
      "rw_fetching w' = rw_fetching w @ (if issued then [(topic, TopicRouteReady)] else [])"
      "rw_lost w' = rw_lost w @ (if issued then [] else [topic])"
    and fresh: "refresh_cached w'"
  shows "route_inv w'"
proof -
  note e = route_inv_enqueue[OF inv q] and cl = enqueue_QueryBackend(3)[OF q]
  have infl: "inflight w' t = (inflight w t \<or> t = topic)" for t
    by (auto simp: inflight_def hm_contains_def w'(1) cl hm.find_emplace)
  have due: "answers_due w' t = answers_due w t + (if issued \<and> t = topic then 1 else 0)" for t
    by (auto simp: answers_due_def w')
  have "answers_due w' t = (if inflight w' t \<and> t \<notin> set (rw_lost w') then 1 else 0)" for t
    using due[of t] infl[of t] route_inv_due[OF inv, of t] e by (auto simp: w'(4))
  moreover have "hm_inv id (cl_inflight_route_requests (rw_client w'))"
    using hm.emplace_invar[OF route_inv_hm[OF inv]] by (simp add: w'(1) cl)
  moreover have "lost_stuck w'"
    using inv e infl not_due[OF e(1)] enqueue_QueryBackend(2)[OF q]
    by (auto simp: route_inv_def lost_stuck_def getRouteFor_lookup_def w' cl)
  ultimately show ?thesis using fresh by (simp add: route_inv_def one_answer_def)
qed

lemma route_inv_step [rmq_inv]:
  assumes step: "route_step hm w w'" and inv: "route_inv w"
  shows "route_inv w'"
proof -
  have fresh: "refresh_cached w'"
    using refresh_cached_step[OF step] inv by (simp add: route_inv_def)
  note hm = route_inv_hm[OF inv]
  show ?thesis
    using step
  proof cases
    case (enqueue_use t cb cl r)
    then show ?thesis using hm enqueue_UseRoute[OF enqueue_use(3)]
      by (intro route_inv_step_client[OF inv]) (auto simp: inflight_def)
  next
    case (enqueue_join t cb cl)
    show ?thesis
    proof (rule enqueue_JoinInflight[OF enqueue_join(3)])
      fix cbs assume "hm_find id (cl_inflight_route_requests (rw_client w)) t = Some cbs"
        "cl = (rw_client w)\<lparr>cl_inflight_route_requests :=
           hm_assign id t (cbs @ [cb]) (cl_inflight_route_requests (rw_client w))\<rparr>"
      then show ?thesis using enqueue_join(1) hm.assign_invar[OF hm]
        by (intro route_inv_step_client[OF inv]) (simp_all add: inflight_def inflight_hm_assign)
    qed
  next
    case (enqueue_query t cb cl dt)
    then show ?thesis
      by (intro route_inv_query[OF inv enqueue_query(3), where issued = True] fresh) simp_all
  next
    case (enqueue_lost t cb cl dt)
    then show ?thesis
      by (intro route_inv_query[OF inv enqueue_lost(3), where issued = False] fresh) simp_all
  next
    case (refresh t dt)
    have "getRouteFor_lookup (rw_client w) t \<noteq> None"
      using refresh(2) by (auto simp: updateRouteInfo_def getRouteFor_lookup_def hm_find_None split: if_splits)
    then have "t \<notin> set (rw_lost w)" using lost_lookup[OF inv] by auto
    then show ?thesis using inv fresh refresh
      by (auto simp: route_inv_def one_answer_def lost_stuck_def answers_due_def inflight_def)
  next
    case (respond_ready t ec route cl ec' route')
    then show ?thesis
      by (intro route_inv_respond[OF inv respond_ready(3,2)] fresh) simp_all
  next
    case (respond_cache t ec route cl ec' route')
    then show ?thesis
      by (intro route_inv_respond[OF inv respond_cache(3,2)] fresh) simp_all
  next
    case (deliver a cl cbs)
    then show ?thesis
      by (intro route_inv_deliver[OF inv deliver(2,3)] fresh) simp_all
  qed (use hm in \<open>intro route_inv_step_client[OF inv]; simp add: inflight_def\<close>)+
qed

lemma route_inv_reach: "route_reach hm w \<Longrightarrow> route_inv w"
proof (induction rule: route_reach.induct)
  case (route_init cl)
  show ?case
    by (simp add: route_inv_def one_answer_def lost_stuck_def refresh_cached_def route_start_def answers_due_def
        inflight_def hm_contains_def hm_inv_def)
next
  case (route_next w w')
  show ?case by (rule route_inv_step[OF route_next(2,3)])
qed

lemma mset_map_remove1: "a \<in> set xs \<Longrightarrow> mset (map f (remove1 a xs)) + {# f a #} = mset (map f xs)"
  by (induction xs) auto

lemma accounted_step [rmq_inv]:
  assumes step: "route_step hm w w'" and inv: "route_inv w" and acc: "accounted w"
  shows "accounted w'"
  using step
proof cases
  case (enqueue_use t cb cl r)
  then show ?thesis
    using acc mset_map_remove1[OF enqueue_use(2), of snd] enqueue_UseRoute[OF enqueue_use(3)]
    by (simp add: accounted_def)
next
  case (enqueue_join t cb cl)
  show ?thesis
  proof (rule enqueue_JoinInflight[OF enqueue_join(3)])
    fix cbs assume f: "hm_find id (cl_inflight_route_requests (rw_client w)) t = Some cbs"
      and cl: "cl = (rw_client w)\<lparr>cl_inflight_route_requests :=
         hm_assign id t (cbs @ [cb]) (cl_inflight_route_requests (rw_client w))\<rparr>"
    show ?thesis
      using enqueue_join(1) acc mset_map_remove1[OF enqueue_join(2), of snd] mset_concat_hm_assign[OF f, of "[cb]"] cl
      by (simp add: accounted_def inflight_callbacks_def)
  qed
next
  case (enqueue_query t cb cl dt)
  then show ?thesis
    using acc mset_map_remove1[OF enqueue_query(2), of snd] enqueue_QueryBackend[OF enqueue_query(3)]
      mset_concat_hm_emplace[of "cl_inflight_route_requests (rw_client w)" t "[cb]"]
    by (simp add: accounted_def inflight_callbacks_def)
next
  case (enqueue_lost t cb cl dt)
  then show ?thesis
    using acc mset_map_remove1[OF enqueue_lost(2), of snd] enqueue_QueryBackend[OF enqueue_lost(3)]
      mset_concat_hm_emplace[of "cl_inflight_route_requests (rw_client w)" t "[cb]"]
    by (simp add: accounted_def inflight_callbacks_def)
next
  case (deliver a cl cbs)
  then show ?thesis
    using acc take_pending_SomeD[OF deliver(3)] mset_concat_hm_erase[OF route_inv_hm[OF inv], of "fst a" cbs]
    by (simp add: accounted_def inflight_callbacks_def union_assoc union_commute)
next
  case (respond_ready t ec route cl ec' route')
  then show ?thesis using acc fetch_callback_frame(2)[OF respond_ready(3)]
    by (simp add: accounted_def inflight_callbacks_def)
next
  case (respond_cache t ec route cl ec' route')
  then show ?thesis using acc fetch_callback_frame(2)[OF respond_cache(3)]
    by (simp add: accounted_def inflight_callbacks_def)
qed (use acc in \<open>simp_all add: accounted_def inflight_callbacks_def\<close>)

lemma accounted_reach: "route_reach hm w \<Longrightarrow> accounted w"
proof (induction rule: route_reach.induct)
  case (route_init cl)
  show ?case by (simp add: accounted_def route_start_def inflight_callbacks_def)
next
  case (route_next w w')
  then show ?case using accounted_step route_inv_reach by blast
qed

lemma lost_step:
  assumes step: "route_step hm w w'" and inv: "route_inv w" and t: "t \<in> set (rw_lost w)"
    and f: "hm_find id (cl_inflight_route_requests (rw_client w)) t = Some cbs"
  shows "t \<in> set (rw_lost w') \<and>
    (\<exists>cbs'. hm_find id (cl_inflight_route_requests (rw_client w')) t = Some (cbs @ cbs'))"
  using step
proof cases
  case (enqueue_join topic cb cl)
  show ?thesis
    by (rule enqueue_JoinInflight[OF enqueue_join(3)])
       (use enqueue_join(1) t f in \<open>auto simp: hm.find_assign\<close>)
next
  case (deliver a cl cbs')
  have "fst a \<noteq> t"
    using due_ready[OF deliver(2)] route_inv_due[OF inv, of "fst a"] t by (auto split: if_splits)
  then show ?thesis
    using deliver(1) take_pending_SomeD(2)[OF deliver(3)] t f route_inv_hm[OF inv] by (simp add: hm.find_erase)
next
  case (enqueue_query topic cb cl dt)
  then show ?thesis using enqueue_QueryBackend[OF enqueue_query(3)] t f by (auto simp: hm.find_emplace)
next
  case (enqueue_lost topic cb cl dt)
  then show ?thesis using enqueue_QueryBackend[OF enqueue_lost(3)] t f by (auto simp: hm.find_emplace)
next
  case (respond_ready topic ec route cl ec' route')
  then show ?thesis using t f fetch_callback_frame(2)[OF respond_ready(3)] by simp
next
  case (respond_cache topic ec route cl ec' route')
  then show ?thesis using t f fetch_callback_frame(2)[OF respond_cache(3)] by simp
next
  case (enqueue_use topic cb cl r)
  then show ?thesis using t f enqueue_UseRoute[OF enqueue_use(3)] by simp
qed (use t f in simp_all)

lemma lost_steps:
  assumes "(route_step hm)\<^sup>*\<^sup>* w w'" "route_inv w" "t \<in> set (rw_lost w)"
    "hm_find id (cl_inflight_route_requests (rw_client w)) t = Some cbs"
  shows "route_inv w' \<and> t \<in> set (rw_lost w') \<and>
    (\<exists>cbs'. hm_find id (cl_inflight_route_requests (rw_client w')) t = Some (cbs @ cbs'))"
  using assms
proof (induction rule: rtranclp_induct)
  case base
  then show ?case by simp
next
  case (step y z)
  then obtain cbs' where y: "route_inv y" "t \<in> set (rw_lost y)"
    "hm_find id (cl_inflight_route_requests (rw_client y)) t = Some (cbs @ cbs')" by blast
  obtain ds where z: "t \<in> set (rw_lost z)"
    "hm_find id (cl_inflight_route_requests (rw_client z)) t = Some ((cbs @ cbs') @ ds)"
    using lost_step[OF step.hyps(2) y] by blast
  then have "hm_find id (cl_inflight_route_requests (rw_client z)) t = Some (cbs @ cbs' @ ds)" by simp
  then show ?case using z(1) route_inv_step[OF step.hyps(2) y(1)] by blast
qed

section \<open>A sample run\<close>

definition sample_client :: "NameServerResolver option \<Rightarrow> nat ClientImpl" where
  "sample_client r = (make_ClientImpl (make_ClientConfig ''g'') ''c'')\<lparr>cl_name_server_resolver := r\<rparr>"

definition sample_resolver :: NameServerResolver where
  "sample_resolver = \<lparr>ns_kind = DynamicResolver, ns_list = [''a:1''], ns_index = 0\<rparr>"

definition sample_hmac :: "string \<Rightarrow> string \<Rightarrow> byte list" where
  "sample_hmac k d = []"

definition sample_asked :: "NameServerResolver option \<Rightarrow> nat route_world" where
  "sample_asked r = (route_start (sample_client r))\<lparr>rw_asked := [7], rw_waiting := [(''T'', 7)]\<rparr>"

definition sample_fetching :: "nat route_world" where
  "sample_fetching = (sample_asked (Some sample_resolver))\<lparr>
     rw_client := (sample_client (Some sample_resolver))\<lparr>cl_inflight_route_requests := [(''T'', [7])]\<rparr>,
     rw_waiting := [], rw_fetching := [(''T'', TopicRouteReady)]\<rparr>"

definition sample_answered :: "nat route_world" where
  "sample_answered = sample_fetching\<lparr>
     rw_client := (rw_client sample_fetching)\<lparr>cl_topic_route_table := [(''T'', sample_route)]\<rparr>,
     rw_fetching := [], rw_ready := [(''T'', Success, Some sample_route)]\<rparr>"

definition sample_settled :: "nat route_world" where
  "sample_settled = sample_answered\<lparr>
     rw_client := (rw_client sample_answered)\<lparr>cl_inflight_route_requests := []\<rparr>,
     rw_ready := [], rw_done := [7]\<rparr>"

definition sample_abandoned :: "nat route_world" where
  "sample_abandoned = (sample_asked None)\<lparr>
     rw_client := (sample_client None)\<lparr>cl_inflight_route_requests := [(''T'', [7])]\<rparr>,
     rw_waiting := [], rw_lost := [''T'']\<rparr>"

lemmas sample_worlds = sample_client_def make_ClientImpl_def sample_asked_def route_start_def sample_fetching_def
  sample_answered_def sample_settled_def sample_abandoned_def

lemma sample_access_point: "\<exists>eps. setAccessPoint [''a:1''] = Some eps"
proof -
  have "setAccessPoint [''a:1''] \<noteq> None" by code_simp
  then show ?thesis by simp
qed

lemma sample_asked_reach: "route_reach hm (sample_asked r)"
  using route_next[OF route_init[of hm "sample_client r"], OF ask_miss[of _ "''T''" hm 7]]
  by (simp add: sample_worlds getRouteFor_lookup_def)

lemma sample_fetching_reach: "route_reach sample_hmac sample_fetching"
proof -
  have iss: "fetch_issued sample_hmac [] ((sample_client (Some sample_resolver))
      \<lparr>cl_inflight_route_requests := [(''T'', [7])]\<rparr>) ''T''"
    using sample_access_point
    by (auto simp: fetch_issued_def fetchRouteFor_def sample_resolver_def current_def resolve_def sample_worlds Let_def)
  show ?thesis
    using route_next[OF sample_asked_reach[of sample_hmac "Some sample_resolver"]
        enqueue_query[of "''T''" 7 _ _ sample_hmac "[]"]] iss
    by (simp add: sample_worlds getRouteFor_enqueue_def hm_emplace_def hm_contains_def)
qed

lemma sample_answered_reach: "route_reach sample_hmac sample_answered"
  using route_next[OF sample_fetching_reach respond_ready[of "''T''" _ Success "Some sample_route"]]
  by (simp add: sample_worlds fetch_callback_def updateRouteCache_def hm_emplace_def hm_contains_def sample_route_def)

lemma sample_settled_reach: "route_reach sample_hmac sample_settled"
  using route_next[OF sample_answered_reach deliver[of "(''T'', Success, Some sample_route)"]]
  by (simp add: sample_worlds take_pending_def hm_erase_def)

lemma sample_abandoned_reach: "route_reach sample_hmac sample_abandoned"
  using route_next[OF sample_asked_reach[of sample_hmac None]
      enqueue_lost[of "''T''" 7 _ _ sample_hmac "[]"]]
  by (simp add: sample_worlds getRouteFor_enqueue_def hm_emplace_def hm_contains_def fetch_issued_def fetchRouteFor_def)

section \<open>Properties\<close>

text \<open>C8. However route requests, refreshes, answers and changes of the name servers interleave, every
  callback handed to \<open>getRouteFor\<close> is in exactly one place: it has run once, or its thread has not
  entered the second critical section yet, or it waits for the route. When no request is on its way
  any more and every request found a name server, all callbacks have run, each exactly once.\<close>

theorem route_callbacks_run_once:
  assumes "route_reach hm w"
  shows "mset (rw_asked w) = mset (rw_done w) + mset (map snd (rw_waiting w))
      + mset (inflight_callbacks (rw_client w))
    \<and> (quiescent w \<and> rw_lost w = [] \<longrightarrow> mset (rw_done w) = mset (rw_asked w))"
proof -
  have acc: "accounted w" using accounted_reach[OF assms] .
  have inv: "route_inv w" using route_inv_reach[OF assms] .
  have "inflight_callbacks (rw_client w) = [] \<and> rw_waiting w = []" if q: "quiescent w" "rw_lost w = []"
  proof -
    have "answers_due w t = 0" for t
      using q(1) by (simp add: quiescent_def answers_due_def count_list_0_iff)
    then have "\<not> inflight w t" for t using route_inv_due[OF inv, of t] q(2) by (auto split: if_splits)
    then have "cl_inflight_route_requests (rw_client w) = []"
      by (cases "cl_inflight_route_requests (rw_client w)") (auto simp: inflight_def hm_contains_def hm_find_None)
    then show ?thesis using q(1) by (simp add: inflight_callbacks_def quiescent_def)
  qed
  then show ?thesis using acc by (auto simp: accounted_def)
qed

theorem route_callbacks_run_once_witness:
  "quiescent sample_settled \<and> mset (rw_done sample_settled) = mset (rw_asked sample_settled)"
proof -
  have "quiescent sample_settled \<and> rw_lost sample_settled = []" by (simp add: quiescent_def sample_worlds)
  then show ?thesis using route_callbacks_run_once[OF sample_settled_reach] by blast
qed

text \<open>For a topic at most one first request is on its way at any time, and the assertion of
  \<open>onTopicRouteReady\<close> holds: whenever an answer is about to take the pending callbacks, the topic
  has an entry in the table of inflight requests.\<close>

theorem route_ready_never_asserts:
  assumes "route_reach hm w" and "a \<in> set (rw_ready w)"
  shows "take_pending (rw_client w) (fst a) \<noteq> None \<and> answers_due w (fst a) = 1"
proof -
  have "inflight w (fst a) \<and> answers_due w (fst a) = 1"
    using due_ready[OF assms(2)] route_inv_due[OF route_inv_reach[OF assms(1)], of "fst a"]
    by (auto split: if_splits)
  then show ?thesis by (auto simp: take_pending_def inflight_def hm_contains_def)
qed

theorem route_ready_never_asserts_witness:
  "take_pending (rw_client sample_answered) ''T'' \<noteq> None"
  using route_ready_never_asserts[OF sample_answered_reach, of "(''T'', Success, Some sample_route)"]
  by (simp add: sample_answered_def)

text \<open>A first request that finds no name server is never answered: the topic keeps its entry in
  the table of inflight requests, so the callbacks in it, and those of all later requests for the
  topic, stay there in every continuation, even after name servers become known.\<close>

theorem route_request_lost_forever:
  assumes "route_reach hm w" and "t \<in> set (rw_lost w)" and "(route_step hm)\<^sup>*\<^sup>* w w'"
  shows "\<exists>cbs cbs'. hm_find id (cl_inflight_route_requests (rw_client w)) t = Some cbs
    \<and> hm_find id (cl_inflight_route_requests (rw_client w')) t = Some (cbs @ cbs')"
proof -
  have inv: "route_inv w" using route_inv_reach[OF assms(1)] .
  obtain cbs where f: "hm_find id (cl_inflight_route_requests (rw_client w)) t = Some cbs"
    using lost_inflight[OF inv assms(2)] by (auto simp: inflight_def hm_contains_def)
  show ?thesis using lost_steps[OF assms(3) inv assms(2) f] f by blast
qed

theorem route_request_lost_forever_witness:
  "\<exists>cbs. hm_find id (cl_inflight_route_requests
     ((rw_client sample_abandoned)\<lparr>cl_name_server_resolver := Some sample_resolver\<rparr>)) ''T'' = Some ([7] @ cbs)"
proof -
  have l: "''T'' \<in> set (rw_lost sample_abandoned)" by (simp add: sample_worlds)
  have s: "(route_step sample_hmac)\<^sup>*\<^sup>* sample_abandoned
      (sample_abandoned\<lparr>rw_client := (rw_client sample_abandoned)\<lparr>cl_name_server_resolver := Some sample_resolver\<rparr>\<rparr>)"
    by (rule r_into_rtranclp, rule servers)
  have f: "hm_find id (cl_inflight_route_requests (rw_client sample_abandoned)) ''T'' = Some [7]"
    by (simp add: sample_worlds)
  from route_request_lost_forever[OF sample_abandoned_reach l s] f show ?thesis by fastforce
qed

text \<open>Routes are compared without the addresses of their brokers: a route that differs from the
  cached one only in where the brokers are leaves the cache as it is, so the client keeps using the
  old endpoints.\<close>

theorem route_cache_keeps_old_addresses:
  assumes "getRouteFor_lookup cl topic = Some cached"
    and "rt_partitions fresh = map (\<lambda>p. p\<lparr>pt_broker := (pt_broker p)
           \<lparr>br_service_address := move (br_service_address (pt_broker p))\<rparr>\<rparr>) (rt_partitions cached)"
  shows "updateRouteCache cl topic Success (Some fresh) = cl"
proof -
  have "TopicRouteData_eq cached fresh"
    by (simp add: TopicRouteData_eq_def assms(2) list_all2_map2 Partition_eq_def Broker_eq_def list_all2_refl)
  then show ?thesis using assms(1) by (simp add: updateRouteCache_def getRouteFor_lookup_def)
qed

theorem route_cache_keeps_old_addresses_witness:
  "\<exists>moved. endpointsInUse ((rw_client sample_answered)\<lparr>cl_topic_route_table := [(''T'', moved)]\<rparr>)
      \<noteq> endpointsInUse (rw_client sample_answered)
    \<and> updateRouteCache (rw_client sample_answered) ''T'' Success (Some moved) = rw_client sample_answered"
proof -
  let ?move = "\<lambda>_. make_ServiceAddress IPv6 []"
  let ?moved = "sample_route\<lparr>rt_partitions := map (\<lambda>p. p\<lparr>pt_broker := (pt_broker p)
           \<lparr>br_service_address := ?move (br_service_address (pt_broker p))\<rparr>\<rparr>) (rt_partitions sample_route)\<rparr>"
  have "updateRouteCache (rw_client sample_answered) ''T'' Success (Some ?moved) = rw_client sample_answered"
    by (rule route_cache_keeps_old_addresses[where cached = sample_route and move = ?move])
       (simp_all add: sample_answered_def getRouteFor_lookup_def)
  moreover have "endpointsInUse ((rw_client sample_answered)\<lparr>cl_topic_route_table := [(''T'', ?moved)]\<rparr>)
      \<noteq> endpointsInUse (rw_client sample_answered)"
    by (simp add: endpointsInUse_def sample_answered_def sample_route_def sample_partition_def sample_broker_def
        Broker_serviceAddress_def address_def make_ServiceAddress_def)
  ultimately show ?thesis by blast
qed

text \<open>The multiplexing poll never stops: whatever the server answers, and also when the call
  fails, exactly one follow-up to the same server is issued, at once or after a delay, provided
  decoding a message returns.\<close>

theorem multiplexing_continues:
  assumes "\<And>d. wrap d \<noteq> None"
  shows "\<exists>effects. onMultiplexingResponse wrap verify cl bundle ok remote response = Some effects
    \<and> length (filter (\<lambda>e. (\<exists>r. e = MultiplexingCall remote r) \<or> e = MultiplexingLater remote) effects) = 1
    \<and> (\<forall>e\<in>set effects. (\<exists>r. e = MultiplexingCall remote r) \<or> e = MultiplexingLater remote
         \<or> (\<exists>t m. e = ResolveOrphan t m \<and> targetEndpoint m = remote))"
proof (cases response)
  case (VerifyMessageConsumptionRequest d)
  obtain r where "wrap d = Some r" using assms[of d] by blast
  then show ?thesis using VerifyMessageConsumptionRequest
    by (cases r) (simp_all add: onMultiplexingResponse_def Let_def)
next
  case (ResolveOrphanedTransactionRequest t d)
  obtain r where "wrap d = Some r" using assms[of d] by blast
  then show ?thesis using ResolveOrphanedTransactionRequest
    by (cases r) (simp_all add: onMultiplexingResponse_def Let_def setTargetEndpoint_def targetEndpoint_def update_attrs_def)
qed (simp_all add: onMultiplexingResponse_def Let_def)

theorem multiplexing_continues_witness:
  "\<exists>effects. onMultiplexingResponse (\<lambda>_. Some None) (\<lambda>_. []) (sample_client None)
      \<lparr>rb_client_id = ''c'', rb_resource_namespace = [], rb_group_type = SUBSCRIBER, rb_topics = [''T'']\<rparr>
      True ''a:1'' PollingResponse = Some effects
    \<and> length (filter (\<lambda>e. (\<exists>r. e = MultiplexingCall ''a:1'' r) \<or> e = MultiplexingLater ''a:1'') effects) = 1"
  using multiplexing_continues[of "\<lambda>_. Some None" "\<lambda>_. []" "sample_client None" _ True "''a:1''" PollingResponse]
  by blast

end
