(* ===== verification/Process_Queue.thy ===== *)
theory Process_Queue
  imports Signing
begin

text \<open>
  The local cache of one message queue (\<open>rocketmq/ProcessQueueImpl\<close>): messages
  fetched from a broker are cached, taken by the dispatcher, consumed and released.
  The queue counts cached and in-flight messages against a quota and, in broadcasting
  mode, keeps the offsets that are not yet released to know what may be committed.
  An operation that runs under a mutex is one step. The weak pointer to the consumer
  is an argument: None once the consumer is gone. A failed assertion is None.
\<close>

section \<open>What the queue asks of its consumer\<close>

record PushConsumer =
  pc_config :: ClientConfig
  pc_client_id :: string
  pc_active :: bool
  pc_maxCachedMessageQuantity :: u32
  pc_maxCachedMessageMemory :: u64
  pc_receiveBatchSize :: i32
  pc_receiveMessageAction :: ReceiveMessageAction
  pc_getFilterExpression :: "string \<Rightarrow> FilterExpression option"
  pc_messageModel :: MessageModel
  pc_consumeBatchSize :: u32
  pc_maxDeliveryAttempts :: i32
  pc_customExecutor :: bool

section \<open>State\<close>

record OffsetRecord =
  or_offset :: i64
  or_released :: bool

definition OffsetRecord_less :: "OffsetRecord \<Rightarrow> OffsetRecord \<Rightarrow> bool" where
  "OffsetRecord_less lhs rhs = (or_offset lhs < or_offset rhs)"

definition make_OffsetRecord :: "i64 \<Rightarrow> bool \<Rightarrow> OffsetRecord" where
  "make_OffsetRecord offset released = \<lparr>or_offset = offset, or_released = released\<rparr>"

text \<open>The set of offset records is ordered by offset.\<close>

record ProcessQueue =
  pq_message_queue :: MQMessageQueue
  pq_filter_expression :: FilterExpression
  pq_invisible_time :: duration
  pq_idle_since :: time_point
  pq_simple_name :: string
  pq_cached_messages :: "MQMessageExt list"
  pq_cached_message_quantity :: u32
  pq_cached_message_memory :: u64
  pq_next_offset :: i64
  pq_has_fifo_task_bound :: bool
  pq_offsets :: "OffsetRecord list"

definition make_ProcessQueue ::
  "MQMessageQueue \<Rightarrow> FilterExpression \<Rightarrow> time_point \<Rightarrow> ProcessQueue" where
  "make_ProcessQueue message_queue filter_expression now =
     \<lparr>pq_message_queue = message_queue, pq_filter_expression = filter_expression,
      pq_invisible_time = DEFAULT_INVISIBLE_TIME_ms, pq_idle_since = now,
      pq_simple_name = mq_simpleName message_queue, pq_cached_messages = [],
      pq_cached_message_quantity = 0, pq_cached_message_memory = 0, pq_next_offset = 0,
      pq_has_fifo_task_bound = False, pq_offsets = []\<rparr>"

section \<open>Operations\<close>

text \<open>Time points are in nanoseconds.\<close>

definition expired :: "ProcessQueue \<Rightarrow> time_point \<Rightarrow> bool" where
  "expired pq now = (now - pq_idle_since pq > PROCESS_QUEUE_EXPIRATION_THRESHOLD_ns)"

definition syncIdleState :: "ProcessQueue \<Rightarrow> time_point \<Rightarrow> ProcessQueue" where
  "syncIdleState pq now = pq\<lparr>pq_idle_since := now\<rparr>"

definition shouldThrottle :: "PushConsumer option \<Rightarrow> ProcessQueue \<Rightarrow> bool" where
  "shouldThrottle consumer pq = (case consumer of
       None \<Rightarrow> False
     | Some c \<Rightarrow>
         if pq_cached_message_quantity pq \<ge> pc_maxCachedMessageQuantity c then True
         else if pc_maxCachedMessageMemory c \<noteq> 0
           \<and> pq_cached_message_memory pq \<ge> pc_maxCachedMessageMemory c then True
         else False)"

definition hasPendingMessages :: "ProcessQueue \<Rightarrow> bool" where
  "hasPendingMessages pq = (pq_cached_messages pq \<noteq> [])"

text \<open>One round of the loop of \<open>cacheMessages\<close>: the queue, and the message that is
  acknowledged at once because the filter rejects it. (Copying a message into the
  cache resets its group and queue, which a received message does not carry.)\<close>

definition cache_message ::
  "PushConsumer \<Rightarrow> ProcessQueue \<Rightarrow> MQMessageExt \<Rightarrow> ProcessQueue \<times> MQMessageExt list" where
  "cache_message c pq message =
     (if \<not> accept (pq_filter_expression pq) message then (pq, [message])
      else
        let pq1 = pq\<lparr>pq_cached_messages := pq_cached_messages pq @ [message],
                     pq_cached_message_quantity := pq_cached_message_quantity pq + 1,
                     pq_cached_message_memory :=
                       pq_cached_message_memory pq + of_nat (length (getBody message))\<rparr>
        in if pc_messageModel c = BROADCASTING then
             let offs = pq_offsets pq1;
                 offs1 = (case oset_begin offs of
                     None \<Rightarrow> offs
                   | Some b \<Rightarrow> if length offs = 1 \<and> or_released b
                              then oset_erase or_offset (or_offset b) offs else offs)
             in (pq1\<lparr>pq_offsets := oset_emplace or_offset
                       (make_OffsetRecord (getQueueOffset message) False) offs1\<rparr>, [])
           else (pq1, []))"

fun cache_loop ::
  "PushConsumer \<Rightarrow> ProcessQueue \<Rightarrow> MQMessageExt list \<Rightarrow> ProcessQueue \<times> MQMessageExt list" where
  "cache_loop c pq [] = (pq, [])"
| "cache_loop c pq (m # ms) =
     (let (pq1, acks) = cache_message c pq m; (pq2, acks') = cache_loop c pq1 ms
      in (pq2, acks @ acks'))"

definition cacheMessages ::
  "PushConsumer option \<Rightarrow> ProcessQueue \<Rightarrow> MQMessageExt list \<Rightarrow> ProcessQueue \<times> MQMessageExt list"
where
  "cacheMessages consumer pq messages = (case consumer of
       None \<Rightarrow> (pq, [])
     | Some c \<Rightarrow> cache_loop c pq messages)"

text \<open>\<open>take\<close> appends to the output vector; the test \<open>0 == batch_size--\<close> counts a 32 bit
  word down.\<close>

fun take_loop ::
  "u32 \<Rightarrow> MQMessageExt list \<Rightarrow> MQMessageExt list \<Rightarrow> MQMessageExt list \<times> MQMessageExt list" where
  "take_loop batch_size out [] = (out, [])"
| "take_loop batch_size out (m # ms) =
     (if batch_size = 0 then (out, m # ms) else take_loop (batch_size - 1) (out @ [m]) ms)"

definition take_messages ::
  "ProcessQueue \<Rightarrow> u32 \<Rightarrow> MQMessageExt list \<Rightarrow> bool \<times> MQMessageExt list \<times> ProcessQueue" where
  "take_messages pq batch_size messages =
     (if pq_cached_messages pq = [] then (False, messages, pq)
      else let (out, rest) = take_loop batch_size messages (pq_cached_messages pq)
           in (rest \<noteq> [], out, pq\<lparr>pq_cached_messages := rest\<rparr>))"

definition committedOffset :: "ProcessQueue \<Rightarrow> i64 option" where
  "committedOffset pq = (case oset_begin (pq_offsets pq) of
       None \<Rightarrow> None
     | Some b \<Rightarrow> Some (if or_released b then or_offset b + 1 else or_offset b))"

definition release ::
  "PushConsumer option \<Rightarrow> ProcessQueue \<Rightarrow> u64 \<Rightarrow> i64 \<Rightarrow> ProcessQueue option" where
  "release consumer pq body_size offset = (case consumer of
       None \<Rightarrow> Some pq
     | Some c \<Rightarrow>
         let pq1 = pq\<lparr>pq_cached_message_quantity := pq_cached_message_quantity pq - 1,
                      pq_cached_message_memory := pq_cached_message_memory pq - body_size\<rparr>;
             offs = pq_offsets pq1
         in if pc_messageModel c = BROADCASTING then
              if length offs > 1 then
                Some (pq1\<lparr>pq_offsets := oset_erase or_offset offset offs\<rparr>)
              else (case oset_begin offs of
                  None \<Rightarrow> None
                | Some b \<Rightarrow>
                    if or_offset b = offset then
                      Some (pq1\<lparr>pq_offsets := oset_emplace or_offset
                        (make_OffsetRecord offset True) (oset_erase or_offset offset offs)\<rparr>)
                    else None)
            else Some pq1)"

text \<open>Releasing a message, the way both consume services call \<open>release\<close>.\<close>

definition release_message ::
  "PushConsumer option \<Rightarrow> ProcessQueue \<Rightarrow> MQMessageExt \<Rightarrow> ProcessQueue option" where
  "release_message consumer pq m =
     release consumer pq (of_nat (length (getBody m))) (getQueueOffset m)"

definition set_nextOffset :: "ProcessQueue \<Rightarrow> i64 \<Rightarrow> ProcessQueue option" where
  "set_nextOffset pq next_offset =
     (if next_offset \<ge> 0 then Some (pq\<lparr>pq_next_offset := next_offset\<rparr>) else None)"

definition bindFifoConsumeTask :: "ProcessQueue \<Rightarrow> bool \<times> ProcessQueue" where
  "bindFifoConsumeTask pq =
     (let (v, ok) = compare_exchange (pq_has_fifo_task_bound pq) False True
      in (ok, pq\<lparr>pq_has_fifo_task_bound := v\<rparr>))"

definition unbindFifoConsumeTask :: "ProcessQueue \<Rightarrow> bool \<times> ProcessQueue" where
  "unbindFifoConsumeTask pq =
     (let (v, ok) = compare_exchange (pq_has_fifo_task_bound pq) True False
      in (ok, pq\<lparr>pq_has_fifo_task_bound := v\<rparr>))"

section \<open>Requests\<close>

datatype FilterType = FilterType_TAG | FilterType_SQL

record ReceiveMessageRequest =
  rm_client_id :: string
  rm_group :: Resource
  rm_partition_id :: i32
  rm_partition_topic :: Resource
  rm_filter :: "FilterType \<times> string"
  rm_batch_size :: i32
  rm_resume :: bool
  rm_invisible_seconds :: int
  rm_invisible_nanos :: int

record PullMessageRequest =
  pl_client_id :: string
  pl_group :: Resource
  pl_partition_id :: i32
  pl_partition_topic :: Resource
  pl_offset :: i64
  pl_batch_size :: i32
  pl_filter :: "FilterType \<times> string"

definition wrapFilterExpression :: "PushConsumer \<Rightarrow> ProcessQueue \<Rightarrow> FilterType \<times> string" where
  "wrapFilterExpression c pq =
     (case pc_getFilterExpression c (mq_topic (pq_message_queue pq)) of
        Some e \<Rightarrow> (case fe_type e of
            TAG \<Rightarrow> (FilterType_TAG, fe_content e)
          | SQL92 \<Rightarrow> (FilterType_SQL, fe_content e))
      | None \<Rightarrow> (FilterType_TAG, ''*''))"

definition wrapPopMessageRequest :: "PushConsumer \<Rightarrow> ProcessQueue \<Rightarrow> ReceiveMessageRequest" where
  "wrapPopMessageRequest c pq =
     \<lparr>rm_client_id = pc_client_id c,
      rm_group = \<lparr>rs_namespace = cc_resource_namespace (pc_config c),
                  rs_name = cc_group_name (pc_config c)\<rparr>,
      rm_partition_id = mq_queue_id (pq_message_queue pq),
      rm_partition_topic = \<lparr>rs_namespace = cc_resource_namespace (pc_config c),
                            rs_name = mq_topic (pq_message_queue pq)\<rparr>,
      rm_filter = wrapFilterExpression c pq,
      rm_batch_size = pc_receiveBatchSize c,
      rm_resume = True,
      rm_invisible_seconds = pq_invisible_time pq div 1000,
      rm_invisible_nanos = (pq_invisible_time pq - pq_invisible_time pq div 1000 * 1000) * 1000000\<rparr>"

definition wrapPullMessageRequest :: "PushConsumer \<Rightarrow> ProcessQueue \<Rightarrow> PullMessageRequest" where
  "wrapPullMessageRequest c pq =
     \<lparr>pl_client_id = pc_client_id c,
      pl_group = \<lparr>rs_namespace = cc_resource_namespace (pc_config c),
                  rs_name = cc_group_name (pc_config c)\<rparr>,
      pl_partition_id = mq_queue_id (pq_message_queue pq),
      pl_partition_topic = \<lparr>rs_namespace = cc_resource_namespace (pc_config c),
                            rs_name = mq_topic (pq_message_queue pq)\<rparr>,
      pl_offset = pq_next_offset pq,
      pl_batch_size = pc_receiveBatchSize c,
      pl_filter = wrapFilterExpression c pq\<rparr>"

text \<open>The call that leaves for the client manager: target, headers, request, timeout.\<close>

datatype ReceiveCall =
    PopCall string metadata ReceiveMessageRequest duration
  | PullCall string metadata PullMessageRequest duration

definition popMessage ::
  "(string \<Rightarrow> string \<Rightarrow> byte list) \<Rightarrow> string \<Rightarrow> time_point \<Rightarrow> PushConsumer \<Rightarrow> ProcessQueue \<Rightarrow>
   ProcessQueue \<times> ReceiveCall list" where
  "popMessage hmac_sha1 date_time now c pq =
     (syncIdleState pq now,
      [PopCall (mq_service_address (pq_message_queue pq)) (sign hmac_sha1 date_time (pc_config c) [])
         (wrapPopMessageRequest c pq) (cc_long_polling_timeout (pc_config c))])"

text \<open>A pull request is not signed.\<close>

definition pullMessage ::
  "time_point \<Rightarrow> PushConsumer \<Rightarrow> ProcessQueue \<Rightarrow> ProcessQueue \<times> ReceiveCall list" where
  "pullMessage now c pq =
     (syncIdleState pq now,
      [PullCall (mq_service_address (pq_message_queue pq)) []
         (wrapPullMessageRequest c pq) (cc_long_polling_timeout (pc_config c))])"

definition pq_receiveMessage ::
  "(string \<Rightarrow> string \<Rightarrow> byte list) \<Rightarrow> string \<Rightarrow> time_point \<Rightarrow> PushConsumer option \<Rightarrow> ProcessQueue \<Rightarrow>
   ProcessQueue \<times> ReceiveCall list" where
  "pq_receiveMessage hmac_sha1 date_time now consumer pq = (case consumer of
       None \<Rightarrow> (pq, [])
     | Some c \<Rightarrow> (case pc_receiveMessageAction c of
           POLLING \<Rightarrow> popMessage hmac_sha1 date_time now c pq
         | PULL \<Rightarrow> pullMessage now c pq))"

section \<open>Runs of a queue\<close>

text \<open>
  The life of a queue: batches arrive from the broker, a dispatcher takes messages,
  and each taken message is released once, in any order. The ghost fields record the
  messages that were taken and not yet released, and the offset released last.
\<close>

record pq_world =
  w_pq :: ProcessQueue
  w_inflight :: "MQMessageExt list"
  w_last_released :: "i64 option"

datatype pq_event = Cache "MQMessageExt list" | Take u32 | Release MQMessageExt

definition outstanding :: "pq_world \<Rightarrow> MQMessageExt list" where
  "outstanding w = w_inflight w @ pq_cached_messages (w_pq w)"

abbreviation pq_accepts :: "ProcessQueue \<Rightarrow> MQMessageExt \<Rightarrow> bool" where
  "pq_accepts pq \<equiv> accept (pq_filter_expression pq)"

definition fresh_world :: "MQMessageQueue \<Rightarrow> FilterExpression \<Rightarrow> time_point \<Rightarrow> pq_world" where
  "fresh_world q fe now =
     \<lparr>w_pq = make_ProcessQueue q fe now, w_inflight = [], w_last_released = None\<rparr>"

inductive pq_step :: "PushConsumer \<Rightarrow> pq_world \<Rightarrow> pq_event \<Rightarrow> pq_world \<Rightarrow> bool" for c where
  step_cache: "cacheMessages (Some c) (w_pq w) ms = (pq', acks) \<Longrightarrow>
     pq_step c w (Cache ms) (w\<lparr>w_pq := pq'\<rparr>)"
| step_take: "take_messages (w_pq w) n [] = (has_more, ms, pq') \<Longrightarrow>
     pq_step c w (Take n) (w\<lparr>w_pq := pq', w_inflight := w_inflight w @ ms\<rparr>)"
| step_release: "m \<in> set (w_inflight w) \<Longrightarrow> release_message (Some c) (w_pq w) m = Some pq' \<Longrightarrow>
     pq_step c w (Release m) (w\<lparr>w_pq := pq', w_inflight := remove1 m (w_inflight w),
       w_last_released := Some (getQueueOffset m)\<rparr>)"

text \<open>Worlds reached from a fresh queue when every event satisfies the guard \<open>G\<close>.\<close>

inductive pq_reach :: "(pq_world \<Rightarrow> pq_event \<Rightarrow> bool) \<Rightarrow> PushConsumer \<Rightarrow> pq_world \<Rightarrow> bool"
  for G c where
  reach_init: "pq_reach G c (fresh_world q fe now)"
| reach_step: "pq_reach G c w \<Longrightarrow> G w e \<Longrightarrow> pq_step c w e w' \<Longrightarrow> pq_reach G c w'"

text \<open>What a broker promises about one partition: it does not deliver an offset again
  while the message is outstanding.\<close>

definition fresh_offsets :: "pq_world \<Rightarrow> pq_event \<Rightarrow> bool" where
  "fresh_offsets w e = (case e of
       Cache ms \<Rightarrow> distinct (map getQueueOffset
         (outstanding w @ filter (pq_accepts (w_pq w)) ms))
     | _ \<Rightarrow> True)"

text \<open>Delivery in offset order: nothing arrives below the committed offset.\<close>

definition in_order :: "pq_world \<Rightarrow> pq_event \<Rightarrow> bool" where
  "in_order w e = (fresh_offsets w e \<and> (case e of
       Cache ms \<Rightarrow> (\<forall>m \<in> set ms. case committedOffset (w_pq w) of
           None \<Rightarrow> True | Some k \<Rightarrow> k \<le> getQueueOffset m)
     | _ \<Rightarrow> True))"

section \<open>Invariants\<close>

definition quota_inv :: "pq_world \<Rightarrow> bool" where
  "quota_inv w =
     (pq_cached_message_quantity (w_pq w) = of_nat (length (outstanding w))
      \<and> pq_cached_message_memory (w_pq w) =
          of_nat (sum_list (map (length \<circ> getBody) (outstanding w))))"

definition unreleased :: "MQMessageExt \<Rightarrow> OffsetRecord" where
  "unreleased m = make_OffsetRecord (getQueueOffset m) False"

definition offsets_inv :: "ProcessQueue \<Rightarrow> MQMessageExt list \<Rightarrow> i64 option \<Rightarrow> bool" where
  "offsets_inv pq out lst =
     (oset_inv or_offset (pq_offsets pq) \<and> distinct (map getQueueOffset out)
      \<and> (if out = [] then
           pq_offsets pq = (case lst of None \<Rightarrow> [] | Some k \<Rightarrow> [make_OffsetRecord k True])
         else set (pq_offsets pq) = unreleased ` set out))"

section \<open>Lemmas on the operations\<close>

lemma take_loop_eq: "take_loop n out ms = (out @ take (unat n) ms, drop (unat n) ms)"
proof (induction ms arbitrary: n out)
  case (Cons m ms)
  show ?case
  proof (cases "n = 0")
    case False
    then have "unat n = Suc (unat (n - 1))" by (simp add: unat_minus_one unat_gt_0)
    then show ?thesis using False Cons by simp
  qed simp
qed simp

lemma take_messages_eq:
  "take_messages pq n out =
     (drop (unat n) (pq_cached_messages pq) \<noteq> [], out @ take (unat n) (pq_cached_messages pq),
      pq\<lparr>pq_cached_messages := drop (unat n) (pq_cached_messages pq)\<rparr>)"
  by (auto simp: take_messages_def take_loop_eq)

lemma cache_message_simps:
  "pq_cached_messages (fst (cache_message c pq m)) =
     pq_cached_messages pq @ filter (pq_accepts pq) [m]"
  "pq_filter_expression (fst (cache_message c pq m)) = pq_filter_expression pq"
  "snd (cache_message c pq m) = filter (Not \<circ> pq_accepts pq) [m]"
  "pq_cached_message_quantity (fst (cache_message c pq m)) =
     pq_cached_message_quantity pq + of_nat (length (filter (pq_accepts pq) [m]))"
  "pq_cached_message_memory (fst (cache_message c pq m)) = pq_cached_message_memory pq
     + of_nat (sum_list (map (length \<circ> getBody) (filter (pq_accepts pq) [m])))"
  by (simp_all add: cache_message_def Let_def)

lemma cache_loop_simps:
  "pq_cached_messages (fst (cache_loop c pq ms)) =
     pq_cached_messages pq @ filter (pq_accepts pq) ms"
  "pq_filter_expression (fst (cache_loop c pq ms)) = pq_filter_expression pq"
  "snd (cache_loop c pq ms) = filter (Not \<circ> pq_accepts pq) ms"
  "pq_cached_message_quantity (fst (cache_loop c pq ms)) =
     pq_cached_message_quantity pq + of_nat (length (filter (pq_accepts pq) ms))"
  "pq_cached_message_memory (fst (cache_loop c pq ms)) = pq_cached_message_memory pq
     + of_nat (sum_list (map (length \<circ> getBody) (filter (pq_accepts pq) ms)))"
  by (induction ms arbitrary: pq)
    (simp_all add: case_prod_unfold Let_def cache_message_simps)

lemma release_quota:
  assumes "release (Some c) pq bytes offset = Some pq'"
  shows "pq_cached_message_quantity pq' = pq_cached_message_quantity pq - 1"
    and "pq_cached_message_memory pq' = pq_cached_message_memory pq - bytes"
    and "pq_cached_messages pq' = pq_cached_messages pq"
    and "pq_filter_expression pq' = pq_filter_expression pq"
  using assms by (auto simp: release_def Let_def split: if_splits option.splits)

inductive_cases pq_step_CacheE: "pq_step c w (Cache ms) w'"
inductive_cases pq_step_TakeE: "pq_step c w (Take n) w'"
inductive_cases pq_step_ReleaseE: "pq_step c w (Release m) w'"

section \<open>Quota\<close>

lemma take_outstanding:
  assumes "w' = w\<lparr>w_pq := pq', w_inflight := w_inflight w @ ms\<rparr>"
    and "take_messages (w_pq w) n [] = (has_more, ms, pq')"
  shows "outstanding w' = outstanding w"
  using assms by (auto simp: outstanding_def take_messages_eq)

lemma quota_inv_fresh: "quota_inv (fresh_world q fe now)"
  by (simp add: quota_inv_def fresh_world_def outstanding_def make_ProcessQueue_def)

lemma quota_inv_step [rmq_inv]:
  assumes "pq_step c w e w'" "quota_inv w"
  shows "quota_inv w'"
  using assms
proof (cases rule: pq_step.cases)
  case (step_cache ms pq' acks)
  then have "pq' = fst (cache_loop c (w_pq w) ms)" by (simp add: cacheMessages_def)
  then show ?thesis using step_cache assms(2)
    by (simp add: quota_inv_def outstanding_def cache_loop_simps)
next
  case (step_take n has_more ms pq')
  then have "outstanding w' = outstanding w" by (simp add: take_outstanding)
  then show ?thesis using step_take assms(2) by (auto simp: quota_inv_def take_messages_eq)
next
  case (step_release m pq')
  note facts = release_quota[OF step_release(4)[unfolded release_message_def]]
  have "length (outstanding w) = Suc (length (outstanding w'))"
    using step_release length_remove1_in[of m "w_inflight w"] facts(3)
    by (simp add: outstanding_def)
  moreover have "sum_list (map (length \<circ> getBody) (outstanding w)) =
      sum_list (map (length \<circ> getBody) (outstanding w')) + length (getBody m)"
    using step_release sum_list_map_remove1[of m "w_inflight w" "length \<circ> getBody"] facts(3)
    by (simp add: outstanding_def)
  ultimately show ?thesis using assms(2) step_release(2) facts(1,2)
    by (simp add: quota_inv_def)
qed

lemma quota_inv_reach: "pq_reach G c w \<Longrightarrow> quota_inv w"
  by (induction rule: pq_reach.induct) (auto intro: quota_inv_fresh quota_inv_step)

section \<open>Offsets in broadcasting mode\<close>

lemma or_offset_unreleased [simp]: "or_offset (unreleased m) = getQueueOffset m"
  "or_released (unreleased m) = False"
  by (simp_all add: unreleased_def make_OffsetRecord_def)

lemma make_OffsetRecord_simps [simp]:
  "or_offset (make_OffsetRecord k r) = k" "or_released (make_OffsetRecord k r) = r"
  by (simp_all add: make_OffsetRecord_def)

lemma offsets_inv_length:
  assumes "offsets_inv pq out lst" "out \<noteq> []"
  shows "length (pq_offsets pq) = length out"
proof -
  have "inj_on unreleased (set out)" "distinct out"
    using assms(1) by (auto simp: offsets_inv_def distinct_map inj_on_def unreleased_def make_OffsetRecord_def)
  then have "card (unreleased ` set out) = length out" by (simp add: card_image distinct_card)
  moreover have "length (pq_offsets pq) = card (set (pq_offsets pq))"
    using assms(1) oset_inv_distinct[of or_offset "pq_offsets pq"]
    by (simp add: offsets_inv_def distinct_card)
  ultimately show ?thesis using assms by (simp add: offsets_inv_def)
qed

lemma offsets_begin:
  assumes "offsets_inv pq out lst" "out \<noteq> []"
  obtains m where "m \<in> set out" "oset_begin (pq_offsets pq) = Some (unreleased m)"
    "\<forall>z \<in> set out. getQueueOffset m \<le> getQueueOffset z"
proof -
  have inv: "oset_inv or_offset (pq_offsets pq)" and S: "set (pq_offsets pq) = unreleased ` set out"
    using assms by (simp_all add: offsets_inv_def)
  obtain b where b: "oset_begin (pq_offsets pq) = Some b"
    using assms(2) S by (cases "pq_offsets pq") auto
  then show thesis using that os.first_Some[OF inv b] S by auto
qed

lemma cache_message_offsets:
  assumes inv: "offsets_inv pq out lst" and "pc_messageModel c = BROADCASTING"
    and acc: "pq_accepts pq m" and new: "getQueueOffset m \<notin> getQueueOffset ` set out"
  shows "offsets_inv (fst (cache_message c pq m)) (out @ [m]) lst"
proof (cases "out = []")
  case True
  then have "pq_offsets (fst (cache_message c pq m)) = [unreleased m]"
    using assms by (auto simp: cache_message_def Let_def offsets_inv_def oset_erase_def
        unreleased_def split: option.splits)
  then show ?thesis using True by (simp add: offsets_inv_def oset_inv_def)
next
  case False
  then obtain b where b: "b \<in> set out" "oset_begin (pq_offsets pq) = Some (unreleased b)"
    using offsets_begin[OF inv] by metis
  have "pq_offsets (fst (cache_message c pq m)) = oset_emplace or_offset (unreleased m) (pq_offsets pq)"
    using assms b by (simp add: cache_message_def Let_def unreleased_def)
  moreover have "or_offset ` set (pq_offsets pq) = getQueueOffset ` set out"
    using inv False by (auto simp: offsets_inv_def image_image)
  ultimately show ?thesis using inv False new
    by (simp add: offsets_inv_def os.emplace_invar os.emplace_elems)
qed

lemma cache_loop_offsets:
  assumes "offsets_inv pq out lst" "pc_messageModel c = BROADCASTING"
    and "distinct (map getQueueOffset (out @ filter (pq_accepts pq) ms))"
  shows "offsets_inv (fst (cache_loop c pq ms)) (out @ filter (pq_accepts pq) ms) lst"
  using assms
proof (induction ms arbitrary: pq out)
  case (Cons m ms)
  show ?case
  proof (cases "pq_accepts pq m")
    case True
    then have "offsets_inv (fst (cache_message c pq m)) (out @ [m]) lst"
      using Cons.prems by (intro cache_message_offsets) auto
    then show ?thesis using Cons.IH[of "fst (cache_message c pq m)" "out @ [m]"] Cons.prems True
      by (simp add: case_prod_unfold Let_def cache_message_simps)
  next
    case False
    then have "cache_message c pq m = (pq, [m])" by (simp add: cache_message_def)
    then show ?thesis using Cons False by (simp add: case_prod_unfold Let_def)
  qed
qed simp

lemma release_offsets:
  assumes inv: "offsets_inv pq out lst" and c: "pc_messageModel c = BROADCASTING" and m: "m \<in> set out"
  shows "\<exists>pq'. release_message (Some c) pq m = Some pq'
           \<and> offsets_inv pq' (remove1 m out) (Some (getQueueOffset m))"
proof -
  have ne: "out \<noteq> []" using m by auto
  note len = offsets_inv_length[OF inv ne]
  have S: "set (pq_offsets pq) = unreleased ` set out" and O: "oset_inv or_offset (pq_offsets pq)"
    and D: "distinct (map getQueueOffset out)"
    using inv ne by (simp_all add: offsets_inv_def)
  show ?thesis
  proof (cases "length out > 1")
    case True
    then have "remove1 m out \<noteq> []" using length_remove1_in[OF m] by auto
    moreover have "set (oset_erase or_offset (getQueueOffset m) (pq_offsets pq)) =
        unreleased ` set (remove1 m out)"
      using D m by (auto simp: os.erase_elems[OF O] S distinct_map inj_on_def)
    ultimately show ?thesis using True c D len
      by (simp add: release_message_def release_def Let_def offsets_inv_def os.erase_invar[OF O]
          distinct_map_remove1I)
  next
    case False
    then have "out = [m]" using m by (cases out; cases "tl out") auto
    moreover from this S len have "pq_offsets pq = [unreleased m]"
      by (cases "pq_offsets pq") auto
    ultimately show ?thesis using c
      by (simp add: release_message_def release_def Let_def offsets_inv_def oset_erase_def oset_inv_def)
  qed
qed

definition world_offsets_inv :: "pq_world \<Rightarrow> bool" where
  "world_offsets_inv w = offsets_inv (w_pq w) (outstanding w) (w_last_released w)"

lemma offsets_inv_cong:
  "pq_offsets pq = pq_offsets pq' \<Longrightarrow> offsets_inv pq out lst = offsets_inv pq' out lst"
  by (simp add: offsets_inv_def)

lemma world_offsets_inv_step [rmq_inv]:
  assumes "pq_step c w e w'" "world_offsets_inv w" "fresh_offsets w e"
    and c: "pc_messageModel c = BROADCASTING"
  shows "world_offsets_inv w'"
  using assms(1)
proof (cases rule: pq_step.cases)
  case (step_cache ms pq' acks)
  then have "pq' = fst (cache_loop c (w_pq w) ms)" by (simp add: cacheMessages_def)
  then show ?thesis
    using step_cache assms cache_loop_offsets[of "w_pq w" "outstanding w" "w_last_released w" c ms]
    by (simp add: world_offsets_inv_def outstanding_def fresh_offsets_def cache_loop_simps)
next
  case (step_take n has_more ms pq')
  then have "outstanding w' = outstanding w" by (simp add: take_outstanding)
  moreover have "pq_offsets (w_pq w') = pq_offsets (w_pq w)"
    using step_take by (auto simp: take_messages_eq)
  ultimately show ?thesis using step_take assms(2)
    by (simp add: world_offsets_inv_def offsets_inv_def)
next
  case (step_release m pq')
  then have "outstanding w' = remove1 m (outstanding w)"
    using release_quota(3)[OF step_release(4)[unfolded release_message_def]]
    by (simp add: outstanding_def remove1_append)
  moreover have "m \<in> set (outstanding w)" using step_release by (simp add: outstanding_def)
  ultimately show ?thesis using release_offsets[OF assms(2)[unfolded world_offsets_inv_def] c, of m] step_release
    by (simp add: world_offsets_inv_def)
qed

lemma world_offsets_inv_fresh: "world_offsets_inv (fresh_world q fe now)"
  by (simp add: world_offsets_inv_def fresh_world_def outstanding_def make_ProcessQueue_def
      offsets_inv_def)

lemma world_offsets_inv_reach:
  assumes "pq_reach G c w" "pc_messageModel c = BROADCASTING"
    and "\<And>w e. G w e \<Longrightarrow> fresh_offsets w e"
  shows "world_offsets_inv w"
  using assms by (induction rule: pq_reach.induct)
    (auto intro: world_offsets_inv_fresh world_offsets_inv_step)

text \<open>The committed offset is determined by the outstanding messages.\<close>

lemma committedOffset_eq:
  assumes "world_offsets_inv w"
  shows "committedOffset (w_pq w) =
     (if outstanding w = [] then map_option (\<lambda>k. k + 1) (w_last_released w)
      else Some (Min (getQueueOffset ` set (outstanding w))))"
proof (cases "outstanding w = []")
  case True
  then show ?thesis using assms
    by (auto simp: world_offsets_inv_def offsets_inv_def committedOffset_def split: option.splits)
next
  case False
  then obtain m where "m \<in> set (outstanding w)" "oset_begin (pq_offsets (w_pq w)) = Some (unreleased m)"
    "\<forall>z \<in> set (outstanding w). getQueueOffset m \<le> getQueueOffset z"
    using offsets_begin[OF assms[unfolded world_offsets_inv_def]] by metis
  then show ?thesis using False
    by (simp add: committedOffset_def) (intro Min_eqI[symmetric], auto)
qed

lemma pq_step_outstanding:
  assumes "pq_step c w e w'"
  shows "outstanding w' = (case e of
      Cache ms \<Rightarrow> outstanding w @ filter (pq_accepts (w_pq w)) ms
    | Take n \<Rightarrow> outstanding w
    | Release m \<Rightarrow> remove1 m (outstanding w))"
  using assms
proof (cases rule: pq_step.cases)
  case (step_cache ms pq' acks)
  then have "pq' = fst (cache_loop c (w_pq w) ms)" by (simp add: cacheMessages_def)
  then show ?thesis using step_cache by (simp add: outstanding_def cache_loop_simps)
next
  case (step_take n has_more ms pq')
  then show ?thesis by (simp add: take_outstanding)
next
  case (step_release m pq')
  then show ?thesis using release_quota(3)[OF step_release(4)[unfolded release_message_def]]
    by (simp add: outstanding_def remove1_append)
qed

lemma Min_image_superset:
  fixes f :: "'a \<Rightarrow> 'b::linorder"
  assumes "finite A" "finite B" "A \<noteq> {}" "A \<subseteq> B"
  shows "Min (f ` B) \<le> Min (f ` A)"
  using assms by (intro Min_antimono) auto

section \<open>A sample queue\<close>

text \<open>A message, a broadcasting consumer and a queue with two cached messages, on which
  the properties below are instantiated.\<close>

definition sample_message :: "i64 \<Rightarrow> MQMessageExt" where
  "sample_message k = setQueueOffset
     (make_MQMessage IDENTITY NORMAL 0 ''host'' ''id'' ''topic'' ''tag'' [] ''body'') k"

definition sample_consumer :: "MessageModel \<Rightarrow> PushConsumer" where
  "sample_consumer mm =
     \<lparr>pc_config = sample_config ''group'', pc_client_id = ''client'', pc_active = True,
      pc_maxCachedMessageQuantity = DEFAULT_CACHED_MESSAGE_COUNT,
      pc_maxCachedMessageMemory = DEFAULT_CACHED_MESSAGE_MEMORY, pc_receiveBatchSize = 32,
      pc_receiveMessageAction = POLLING, pc_getFilterExpression = (\<lambda>_. None),
      pc_messageModel = mm, pc_consumeBatchSize = 1, pc_maxDeliveryAttempts = 16,
      pc_customExecutor = False\<rparr>"

definition sample_filter :: FilterExpression where
  "sample_filter = make_FilterExpression ''*'' TAG 0"

definition sample_queue :: MQMessageQueue where
  "sample_queue = make_MQMessageQueue ''topic'' ''broker'' 0"

definition sample_start :: pq_world where
  "sample_start = fresh_world sample_queue sample_filter 0"

definition sample_batch :: "MQMessageExt list" where
  "sample_batch = [sample_message 7, sample_message 9]"

definition sample_world :: "MessageModel \<Rightarrow> pq_world" where
  "sample_world mm = sample_start
     \<lparr>w_pq := fst (cacheMessages (Some (sample_consumer mm)) (w_pq sample_start) sample_batch)\<rparr>"

lemma sample_simps [simp]:
  "getQueueOffset (sample_message k) = k"
  "getBody (sample_message k) = ''body''"
  "accept sample_filter m"
  "pc_messageModel (sample_consumer mm) = mm"
  "w_inflight sample_start = []" "w_last_released sample_start = None"
  "pq_cached_messages (w_pq sample_start) = []"
  "pq_filter_expression (w_pq sample_start) = sample_filter"
  "committedOffset (w_pq sample_start) = None"
  by (simp_all add: sample_message_def setQueueOffset_def update_attrs_def make_MQMessage_def
      getQueueOffset_def getBody_def sample_filter_def accept_def make_FilterExpression_def
      sample_consumer_def sample_start_def fresh_world_def make_ProcessQueue_def committedOffset_def)

lemma sample_outstanding [simp]: "outstanding (sample_world mm) = sample_batch"
  by (simp add: sample_world_def outstanding_def cacheMessages_def cache_loop_simps)

lemma sample_step: "pq_step (sample_consumer mm) sample_start (Cache sample_batch) (sample_world mm)"
  unfolding sample_world_def by (rule step_cache[OF prod.collapse[symmetric]])

lemma sample_reach:
  "G sample_start (Cache sample_batch) \<Longrightarrow> pq_reach G (sample_consumer mm) (sample_world mm)"
  using reach_step[OF _ _ sample_step] reach_init unfolding sample_start_def by blast

lemma sample_in_order: "in_order sample_start (Cache sample_batch)"
  by (simp add: in_order_def fresh_offsets_def outstanding_def sample_batch_def)

lemma sample_fresh: "fresh_offsets sample_start (Cache sample_batch)"
  using sample_in_order by (simp add: in_order_def)

lemma sample_cached: "pq_cached_messages (w_pq (sample_world mm)) = sample_batch"
  using sample_outstanding[of mm] by (simp add: outstanding_def sample_world_def)

section \<open>Properties\<close>

text \<open>C1. Quota accounting is exact: in every state a queue can reach, whatever the
  order in which messages are cached, taken and released, the 32 bit message counter
  and the 64 bit memory counter equal the number of messages cached or in flight and
  the bytes of their bodies, as long as these fit the counters.\<close>

theorem quota_exact:
  assumes "pq_reach G c w"
    and "length (outstanding w) < 2 ^ 32"
    and "sum_list (map (length \<circ> getBody) (outstanding w)) < 2 ^ 64"
  shows "unat (pq_cached_message_quantity (w_pq w)) = length (outstanding w)
    \<and> unat (pq_cached_message_memory (w_pq w)) =
        sum_list (map (length \<circ> getBody) (outstanding w))"
  using quota_inv_reach[OF assms(1)] assms(2,3) by (simp add: quota_inv_def unat_of_nat_small)

theorem quota_exact_witness:
  "pq_reach (\<lambda>_ _. True) (sample_consumer CLUSTERING) (sample_world CLUSTERING)
   \<and> unat (pq_cached_message_quantity (w_pq (sample_world CLUSTERING))) = 2
   \<and> unat (pq_cached_message_memory (w_pq (sample_world CLUSTERING))) = 8"
  using quota_exact[of "\<lambda>_ _. True" "sample_consumer CLUSTERING" "sample_world CLUSTERING"]
    sample_reach[of "\<lambda>_ _. True" CLUSTERING]
  by (simp add: sample_batch_def)

text \<open>C9. In broadcasting mode the offset to commit is exact: it is the least offset of
  the messages that are cached or in flight, and once none is left it is the offset
  after the one released last. So a restart from the committed offset never skips a
  message that was not consumed.\<close>

theorem committedOffset_exact:
  assumes "pq_reach fresh_offsets c w" "pc_messageModel c = BROADCASTING"
  shows "committedOffset (w_pq w) =
     (if outstanding w = [] then map_option (\<lambda>k. k + 1) (w_last_released w)
      else Some (Min (getQueueOffset ` set (outstanding w))))"
  using committedOffset_eq world_offsets_inv_reach[OF assms] by blast

theorem committedOffset_exact_witness:
  "pq_reach fresh_offsets (sample_consumer BROADCASTING) (sample_world BROADCASTING)
   \<and> committedOffset (w_pq (sample_world BROADCASTING)) = Some 7"
  using committedOffset_exact[of "sample_consumer BROADCASTING" "sample_world BROADCASTING"]
    sample_reach[of fresh_offsets BROADCASTING] sample_fresh
  by (simp add: sample_batch_def)

text \<open>C17. The committed offset never moves backwards when the broker delivers in order:
  if a step of a broadcasting queue changes the committed offset, it grows.\<close>

theorem committedOffset_monotone:
  assumes "pq_reach in_order c w" "pc_messageModel c = BROADCASTING"
    and "in_order w e" "pq_step c w e w'"
    and "committedOffset (w_pq w) = Some k"
  shows "\<exists>k' \<ge> k. committedOffset (w_pq w') = Some k'"
proof -
  have inv: "world_offsets_inv w" "world_offsets_inv w'"
    using world_offsets_inv_reach[OF assms(1,2)] world_offsets_inv_step[OF assms(4) _ _ assms(2)] assms(3)
    by (auto simp: in_order_def)
  note commit = committedOffset_eq[OF inv(1)] committedOffset_eq[OF inv(2)]
  note out = pq_step_outstanding[OF assms(4)]
  show ?thesis
  proof (cases e)
    case (Cache ms)
    have new: "\<forall>m \<in> set ms. k \<le> getQueueOffset m" using assms(3,5) Cache by (simp add: in_order_def)
    have "\<forall>m \<in> set (outstanding w). k \<le> getQueueOffset m"
      using commit(1) assms(5) by (auto split: if_splits)
    then have "\<forall>m \<in> set (outstanding w'). k \<le> getQueueOffset m" using new out Cache by auto
    moreover have "w_last_released w' = w_last_released w"
      using assms(4) Cache by (auto elim: pq_step_CacheE)
    moreover have "outstanding w = []" if "outstanding w' = []" using that out Cache by auto
    ultimately have "committedOffset (w_pq w') = Some k" if "outstanding w' = []"
      using that commit assms(5) by simp
    then show ?thesis using commit(2) \<open>\<forall>m \<in> set (outstanding w'). k \<le> getQueueOffset m\<close>
      by (cases "outstanding w' = []") auto
  next
    case (Take n)
    then show ?thesis using assms(4,5) by (auto elim!: pq_step_TakeE simp: take_messages_eq committedOffset_def)
  next
    case (Release m)
    have last: "w_last_released w' = Some (getQueueOffset m)" "m \<in> set (outstanding w)"
      using assms(4) Release by (auto elim!: pq_step_ReleaseE simp: outstanding_def)
    then have "k = Min (getQueueOffset ` set (outstanding w))" using commit(1) assms(5) by (auto split: if_splits)
    moreover from this last(2) have "k \<le> getQueueOffset m" by simp
    moreover have "set (outstanding w') \<subseteq> set (outstanding w)" using out Release set_remove1_subset by force
    ultimately show ?thesis using commit(2) last(1) Min_image_superset[of "set (outstanding w')" "set (outstanding w)"]
      by (cases "outstanding w' = []") auto
  qed
qed

theorem committedOffset_monotone_witness:
  "\<exists>k' \<ge> 7. committedOffset ((w_pq (sample_world BROADCASTING))
      \<lparr>pq_cached_messages := drop 1 sample_batch\<rparr>) = Some k'"
proof -
  let ?c = "sample_consumer BROADCASTING" and ?w = "sample_world BROADCASTING"
  have reach: "pq_reach in_order ?c ?w" using sample_in_order by (rule sample_reach)
  have step: "pq_step ?c ?w (Take 1) (?w\<lparr>w_pq := (w_pq ?w)\<lparr>pq_cached_messages := drop 1 sample_batch\<rparr>,
      w_inflight := w_inflight ?w @ take 1 sample_batch\<rparr>)"
    by (rule step_take) (simp add: take_messages_eq sample_cached)
  have "committedOffset (w_pq ?w) = Some 7"
    using committedOffset_eq[OF world_offsets_inv_reach[OF reach]]
    by (simp add: in_order_def sample_batch_def)
  from committedOffset_monotone[OF reach _ _ step this] show ?thesis
    by (simp add: in_order_def fresh_offsets_def)
qed

text \<open>The assertion in \<open>release\<close> cannot fail: in every reachable state of a
  broadcasting queue, releasing any message that is in flight succeeds.\<close>

theorem release_never_asserts:
  assumes "pq_reach fresh_offsets c w" "m \<in> set (w_inflight w)"
  shows "release_message (Some c) (w_pq w) m \<noteq> None"
proof (cases "pc_messageModel c")
  case BROADCASTING
  have "m \<in> set (outstanding w)" using assms(2) by (simp add: outstanding_def)
  then show ?thesis
    using release_offsets[OF world_offsets_inv_reach[OF assms(1) BROADCASTING,
        unfolded world_offsets_inv_def] BROADCASTING] by auto
qed (simp add: release_message_def release_def Let_def)

theorem release_never_asserts_witness:
  "release_message (Some (sample_consumer BROADCASTING))
     ((w_pq (sample_world BROADCASTING))\<lparr>pq_cached_messages := []\<rparr>) (sample_message 9) \<noteq> None"
proof -
  let ?c = "sample_consumer BROADCASTING" and ?w = "sample_world BROADCASTING"
  have reach: "pq_reach fresh_offsets ?c ?w" using sample_fresh by (rule sample_reach)
  have step: "pq_step ?c ?w (Take 2) (?w\<lparr>w_pq := (w_pq ?w)\<lparr>pq_cached_messages := []\<rparr>,
      w_inflight := w_inflight ?w @ sample_batch\<rparr>)"
    by (rule step_take[where has_more = False]) (simp add: take_messages_eq sample_cached sample_batch_def)
  have "pq_reach fresh_offsets ?c (?w\<lparr>w_pq := (w_pq ?w)\<lparr>pq_cached_messages := []\<rparr>,
      w_inflight := w_inflight ?w @ sample_batch\<rparr>)"
    by (rule reach_step[OF reach _ step]) (simp add: fresh_offsets_def)
  from release_never_asserts[OF this, of "sample_message 9"] show ?thesis
    by (simp add: sample_batch_def)
qed

end
