(* ===== verification/Rate_Limiter.thy ===== *)
theory Rate_Limiter
  imports Prelude
begin

text \<open>
  The token buckets that throttle consumption per topic (\<open>base/include/RateLimiter.h\<close>,
  \<open>base/RateLimiter.cpp\<close>). A second is cut into ten slots; a slot is refilled when its
  tenth of a second comes round, and unused permits of the past half cycle may be
  taken. The slot computed from the steady clock is an argument of each operation.
\<close>

section \<open>Model\<close>

abbreviation PARTITION :: nat where "PARTITION \<equiv> 10"

record RateLimiter =
  rl_partition :: "u32 list"
  rl_permits :: "u32 list"
  rl_interval :: int

definition increment_at :: "nat \<Rightarrow> u32 list \<Rightarrow> u32 list" where
  "increment_at i xs = xs[i := xs ! i + 1]"

definition decrement_at :: "nat \<Rightarrow> u32 list \<Rightarrow> u32 list" where
  "decrement_at i xs = xs[i := xs ! i - 1]"

definition make_RateLimiter :: "u32 \<Rightarrow> RateLimiter" where
  "make_RateLimiter permit =
     (let avg = permit div 10;
          r = unat (permit mod 10);
          base = replicate PARTITION avg;
          step = PARTITION div r
      in \<lparr>rl_partition =
            (if r \<noteq> 0 then fold (\<lambda>i p. increment_at (i * step) p) [0..<r] base else base),
          rl_permits = replicate PARTITION 0, rl_interval = 1000 div int PARTITION\<rparr>)"

definition slot :: "RateLimiter \<Rightarrow> int \<Rightarrow> nat" where
  "slot rl ms = nat (ms div rl_interval rl mod int PARTITION)"

text \<open>The slot \<open>j\<close> places back on the circle.\<close>

definition slot_back :: "nat \<Rightarrow> nat \<Rightarrow> nat" where
  "slot_back idx j = (if idx < j then idx + PARTITION - j else idx - j)"

definition available :: "RateLimiter \<Rightarrow> nat \<Rightarrow> u32" where
  "available rl idx =
     fold (\<lambda>j acc. if rl_permits rl ! slot_back idx j > 0
                   then acc + rl_permits rl ! slot_back idx j else acc) [0..<PARTITION div 2 + 1] 0"

text \<open>The inner loop of \<open>acquire(permit)\<close> on one slot: it decrements the slot while it
  is positive and leaves when enough is acquired.\<close>

function drain_slot :: "u32 \<Rightarrow> nat \<Rightarrow> u32 list \<times> u32 \<Rightarrow> u32 list \<times> u32" where
  "drain_slot permit i (permits, acquired) =
     (if permits ! i > 0 \<and> i < length permits then
        (let permits' = decrement_at i permits; acquired' = acquired + 1
         in if acquired' \<ge> permit then (permits', acquired')
            else drain_slot permit i (permits', acquired'))
      else (permits, acquired))"
  by pat_completeness auto
termination
  by (relation "measure (\<lambda>(permit, i, permits, acquired). unat (permits ! i))")
    (auto simp: decrement_at_def unat_minus_one unat_gt_0 word_gt_0)

declare drain_slot.simps [simp del]

text \<open>The \<open>break\<close> leaves the inner loop only, so the outer one goes on.\<close>

definition acquire_n :: "RateLimiter \<Rightarrow> nat \<Rightarrow> u32 \<Rightarrow> RateLimiter \<times> u32" where
  "acquire_n rl idx permit =
     (if rl_permits rl ! idx \<ge> permit then
        (rl\<lparr>rl_permits := (rl_permits rl)[idx := rl_permits rl ! idx - permit]\<rparr>, permit)
      else
        let acquired = (if rl_permits rl ! idx > 0 then rl_permits rl ! idx else 0);
            permits = (if rl_permits rl ! idx > 0 then (rl_permits rl)[idx := 0] else rl_permits rl);
            (permits', acquired') =
              fold (\<lambda>j. drain_slot permit (slot_back idx j)) [1..<PARTITION div 2 + 1] (permits, acquired)
        in (rl\<lparr>rl_permits := permits'\<rparr>, acquired'))"

text \<open>\<open>acquire()\<close> takes a permit of the current slot or of one of the past half cycle;
  None means that it waits for a tick.\<close>

fun first_positive :: "u32 list \<Rightarrow> nat list \<Rightarrow> nat option" where
  "first_positive permits [] = None"
| "first_positive permits (i # is) = (if permits ! i > 0 then Some i else first_positive permits is)"

definition acquire_one :: "RateLimiter \<Rightarrow> nat \<Rightarrow> RateLimiter option" where
  "acquire_one rl idx =
     (if rl_permits rl ! idx > 0 then Some (rl\<lparr>rl_permits := decrement_at idx (rl_permits rl)\<rparr>)
      else (case first_positive (rl_permits rl) (map (slot_back idx) [1..<PARTITION div 2 + 1]) of
              Some i \<Rightarrow> Some (rl\<lparr>rl_permits := decrement_at i (rl_permits rl)\<rparr>)
            | None \<Rightarrow> None))"

text \<open>A waiting thread is woken when the predicate holds for the slot of that moment
  and takes its permit from the slot it reads afterwards, which may be a later one.\<close>

definition wait_predicate :: "RateLimiter \<Rightarrow> nat \<Rightarrow> bool" where
  "wait_predicate rl idx = (rl_permits rl ! idx > 0)"

definition acquire_after_wait :: "RateLimiter \<Rightarrow> nat \<Rightarrow> RateLimiter" where
  "acquire_after_wait rl idx = rl\<lparr>rl_permits := decrement_at idx (rl_permits rl)\<rparr>"

definition tick :: "RateLimiter \<Rightarrow> nat \<Rightarrow> RateLimiter" where
  "tick rl idx = rl\<lparr>rl_permits := (rl_permits rl)[idx := rl_partition rl ! idx]\<rparr>"

text \<open>The observer keeps weak references (None once the limiter is gone), drops the
  dead ones and ticks the live ones; \<open>idxs\<close> are the slots the clock gives them.\<close>

fun observer_round :: "RateLimiter option list \<Rightarrow> (nat \<Rightarrow> nat) \<Rightarrow> nat \<Rightarrow> RateLimiter option list" where
  "observer_round [] idx k = []"
| "observer_round (None # ms) idx k = observer_round ms idx k"
| "observer_round (Some rl # ms) idx k = Some (tick rl (idx k)) # observer_round ms idx (Suc k)"

definition observer_subscribe :: "RateLimiter option list \<Rightarrow> RateLimiter \<Rightarrow> RateLimiter option list" where
  "observer_subscribe members rl = members @ [Some rl]"

section \<open>Invariant\<close>

definition total_permits :: "u32 list \<Rightarrow> nat" where
  "total_permits xs = sum_list (map unat xs)"

definition rl_inv :: "RateLimiter \<Rightarrow> bool" where
  "rl_inv rl = (length (rl_partition rl) = PARTITION \<and> length (rl_permits rl) = PARTITION
     \<and> list_all2 (\<le>) (rl_permits rl) (rl_partition rl))"

section \<open>Lemmas\<close>

lemma total_update: "i < length xs \<Longrightarrow> total_permits (xs[i := v]) + unat (xs ! i) = total_permits xs + unat v"
proof (induction xs arbitrary: i)
  case (Cons x xs)
  then show ?case by (cases i) (auto simp: total_permits_def)
qed simp

lemma unat_pred: "(x :: u32) > 0 \<Longrightarrow> unat (x - 1) + 1 = unat x"
  by (simp add: unat_minus_one word_gt_0 unat_gt_0)

lemma total_decrement:
  "i < length xs \<Longrightarrow> xs ! i > 0 \<Longrightarrow> total_permits (decrement_at i xs) + 1 = total_permits xs"
  using total_update[of i xs "xs ! i - 1"] unat_pred[of "xs ! i"] by (simp add: decrement_at_def)

lemma slot_back_less: "idx < PARTITION \<Longrightarrow> j \<le> PARTITION \<Longrightarrow> slot_back idx j < PARTITION"
  by (auto simp: slot_back_def)

lemma slot_less: "rl_interval rl > 0 \<Longrightarrow> slot rl ms < PARTITION"
  by (simp add: slot_def nat_less_iff)

lemma list_all2_update_le:
  "list_all2 (\<le>) xs ys \<Longrightarrow> i < length xs \<Longrightarrow> v \<le> ys ! i \<Longrightarrow> list_all2 (\<le>) (xs[i := v]) ys"
  by (auto simp: list_all2_conv_all_nth nth_list_update)

lemma list_all2_decrement:
  fixes xs :: "u32 list"
  assumes "list_all2 (\<le>) xs ys" "i < length xs" "xs ! i > 0"
  shows "list_all2 (\<le>) (decrement_at i xs) ys"
proof -
  have "xs ! i - 1 \<le> xs ! i" using assms(3) by (simp add: word_le_nat_alt unat_minus_one word_gt_0)
  then show ?thesis using assms list_all2_update_le[of xs ys i "xs ! i - 1"]
    by (auto simp: decrement_at_def list_all2_conv_all_nth)
qed

lemma first_positive_SomeD:
  "first_positive permits is = Some i \<Longrightarrow> i \<in> set is \<and> permits ! i > 0"
  by (induction "is") (auto split: if_splits)

text \<open>Draining a slot moves permits into the acquired count.\<close>

lemma drain_slot_facts:
  assumes "i < length permits" "unat acquired + total_permits permits < 2 ^ 32"
  shows "(case drain_slot permit i (permits, acquired) of (p, a) \<Rightarrow>
     length p = length permits \<and> unat a + total_permits p = unat acquired + total_permits permits
     \<and> (list_all2 (\<le>) permits ys \<longrightarrow> list_all2 (\<le>) p ys)
     \<and> (unat a \<le> max (unat permit) (unat acquired + 1)))"
  using assms
proof (induction permit i "(permits, acquired)" arbitrary: permits acquired rule: drain_slot.induct)
  case (1 permit i permits acquired)
  show ?case
  proof (cases "permits ! i > 0")
    case False
    then show ?thesis by (simp add: drain_slot.simps[of permit i])
  next
    case True
    note dec = total_decrement[OF 1(2) True]
    have inc: "unat (acquired + 1) = unat acquired + 1"
      using 1(3) dec by (simp add: unat_word_ariths)
    have len: "length (decrement_at i permits) = length permits" by (simp add: decrement_at_def)
    have le: "list_all2 (\<le>) permits ys \<longrightarrow> list_all2 (\<le>) (decrement_at i permits) ys"
      using list_all2_decrement[OF _ 1(2) True] by blast
    show ?thesis
    proof (cases "acquired + 1 \<ge> permit")
      case enough: True
      then show ?thesis using True dec inc len le 1(2)
        by (simp add: drain_slot.simps[of permit i] Let_def)
    next
      case False
      then have "unat acquired + 1 < unat permit" using inc by (simp add: word_le_nat_alt)
      obtain p a where pa: "drain_slot permit i (decrement_at i permits, acquired + 1) = (p, a)"
        by (cases "drain_slot permit i (decrement_at i permits, acquired + 1)")
      have "drain_slot permit i (permits, acquired) = (p, a)"
        using True False 1(2) pa by (simp add: drain_slot.simps[of permit i permits] Let_def)
      moreover have "length p = length (decrement_at i permits)
        \<and> unat a + total_permits p = unat (acquired + 1) + total_permits (decrement_at i permits)
        \<and> (list_all2 (\<le>) (decrement_at i permits) ys \<longrightarrow> list_all2 (\<le>) p ys)
        \<and> unat a \<le> max (unat permit) (unat (acquired + 1) + 1)"
        using 1(1)[OF _ refl refl False] True 1(2,3) dec inc len pa by simp
      ultimately show ?thesis using \<open>unat acquired + 1 < unat permit\<close> dec inc len le by simp
    qed
  qed
qed

lemma drain_fold_facts:
  assumes "\<forall>i \<in> set is. i < length permits" "unat acquired + total_permits permits < 2 ^ 32"
  shows "(case fold (drain_slot permit) is (permits, acquired) of (p, a) \<Rightarrow>
     length p = length permits \<and> unat a + total_permits p = unat acquired + total_permits permits
     \<and> (list_all2 (\<le>) permits ys \<longrightarrow> list_all2 (\<le>) p ys)
     \<and> unat a \<le> max (unat permit) (unat acquired) + length is)"
  using assms
proof (induction "is" arbitrary: permits acquired)
  case (Cons i "is")
  obtain p1 a1 where d: "drain_slot permit i (permits, acquired) = (p1, a1)"
    by (cases "drain_slot permit i (permits, acquired)")
  have f: "length p1 = length permits" "unat a1 + total_permits p1 = unat acquired + total_permits permits"
    "list_all2 (\<le>) permits ys \<longrightarrow> list_all2 (\<le>) p1 ys" "unat a1 \<le> max (unat permit) (unat acquired + 1)"
    using drain_slot_facts[of i permits acquired ys permit] Cons.prems d by simp_all
  obtain p a where r: "fold (drain_slot permit) is (p1, a1) = (p, a)"
    by (cases "fold (drain_slot permit) is (p1, a1)")
  have "length p = length p1 \<and> unat a + total_permits p = unat a1 + total_permits p1
      \<and> (list_all2 (\<le>) p1 ys \<longrightarrow> list_all2 (\<le>) p ys)
      \<and> unat a \<le> max (unat permit) (unat a1) + length is"
    using Cons.IH[of p1 a1] Cons.prems f r by simp
  then show ?case using f d r by (auto simp: max_def split: if_splits)
qed simp

lemma rl_inv_idx:
  "rl_inv rl \<Longrightarrow> idx < PARTITION \<Longrightarrow> idx < length (rl_permits rl) \<and> idx < length (rl_partition rl)"
  by (simp add: rl_inv_def)

lemma acquire_n_facts:
  assumes "rl_inv rl" "idx < PARTITION" "total_permits (rl_permits rl) < 2 ^ 32"
    and "acquire_n rl idx permit = (rl', n)"
  shows "rl_inv rl' \<and> rl_partition rl' = rl_partition rl
    \<and> unat n + total_permits (rl_permits rl') = total_permits (rl_permits rl) \<and> unat n \<le> unat permit + 4"
proof (cases "rl_permits rl ! idx \<ge> permit")
  case True
  let ?v = "rl_permits rl ! idx - permit"
  have v: "unat ?v + unat permit = unat (rl_permits rl ! idx)"
    using True by (simp add: unat_sub word_le_nat_alt)
  have "?v \<le> rl_permits rl ! idx" using v by (simp add: word_le_nat_alt)
  then have "?v \<le> rl_partition rl ! idx"
    using assms(1,2) by (force simp: rl_inv_def list_all2_conv_all_nth)
  then show ?thesis
    using assms True v rl_inv_idx[OF assms(1,2)] total_update[of idx "rl_permits rl" ?v]
    by (auto simp: acquire_n_def rl_inv_def list_all2_update_le)
next
  case False
  define p0 where "p0 = (rl_permits rl)[idx := 0]"
  define a0 where "a0 = rl_permits rl ! idx"
  have p0: "(if a0 > 0 then p0 else rl_permits rl) = p0" "(if a0 > 0 then a0 else 0) = a0"
    by (auto simp: p0_def a0_def word_gt_0) (metis list_update_id)
  have idx: "idx < length (rl_permits rl)" using rl_inv_idx[OF assms(1,2)] by simp
  have tot: "unat a0 + total_permits p0 = total_permits (rl_permits rl)"
    using total_update[OF idx, of 0] by (simp add: p0_def a0_def)
  have lt: "unat a0 < unat permit" using False by (simp add: a0_def word_le_nat_alt)
  have le: "list_all2 (\<le>) p0 (rl_partition rl)"
    using assms(1) idx by (auto simp: p0_def rl_inv_def intro!: list_all2_update_le)
  have len: "length p0 = PARTITION" using assms(1) by (simp add: p0_def rl_inv_def)
  obtain p1 a1 where d: "drain_slot permit (slot_back idx 1) (p0, a0) = (p1, a1)"
    by (cases "drain_slot permit (slot_back idx 1) (p0, a0)")
  have f: "length p1 = length p0" "unat a1 + total_permits p1 = unat a0 + total_permits p0"
    "list_all2 (\<le>) p1 (rl_partition rl)" "unat a1 \<le> unat permit"
    using drain_slot_facts[of "slot_back idx 1" p0 a0 "rl_partition rl" permit] d le lt tot assms(2,3)
      slot_back_less[OF assms(2), of 1] len by (auto simp: max_def split: if_splits)
  obtain p a where r: "fold (drain_slot permit) (map (slot_back idx) [2..<6]) (p1, a1) = (p, a)"
    by (cases "fold (drain_slot permit) (map (slot_back idx) [2..<6]) (p1, a1)")
  have g: "length p = length p1 \<and> unat a + total_permits p = unat a1 + total_permits p1
      \<and> list_all2 (\<le>) p (rl_partition rl) \<and> unat a \<le> unat permit + 4"
    using drain_fold_facts[of "map (slot_back idx) [2..<6]" p1 a1 "rl_partition rl" permit] r f tot
      slot_back_less[OF assms(2)] len assms(3) by (auto simp: max_def split: if_splits)
  have "[1..<PARTITION div 2 + 1] = 1 # [2..<6]" by code_simp
  then have "fold (\<lambda>j. drain_slot permit (slot_back idx j)) [1..<PARTITION div 2 + 1] (p0, a0) = (p, a)"
    using d r by (simp only: fold_map fold.simps comp_def)
  then have "acquire_n rl idx permit = (rl\<lparr>rl_permits := p\<rparr>, a)"
    using False p0 by (simp only: acquire_n_def a0_def[symmetric] p0_def[symmetric] Let_def if_False prod.case)
  then show ?thesis using assms f g tot len by (simp add: rl_inv_def)
qed

lemma acquire_one_facts:
  assumes "rl_inv rl" "idx < PARTITION" "acquire_one rl idx = Some rl'"
  shows "rl_inv rl' \<and> rl_partition rl' = rl_partition rl
    \<and> total_permits (rl_permits rl') + 1 = total_permits (rl_permits rl)"
proof -
  obtain i where i: "i < PARTITION" "rl_permits rl ! i > 0"
    "rl' = rl\<lparr>rl_permits := decrement_at i (rl_permits rl)\<rparr>"
  proof (cases "rl_permits rl ! idx > 0")
    case True
    then show thesis using that[of idx] assms(2,3) by (simp add: acquire_one_def)
  next
    case False
    then obtain i where "first_positive (rl_permits rl) (map (slot_back idx) [1..<6]) = Some i"
      "rl' = rl\<lparr>rl_permits := decrement_at i (rl_permits rl)\<rparr>"
      using assms(3) by (auto simp: acquire_one_def split: option.splits)
    then show thesis using that[of i] slot_back_less[OF assms(2)]
      by (auto dest!: first_positive_SomeD)
  qed
  then show ?thesis using assms(1) total_decrement[of i "rl_permits rl"]
    by (auto simp: rl_inv_def list_all2_decrement) (simp add: decrement_at_def)
qed

lemma tick_inv: "rl_inv rl \<Longrightarrow> idx < PARTITION \<Longrightarrow> rl_inv (tick rl idx)"
  by (auto simp: rl_inv_def tick_def intro!: list_all2_update_le)

lemma acquire_after_wait_inv:
  "rl_inv rl \<Longrightarrow> idx < PARTITION \<Longrightarrow> wait_predicate rl idx \<Longrightarrow> rl_inv (acquire_after_wait rl idx)"
  by (auto simp: rl_inv_def acquire_after_wait_def wait_predicate_def list_all2_decrement)
    (simp add: decrement_at_def)

lemma total_mono: "list_all2 (\<le>) xs ys \<Longrightarrow> total_permits xs \<le> total_permits ys"
  by (induction rule: list_all2_induct) (auto simp: total_permits_def word_le_nat_alt)

text \<open>Spreading the remainder: the bumped slots are distinct.\<close>

lemma fold_increment_total:
  assumes "distinct is" "\<forall>i \<in> set is. i < length xs \<and> xs ! i = v" "unat v + 1 < 2 ^ 32"
  shows "length (fold increment_at is xs) = length xs
    \<and> total_permits (fold increment_at is xs) = total_permits xs + length is
    \<and> (\<forall>i < length xs. i \<notin> set is \<longrightarrow> fold increment_at is xs ! i = xs ! i)"
  using assms
proof (induction "is" arbitrary: xs)
  case (Cons i "is")
  let ?ys = "increment_at i xs"
  have "unat (v + 1) = unat v + 1" using Cons.prems(3) by (simp add: unat_word_ariths)
  then have "total_permits ?ys = total_permits xs + 1"
    using total_update[of i xs "xs ! i + 1"] Cons.prems(2) by (simp add: increment_at_def)
  moreover have "\<forall>j \<in> set is. j < length ?ys \<and> ?ys ! j = v"
    using Cons.prems by (auto simp: increment_at_def nth_list_update)
  ultimately show ?case using Cons.IH[of ?ys] Cons.prems by (auto simp: increment_at_def)
qed simp

lemma partition_total:
  "total_permits (rl_partition (make_RateLimiter permit)) = unat permit
   \<and> length (rl_partition (make_RateLimiter permit)) = PARTITION"
proof -
  define r where "r = unat (permit mod 10)"
  have r10: "r < 10" using unat_mod[of permit 10] by (simp add: r_def)
  have permit: "unat permit = 10 * unat (permit div 10) + r"
    by (simp add: r_def unat_div unat_mod)
  then have small: "unat (permit div 10) + 1 < 2 ^ 32" using unat_u32_less[of permit] by simp
  have base: "total_permits (replicate PARTITION (permit div 10)) = 10 * unat (permit div 10)"
    by (simp add: total_permits_def sum_list_replicate)
  show ?thesis
  proof (cases "r = 0")
    case True
    then show ?thesis using base permit by (simp add: make_RateLimiter_def Let_def r_def)
  next
    case False
    let ?is = "map (\<lambda>i. i * (PARTITION div r)) [0..<r]"
    have "PARTITION div r > 0" using False r10 by (simp add: div_greater_zero_iff)
    then have "distinct ?is" by (auto simp: distinct_map inj_on_def)
    moreover have "i * (PARTITION div r) < PARTITION" if "i < r" for i
    proof -
      have "i * (PARTITION div r) < r * (PARTITION div r)" using that \<open>PARTITION div r > 0\<close> by simp
      then show ?thesis by (meson le_trans less_le_trans times_div_less_eq_dividend)
    qed
    ultimately have "total_permits (fold increment_at ?is (replicate PARTITION (permit div 10)))
        = 10 * unat (permit div 10) + r
        \<and> length (fold increment_at ?is (replicate PARTITION (permit div 10))) = PARTITION"
      using fold_increment_total[of ?is "replicate PARTITION (permit div 10)" "permit div 10"] small base
      by (auto simp: nth_replicate)
    then show ?thesis using False permit
      by (simp add: make_RateLimiter_def Let_def r_def[symmetric] fold_map comp_def)
  qed
qed

lemma make_RateLimiter_inv: "rl_inv (make_RateLimiter permit)"
  using partition_total[of permit]
  by (simp add: rl_inv_def list_all2_conv_all_nth make_RateLimiter_def Let_def nth_replicate)

section \<open>Runs of a limiter\<close>

text \<open>Any interleaving of ticks and acquisitions. A thread that waited takes its permit
  in the same slot in which the predicate held.\<close>

inductive rl_reach :: "u32 \<Rightarrow> RateLimiter \<Rightarrow> bool" for permit where
  rl_init: "rl_reach permit (make_RateLimiter permit)"
| rl_tick: "rl_reach permit rl \<Longrightarrow> idx < PARTITION \<Longrightarrow> rl_reach permit (tick rl idx)"
| rl_acquire: "rl_reach permit rl \<Longrightarrow> idx < PARTITION \<Longrightarrow> acquire_one rl idx = Some rl' \<Longrightarrow>
    rl_reach permit rl'"
| rl_acquire_n: "rl_reach permit rl \<Longrightarrow> idx < PARTITION \<Longrightarrow> acquire_n rl idx k = (rl', n) \<Longrightarrow>
    rl_reach permit rl'"
| rl_wait: "rl_reach permit rl \<Longrightarrow> idx < PARTITION \<Longrightarrow> wait_predicate rl idx \<Longrightarrow>
    rl_reach permit (acquire_after_wait rl idx)"

lemma rl_reach_inv:
  "rl_reach permit rl \<Longrightarrow>
   rl_inv rl \<and> rl_partition rl = rl_partition (make_RateLimiter permit)
   \<and> total_permits (rl_permits rl) \<le> unat permit"
proof (induction rule: rl_reach.induct)
  case rl_init
  then show ?case using make_RateLimiter_inv total_mono partition_total
    by (metis rl_inv_def)
next
  case (rl_tick rl idx)
  then have "rl_inv (tick rl idx)" using tick_inv by blast
  then show ?case using rl_tick total_mono[of "rl_permits (tick rl idx)" "rl_partition rl"]
      partition_total[of permit] by (simp add: rl_inv_def tick_def)
next
  case (rl_acquire rl idx rl')
  then show ?case using acquire_one_facts[of rl idx rl'] by auto
next
  case (rl_acquire_n rl idx k rl' n)
  moreover have "total_permits (rl_permits rl) < 2 ^ 32"
    using rl_acquire_n.IH unat_u32_less[of permit] by simp
  ultimately show ?case using acquire_n_facts[of rl idx k rl' n] by auto
next
  case (rl_wait rl idx)
  then have "total_permits (rl_permits (acquire_after_wait rl idx)) + 1 = total_permits (rl_permits rl)"
    using total_decrement[of idx "rl_permits rl"]
    by (simp add: acquire_after_wait_def wait_predicate_def rl_inv_def)
  then show ?case using rl_wait acquire_after_wait_inv[of rl idx] by (simp add: acquire_after_wait_def)
qed

section \<open>Properties\<close>



text \<open>\<open>acquire(permit)\<close> accounts for every permit it reports, and may report up to
  four more than it was asked for, because the \<open>break\<close> leaves only the inner loop.\<close>

theorem acquire_n_conserves:
  assumes "rl_reach limit rl" "idx < PARTITION" "acquire_n rl idx permit = (rl', n)"
  shows "unat n + total_permits (rl_permits rl') = total_permits (rl_permits rl)
    \<and> unat n \<le> unat permit + 4"
proof -
  have "total_permits (rl_permits rl) < 2 ^ 32"
    using rl_reach_inv[OF assms(1)] unat_u32_less[of limit] by simp
  then show ?thesis using acquire_n_facts[OF _ assms(2) _ assms(3)] rl_reach_inv[OF assms(1)] by simp
qed

definition sample_limiter :: RateLimiter where
  "sample_limiter = fold (\<lambda>i rl. tick rl i) [0..<6] (make_RateLimiter 100)"

lemma sample_limiter_reach: "rl_reach 100 sample_limiter"
proof -
  have "rl_reach 100 rl \<Longrightarrow> \<forall>i \<in> set is. i < PARTITION \<Longrightarrow> rl_reach 100 (fold (\<lambda>i rl. tick rl i) is rl)"
    for "is" rl by (induction "is" arbitrary: rl) (auto intro: rl_tick)
  then show ?thesis unfolding sample_limiter_def using rl_init[of 100] by simp
qed

lemma sample_limiter_acquire:
  "snd (acquire_n sample_limiter 5 15) = 19 \<and> total_permits (rl_permits sample_limiter) = 60"
  by code_simp

theorem acquire_n_conserves_witness:
  "snd (acquire_n sample_limiter 5 15) = 19
   \<and> total_permits (rl_permits (fst (acquire_n sample_limiter 5 15))) = 41"
proof -
  have "19 + total_permits (rl_permits (fst (acquire_n sample_limiter 5 15))) = 60"
    using acquire_n_conserves[OF sample_limiter_reach _ prod.collapse[symmetric], of 5 15]
      sample_limiter_acquire by simp
  then show ?thesis using sample_limiter_acquire by simp
qed

text \<open>A thread that waited in \<open>acquire()\<close> reads the clock again after it is woken.
  When the slot has changed to one without permits, the decrement wraps around and
  that slot holds more than four thousand million permits.\<close>

theorem acquire_after_wait_underflow:
  "wait_predicate sample_limiter 5 \<and> \<not> wait_predicate sample_limiter 6
   \<and> rl_permits (acquire_after_wait sample_limiter 6) ! 6 = 4294967295"
  by code_simp

end
