(* ===== verification/Consume_Service.thy ===== *)
theory Consume_Service
  imports Process_Queue Rate_Limiter
begin

text \<open>
  The service that hands cached messages to the listener
  (\<open>rocketmq/ConsumeMessageService.cpp\<close>) and its standard variant
  (\<open>rocketmq/ConsumeStandardMessageService.cpp\<close>), which consumes batches concurrently.
  A handler returns the new state and the calls it makes; the listener's verdict on a
  batch is an argument, FAILURE also when it throws. Telemetry spans are left out.
\<close>

section \<open>The base service\<close>

record ConsumeMessageService =
  cs_state :: State
  cs_rate_limiter_table :: "(string \<times> RateLimiter) list"

datatype service_action =
  PoolStart | SpawnDispatcher | PoolShutdown | SignalAllDispatchers | JoinDispatcher | StopObserver

definition make_ConsumeMessageService :: ConsumeMessageService where
  "make_ConsumeMessageService = \<lparr>cs_state = CREATED, cs_rate_limiter_table = []\<rparr>"

definition base_start :: "ConsumeMessageService \<Rightarrow> ConsumeMessageService \<times> service_action list" where
  "base_start svc =
     (let (v, ok) = compare_exchange (cs_state svc) CREATED STARTING
      in (svc\<lparr>cs_state := v\<rparr>, if ok then [PoolStart, SpawnDispatcher] else []))"

text \<open>The dispatcher thread goes on while the state is neither STOPPING nor STOPPED.\<close>

definition dispatcher_continues :: "ConsumeMessageService \<Rightarrow> bool" where
  "dispatcher_continues svc = (cs_state svc \<noteq> STOPPED \<and> cs_state svc \<noteq> STOPPING)"

definition base_shutdown :: "ConsumeMessageService \<Rightarrow> ConsumeMessageService \<times> service_action list" where
  "base_shutdown svc =
     (let (v, ok) = compare_exchange (cs_state svc) STOPPING STOPPED
      in (svc\<lparr>cs_state := v\<rparr>,
          if ok then [PoolShutdown, SignalAllDispatchers, JoinDispatcher, StopObserver] else []))"

text \<open>\<open>start\<close> and \<open>shutdown\<close> of both variants. \<open>shutdown\<close> spins while the state is
  STARTING: None.\<close>

definition service_start :: "ConsumeMessageService \<Rightarrow> ConsumeMessageService \<times> service_action list" where
  "service_start svc =
     (let (svc1, acts) = base_start svc;
          (v, ok) = compare_exchange (cs_state svc1) STARTING STARTED
      in (svc1\<lparr>cs_state := v\<rparr>, acts))"

definition service_shutdown ::
  "ConsumeMessageService \<Rightarrow> (ConsumeMessageService \<times> service_action list) option" where
  "service_shutdown svc =
     (if cs_state svc = STARTING then None
      else let (v, ok) = compare_exchange (cs_state svc) STARTED STOPPING
           in if ok then Some (base_shutdown (svc\<lparr>cs_state := v\<rparr>)) else Some (svc, []))"

definition throttle :: "ConsumeMessageService \<Rightarrow> string \<Rightarrow> u32 \<Rightarrow> ConsumeMessageService" where
  "throttle svc topic threshold = svc\<lparr>cs_rate_limiter_table :=
     hm_assign id topic (make_RateLimiter threshold) (cs_rate_limiter_table svc)\<rparr>"

definition hasConsumeRateLimiter :: "ConsumeMessageService \<Rightarrow> string \<Rightarrow> bool" where
  "hasConsumeRateLimiter svc topic = hm_contains id (cs_rate_limiter_table svc) topic"

definition rateLimiter :: "ConsumeMessageService \<Rightarrow> string \<Rightarrow> RateLimiter option" where
  "rateLimiter svc topic =
     (if \<not> hasConsumeRateLimiter svc topic then None
      else hm_find id (cs_rate_limiter_table svc) topic)"

text \<open>One permit per message: \<open>slots i\<close> is the slot of the clock at which the permit
  of message \<open>i\<close> is taken. None: with these readings a call still waits.\<close>

primrec acquire_permits ::
  "ConsumeMessageService \<Rightarrow> string \<Rightarrow> (nat \<Rightarrow> nat) \<Rightarrow> nat \<Rightarrow> ConsumeMessageService option" where
  "acquire_permits svc topic slots 0 = Some svc"
| "acquire_permits svc topic slots (Suc n) = (case acquire_permits svc topic slots n of
       None \<Rightarrow> None
     | Some svc1 \<Rightarrow> (case rateLimiter svc1 topic of
           None \<Rightarrow> Some svc1
         | Some rl \<Rightarrow> (case acquire_one rl (slots n) of
               None \<Rightarrow> None
             | Some rl' \<Rightarrow> Some (svc1\<lparr>cs_rate_limiter_table :=
                 hm_assign id topic rl' (cs_rate_limiter_table svc1)\<rparr>))))"

text \<open>\<open>dispatch\<close> submits every queue that has pending messages, in the order of the
  table.\<close>

fun dispatch ::
  "(ProcessQueue \<Rightarrow> (ProcessQueue \<times> 't list) option) \<Rightarrow> ProcessQueue list \<Rightarrow>
   (ProcessQueue list \<times> 't list) option" where
  "dispatch submit [] = Some ([], [])"
| "dispatch submit (pq # pqs) =
     (case (if hasPendingMessages pq then submit pq else Some (pq, [])) of
        None \<Rightarrow> None
      | Some (pq', ts) \<Rightarrow> (case dispatch submit pqs of
            None \<Rightarrow> None
          | Some (pqs', ts') \<Rightarrow> Some (pq' # pqs', ts @ ts')))"

section \<open>The standard service\<close>

datatype executor_kind = CustomExecutor | ThreadPool

datatype consume_task = ConsumeTask executor_kind "MQMessageExt list"

datatype consumer_call = AckCall MQMessageExt | NackCall MQMessageExt | UpdateOffset MQMessageQueue i64

fun task_messages :: "consume_task \<Rightarrow> MQMessageExt list" where
  "task_messages (ConsumeTask ex ms) = ms"

text \<open>The loop of \<open>submitConsumeTask\<close>; a batch size of zero fails the assertion when
  messages are pending.\<close>

function standard_submit_loop ::
  "PushConsumer \<Rightarrow> ProcessQueue \<Rightarrow> consume_task list \<Rightarrow> (ProcessQueue \<times> consume_task list) option" where
  "standard_submit_loop c pq tasks =
     (let (has_more, messages, pq') = take_messages pq (pc_consumeBatchSize c) []
      in if messages = [] then (if has_more then None else Some (pq', tasks))
         else let tasks' = tasks @
                    [ConsumeTask (if pc_customExecutor c then CustomExecutor else ThreadPool) messages]
              in if has_more then standard_submit_loop c pq' tasks' else Some (pq', tasks'))"
  by pat_completeness auto
termination
  by (relation "measure (\<lambda>(c, pq, tasks). length (pq_cached_messages pq))")
    (auto simp: take_messages_eq)

declare standard_submit_loop.simps [simp del]

definition standard_submitConsumeTask ::
  "PushConsumer option \<Rightarrow> ProcessQueue \<Rightarrow> (ProcessQueue \<times> consume_task list) option" where
  "standard_submitConsumeTask consumer pq = (case consumer of
       None \<Rightarrow> Some (pq, [])
     | Some c \<Rightarrow> standard_submit_loop c pq [])"

text \<open>In clustering mode every message of the batch is released and then acknowledged
  or negatively acknowledged; in broadcasting mode the committed offset is stored.\<close>

fun settle_batch ::
  "PushConsumer option \<Rightarrow> ConsumeMessageResult \<Rightarrow> ProcessQueue \<Rightarrow> MQMessageExt list \<Rightarrow>
   (ProcessQueue \<times> consumer_call list) option" where
  "settle_batch consumer status pq [] = Some (pq, [])"
| "settle_batch consumer status pq (m # ms) = (case release_message consumer pq m of
       None \<Rightarrow> None
     | Some pq1 \<Rightarrow> (case settle_batch consumer status pq1 ms of
           None \<Rightarrow> None
         | Some (pq2, calls) \<Rightarrow>
             Some (pq2, (if status = SUCCESS then AckCall m else NackCall m) # calls)))"

text \<open>Every message of the batch is traced with the access key; None: an assertion fails, or there is no
  provider of credentials.\<close>

definition standard_consumeTask ::
  "PushConsumer option \<Rightarrow> ConsumeMessageService \<Rightarrow> (nat \<Rightarrow> nat) \<Rightarrow> ConsumeMessageResult \<Rightarrow>
   ProcessQueue \<Rightarrow> MQMessageExt list \<Rightarrow>
   (ConsumeMessageService \<times> ProcessQueue \<times> consumer_call list) option" where
  "standard_consumeTask consumer svc slots status pq msgs =
     (if msgs = [] then Some (svc, pq, [])
      else case consumer of
        None \<Rightarrow> Some (svc, pq, [])
      | Some c \<Rightarrow> (case acquire_permits svc (getTopic (hd msgs)) slots (length msgs) of
          None \<Rightarrow> None
        | Some svc' \<Rightarrow>
            if access_key (pc_config c) = None then None
            else if pc_messageModel c = CLUSTERING then
              map_option (\<lambda>(pq', calls). (svc', pq', calls)) (settle_batch consumer status pq msgs)
            else
              Some (svc', pq, case committedOffset pq of
                  None \<Rightarrow> []
                | Some k \<Rightarrow> [UpdateOffset (pq_message_queue pq) k])))"

section \<open>Lemmas\<close>

lemma standard_submit_loop_facts:
  assumes "pc_consumeBatchSize c \<noteq> 0"
  shows "\<exists>bs. standard_submit_loop c pq tasks =
       Some (pq\<lparr>pq_cached_messages := []\<rparr>, tasks @
         map (ConsumeTask (if pc_customExecutor c then CustomExecutor else ThreadPool)) bs)
     \<and> concat bs = pq_cached_messages pq
     \<and> (\<forall>b \<in> set bs. b \<noteq> [] \<and> length b \<le> unat (pc_consumeBatchSize c))"
  using assms
proof (induction c pq tasks rule: standard_submit_loop.induct)
  case (1 c pq tasks)
  let ?n = "unat (pc_consumeBatchSize c)" and ?ms = "pq_cached_messages pq"
  let ?ex = "if pc_customExecutor c then CustomExecutor else ThreadPool"
  have n: "?n > 0" using 1(2) by (simp add: unat_gt_0)
  show ?case
  proof (cases "?ms = []")
    case True
    then have "standard_submit_loop c pq tasks = Some (pq\<lparr>pq_cached_messages := []\<rparr>, tasks)"
      by (simp add: standard_submit_loop.simps[of c pq] take_messages_eq Let_def)
    then show ?thesis using True by (intro exI[of _ "[]"]) simp
  next
    case ne: False
    show ?thesis
    proof (cases "drop ?n ?ms = []")
      case True
      then have "standard_submit_loop c pq tasks =
          Some (pq\<lparr>pq_cached_messages := []\<rparr>, tasks @ [ConsumeTask ?ex ?ms])"
        using ne n by (simp add: standard_submit_loop.simps[of c pq] take_messages_eq Let_def)
      then show ?thesis using True ne by (intro exI[of _ "[?ms]"]) simp
    next
      case False
      let ?pq' = "pq\<lparr>pq_cached_messages := drop ?n ?ms\<rparr>" and ?ts = "tasks @ [ConsumeTask ?ex (take ?n ?ms)]"
      have step: "standard_submit_loop c pq tasks = standard_submit_loop c ?pq' ?ts"
        using False ne n by (simp add: standard_submit_loop.simps[of c pq] take_messages_eq Let_def)
      have take: "take_messages pq (pc_consumeBatchSize c) [] = (True, take ?n ?ms, ?pq')"
        using False by (simp add: take_messages_eq)
      obtain bs where "standard_submit_loop c ?pq' ?ts =
          Some (?pq'\<lparr>pq_cached_messages := []\<rparr>, ?ts @ map (ConsumeTask ?ex) bs)"
        "concat bs = drop ?n ?ms" "\<forall>b \<in> set bs. b \<noteq> [] \<and> length b \<le> ?n"
        using 1(1)[OF take[symmetric] refl refl] 1(2) ne n False by auto
      then show ?thesis using step ne n by (intro exI[of _ "take ?n ?ms # bs"]) simp
    qed
  qed
qed

section \<open>The cache as the services see it\<close>

text \<open>
  A service relies on two laws of the cache: taking moves messages out of the cache in
  order without touching the quota, and releasing a message lowers the quota by one
  message without touching the cache.
\<close>

locale message_cache =
  fixes cached :: "'q \<Rightarrow> 'm list"
    and quantity :: "'q \<Rightarrow> 'w::comm_ring_1"
    and take_op :: "'q \<Rightarrow> 'n \<Rightarrow> bool \<times> 'm list \<times> 'q"
    and release_op :: "'m \<Rightarrow> 'q \<Rightarrow> 'q option"
  assumes take_cached: "take_op q n = (b, ms, q') \<Longrightarrow> ms @ cached q' = cached q"
    and take_quantity: "take_op q n = (b, ms, q') \<Longrightarrow> quantity q' = quantity q"
    and take_has_more: "take_op q n = (b, ms, q') \<Longrightarrow> b \<longleftrightarrow> cached q' \<noteq> []"
    and release_cached: "release_op m q = Some q' \<Longrightarrow> cached q' = cached q"
    and release_quantity: "release_op m q = Some q' \<Longrightarrow> quantity q' = quantity q - 1"
begin

lemma release_all:
  "fold_option release_op ms q = Some q' \<Longrightarrow>
   cached q' = cached q \<and> quantity q' = quantity q - of_nat (length ms)"
proof (induction ms arbitrary: q)
  case (Cons m ms)
  then obtain q1 where "release_op m q = Some q1" "fold_option release_op ms q1 = Some q'"
    by (auto split: option.splits)
  then show ?case using Cons.IH[of q1] release_cached[of m q q1] release_quantity[of m q q1]
    by (simp add: algebra_simps)
qed simp

text \<open>A round that takes messages and releases all of them gives back their quota.\<close>

lemma take_release_round:
  assumes "take_op q n = (b, ms, q1)" "fold_option release_op ms q1 = Some q2"
  shows "cached q = ms @ cached q2" "quantity q2 = quantity q - of_nat (length ms)"
  using take_cached[OF assms(1)] take_quantity[OF assms(1)] release_all[OF assms(2)] by auto

end

interpretation pqc: message_cache pq_cached_messages pq_cached_message_quantity
  "\<lambda>pq n. take_messages pq n []" "\<lambda>m pq. release_message (Some c) pq m" for c
  by unfold_locales
    (auto simp: take_messages_eq release_message_def dest: release_quota)

lemma settle_batch_release:
  "settle_batch consumer status pq ms =
     map_option (\<lambda>pq'. (pq', map (if status = SUCCESS then AckCall else NackCall) ms))
       (fold_option (\<lambda>m pq. release_message consumer pq m) ms pq)"
  by (induction ms arbitrary: pq) (auto split: option.splits)

text \<open>Settling a batch, in either mode.\<close>

lemma settle_batch_quota:
  assumes "settle_batch (Some c) status pq ms = Some (pq', calls)"
  shows "calls = map (if status = SUCCESS then AckCall else NackCall) ms"
    and "pq_cached_messages pq' = pq_cached_messages pq"
    and "pq_cached_message_quantity pq' = pq_cached_message_quantity pq - of_nat (length ms)"
  using assms pqc.release_all by (auto simp: settle_batch_release)

lemma release_clustering:
  assumes "pc_messageModel c = CLUSTERING"
  shows "release_message (Some c) pq m =
     Some (pq\<lparr>pq_cached_message_quantity := pq_cached_message_quantity pq - 1,
              pq_cached_message_memory := pq_cached_message_memory pq - of_nat (length (getBody m))\<rparr>)"
  using assms by (simp add: release_message_def release_def Let_def)

lemma settle_batch_clustering:
  assumes "pc_messageModel c = CLUSTERING"
  shows "settle_batch (Some c) status pq ms =
     Some (pq\<lparr>pq_cached_message_quantity := pq_cached_message_quantity pq - of_nat (length ms),
              pq_cached_message_memory := pq_cached_message_memory pq
                - of_nat (sum_list (map (length \<circ> getBody) ms))\<rparr>,
           map (if status = SUCCESS then AckCall else NackCall) ms)"
proof (induction ms arbitrary: pq)
  case (Cons m ms)
  then show ?case by (simp add: release_clustering[OF assms] diff_diff_eq add.commute)
qed simp

lemma acquire_permits_no_limiter:
  "rateLimiter svc topic = None \<Longrightarrow> acquire_permits svc topic slots n = Some svc"
  by (induction n) simp_all

section \<open>Consuming every task\<close>

text \<open>The tasks run one after the other, each with a verdict of the listener.\<close>

fun run_tasks ::
  "PushConsumer \<Rightarrow> ConsumeMessageService \<Rightarrow> (nat \<Rightarrow> nat) \<Rightarrow> ProcessQueue \<Rightarrow>
   (consume_task \<times> ConsumeMessageResult) list \<Rightarrow> (ProcessQueue \<times> consumer_call list) option" where
  "run_tasks c svc slots pq [] = Some (pq, [])"
| "run_tasks c svc slots pq ((t, status) # ts) =
     (case standard_consumeTask (Some c) svc slots status pq (task_messages t) of
        None \<Rightarrow> None
      | Some (svc', pq', calls) \<Rightarrow> (case run_tasks c svc' slots pq' ts of
            None \<Rightarrow> None
          | Some (pq'', calls') \<Rightarrow> Some (pq'', calls @ calls')))"

definition verdict_calls :: "consume_task \<times> ConsumeMessageResult \<Rightarrow> consumer_call list" where
  "verdict_calls tv = map (if snd tv = SUCCESS then AckCall else NackCall) (task_messages (fst tv))"

lemma run_tasks_clustering:
  assumes "pc_messageModel c = CLUSTERING" "cs_rate_limiter_table svc = []" "access_key (pc_config c) \<noteq> None"
  shows "run_tasks c svc slots pq tvs =
     Some (pq\<lparr>pq_cached_message_quantity := pq_cached_message_quantity pq
                - of_nat (length (concat (map (task_messages \<circ> fst) tvs))),
              pq_cached_message_memory := pq_cached_message_memory pq
                - of_nat (sum_list (map (length \<circ> getBody) (concat (map (task_messages \<circ> fst) tvs))))\<rparr>,
           concat (map verdict_calls tvs))"
proof (induction tvs arbitrary: pq)
  case (Cons tv tvs)
  obtain t status where tv: "tv = (t, status)" by (cases tv)
  have rl: "rateLimiter svc topic = None" for topic
    using assms(2) by (simp add: rateLimiter_def hasConsumeRateLimiter_def hm_contains_def)
  have "standard_consumeTask (Some c) svc slots status pq (task_messages t) =
      map_option (\<lambda>(pq', calls). (svc, pq', calls)) (settle_batch (Some c) status pq (task_messages t))"
    using assms by (auto simp: standard_consumeTask_def acquire_permits_no_limiter[OF rl])
  then show ?case using Cons
    by (simp add: tv settle_batch_clustering[OF assms(1)] verdict_calls_def diff_diff_eq add.commute comp_def)
qed simp

section \<open>Life cycle\<close>

text \<open>The atomic transitions that \<open>start\<close> and \<open>shutdown\<close> attempt. Threads may interleave
  them in any order.\<close>

datatype svc_cas = Cas_Starting | Cas_Started | Cas_Stopping | Cas_Stopped

fun svc_cas_step :: "ConsumeMessageService \<Rightarrow> svc_cas \<Rightarrow> ConsumeMessageService \<times> service_action list" where
  "svc_cas_step svc Cas_Starting = base_start svc"
| "svc_cas_step svc Cas_Started =
     (svc\<lparr>cs_state := fst (compare_exchange (cs_state svc) STARTING STARTED)\<rparr>, [])"
| "svc_cas_step svc Cas_Stopping =
     (svc\<lparr>cs_state := fst (compare_exchange (cs_state svc) STARTED STOPPING)\<rparr>, [])"
| "svc_cas_step svc Cas_Stopped = base_shutdown svc"

fun svc_cas_run :: "ConsumeMessageService \<Rightarrow> svc_cas list \<Rightarrow> ConsumeMessageService \<times> service_action list" where
  "svc_cas_run svc [] = (svc, [])"
| "svc_cas_run svc (e # es) =
     (let (svc1, acts) = svc_cas_step svc e; (svc2, acts') = svc_cas_run svc1 es in (svc2, acts @ acts'))"

text \<open>The actions still to come in each state.\<close>

definition start_actions :: "service_action list" where
  "start_actions = [PoolStart, SpawnDispatcher]"

definition stop_actions :: "service_action list" where
  "stop_actions = [PoolShutdown, SignalAllDispatchers, JoinDispatcher, StopObserver]"

fun actions_left :: "State \<Rightarrow> service_action list" where
  "actions_left CREATED = start_actions @ stop_actions"
| "actions_left STOPPED = []"
| "actions_left _ = stop_actions"

lemma svc_cas_step_facts:
  assumes "svc_cas_step svc e = (svc', acts)"
  shows "cs_state svc \<le> cs_state svc'" "actions_left (cs_state svc) = acts @ actions_left (cs_state svc')"
  using assms by (cases e; cases "cs_state svc";
    auto simp: base_start_def base_shutdown_def compare_exchange_def start_actions_def stop_actions_def
      less_eq_State_def)+

lemma svc_cas_run_facts:
  "svc_cas_run svc es = (svc', acts) \<Longrightarrow>
   cs_state svc \<le> cs_state svc' \<and> actions_left (cs_state svc) = acts @ actions_left (cs_state svc')"
proof (induction es arbitrary: svc acts)
  case (Cons e es)
  obtain svc1 a1 where 1: "svc_cas_step svc e = (svc1, a1)" by (cases "svc_cas_step svc e")
  obtain svc2 a2 where 2: "svc_cas_run svc1 es = (svc2, a2)" by (cases "svc_cas_run svc1 es")
  have "svc2 = svc'" "acts = a1 @ a2" using Cons.prems 1 2 by auto
  then show ?case using Cons.IH[of svc1 a2] svc_cas_step_facts[OF 1] 2 by auto
qed simp

lemma service_start_cas: "service_start svc = svc_cas_run svc [Cas_Starting, Cas_Started]"
  by (simp add: service_start_def case_prod_unfold Let_def)

lemma service_shutdown_cas:
  "service_shutdown svc = (if cs_state svc = STARTING then None
     else Some (svc_cas_run svc (if cs_state svc = STARTED then [Cas_Stopping, Cas_Stopped] else [])))"
  by (simp add: service_shutdown_def compare_exchange_def case_prod_unfold Let_def)

section \<open>Broadcasting\<close>

text \<open>What the standard service does with a broadcasting queue while nothing is
  received: it submits and it runs tasks.\<close>

inductive standard_run :: "PushConsumer \<Rightarrow> ProcessQueue \<Rightarrow> ProcessQueue \<Rightarrow> bool" for c where
  run_refl: "standard_run c pq pq"
| run_submit: "standard_run c pq pq1 \<Longrightarrow> standard_submitConsumeTask (Some c) pq1 = Some (pq2, ts) \<Longrightarrow>
    standard_run c pq pq2"
| run_consume: "standard_run c pq pq1 \<Longrightarrow>
    standard_consumeTask (Some c) svc slots status pq1 msgs = Some (svc', pq2, calls) \<Longrightarrow>
    standard_run c pq pq2"

lemma standard_submit_quota:
  assumes "standard_submit_loop c pq tasks = Some (pq', ts)"
  shows "pq_cached_message_quantity pq' = pq_cached_message_quantity pq
    \<and> pq_cached_message_memory pq' = pq_cached_message_memory pq \<and> pq_offsets pq' = pq_offsets pq"
  using assms
proof (induction c pq tasks rule: standard_submit_loop.induct)
  case (1 c pq tasks)
  then show ?case
    by (subst (asm) (2) standard_submit_loop.simps)
      (auto simp: take_messages_eq Let_def split: if_splits)
qed

lemma standard_consume_broadcasting:
  assumes "pc_messageModel c = BROADCASTING"
    and "standard_consumeTask (Some c) svc slots status pq msgs = Some (svc', pq', calls)"
  shows "pq' = pq"
  using assms by (auto simp: standard_consumeTask_def split: if_splits option.splits)

lemma standard_run_broadcasting:
  assumes "standard_run c pq pq'" "pc_messageModel c = BROADCASTING"
  shows "pq_cached_message_quantity pq' = pq_cached_message_quantity pq
    \<and> pq_cached_message_memory pq' = pq_cached_message_memory pq \<and> pq_offsets pq' = pq_offsets pq"
  using assms
proof (induction rule: standard_run.induct)
  case (run_submit pq pq1 pq2 ts)
  then show ?case using standard_submit_quota by (auto simp: standard_submitConsumeTask_def)
next
  case (run_consume pq pq1 svc slots status msgs svc' pq2 calls)
  then show ?case using standard_consume_broadcasting by blast
qed simp

section \<open>Properties\<close>

text \<open>Submission partitions the cache: with a positive batch size the loop ends, empties
  the cache, and the submitted tasks hold exactly the cached messages in order, in
  batches that are not empty and not larger than the batch size.\<close>

theorem standard_submit_partition:
  assumes "pc_consumeBatchSize c \<noteq> 0"
  shows "\<exists>ts. standard_submitConsumeTask (Some c) pq = Some (pq\<lparr>pq_cached_messages := []\<rparr>, ts)
    \<and> concat (map task_messages ts) = pq_cached_messages pq
    \<and> list_all (\<lambda>t. task_messages t \<noteq> []
        \<and> length (task_messages t) \<le> unat (pc_consumeBatchSize c)) ts"
proof -
  obtain bs where bs: "standard_submit_loop c pq [] = Some (pq\<lparr>pq_cached_messages := []\<rparr>, []
      @ map (ConsumeTask (if pc_customExecutor c then CustomExecutor else ThreadPool)) bs)"
    "concat bs = pq_cached_messages pq" "\<forall>b \<in> set bs. b \<noteq> [] \<and> length b \<le> unat (pc_consumeBatchSize c)"
    using standard_submit_loop_facts[OF assms, of pq "[]"] by blast
  then show ?thesis
    by (intro exI[of _ "map (ConsumeTask (if pc_customExecutor c then CustomExecutor else ThreadPool)) bs"])
      (simp add: standard_submitConsumeTask_def comp_def list_all_iff)
qed

theorem standard_submit_partition_witness:
  "\<exists>ts. standard_submitConsumeTask (Some (sample_consumer CLUSTERING)) (w_pq (sample_world CLUSTERING))
      = Some ((w_pq (sample_world CLUSTERING))\<lparr>pq_cached_messages := []\<rparr>, ts)
    \<and> concat (map task_messages ts) = sample_batch"
  using standard_submit_partition[of "sample_consumer CLUSTERING" "w_pq (sample_world CLUSTERING)"]
  by (auto simp: sample_consumer_def sample_cached)



text \<open>The life cycle of a consume service is a straight line: whatever calls of
  \<open>start\<close> and \<open>shutdown\<close> interleave, the state never goes back, and the pool and the
  dispatcher are started once, before they are stopped once.\<close>

theorem service_lifecycle:
  "case svc_cas_run make_ConsumeMessageService es of (svc, acts) \<Rightarrow>
     acts @ actions_left (cs_state svc) =
       [PoolStart, SpawnDispatcher, PoolShutdown, SignalAllDispatchers, JoinDispatcher, StopObserver]
     \<and> service_start svc = svc_cas_run svc [Cas_Starting, Cas_Started]
     \<and> service_shutdown svc = (if cs_state svc = STARTING then None
          else Some (svc_cas_run svc (if cs_state svc = STARTED then [Cas_Stopping, Cas_Stopped] else [])))"
  using svc_cas_run_facts[of make_ConsumeMessageService es "fst (svc_cas_run make_ConsumeMessageService es)"
      "snd (svc_cas_run make_ConsumeMessageService es)"]
  by (auto simp: make_ConsumeMessageService_def start_actions_def stop_actions_def case_prod_unfold
      service_start_cas service_shutdown_cas)

text \<open>In broadcasting mode the standard service never releases: submitting and
  consuming leave the counters and the tracked offsets as they are, so a queue that is
  throttled stays throttled although every message was consumed, and the committed
  offset does not advance.\<close>

theorem standard_broadcasting_never_releases:
  assumes "standard_run c pq pq'" "pc_messageModel c = BROADCASTING"
  shows "shouldThrottle (Some c) pq' = shouldThrottle (Some c) pq
    \<and> committedOffset pq' = committedOffset pq"
  using standard_run_broadcasting[OF assms] by (simp add: shouldThrottle_def committedOffset_def)

theorem standard_broadcasting_never_releases_witness:
  "committedOffset ((w_pq (sample_world BROADCASTING))\<lparr>pq_cached_messages := []\<rparr>)
     = committedOffset (w_pq (sample_world BROADCASTING))"
proof -
  let ?c = "sample_consumer BROADCASTING" and ?pq = "w_pq (sample_world BROADCASTING)"
  have batch: "pc_consumeBatchSize ?c \<noteq> 0" by (simp add: sample_consumer_def)
  obtain ts where "standard_submitConsumeTask (Some ?c) ?pq = Some (?pq\<lparr>pq_cached_messages := []\<rparr>, ts)"
    using standard_submit_loop_facts[OF batch, of ?pq "[]"] by (auto simp: standard_submitConsumeTask_def)
  from run_submit[OF run_refl this] standard_broadcasting_never_releases show ?thesis by simp
qed

end
