(* ===== verification/Fifo_Service.thy ===== *)
theory Fifo_Service
  imports Consume_Service
begin

text \<open>
  The service that consumes a queue in order
  (\<open>rocketmq/ConsumeFifoMessageService.cpp\<close>): a queue is bound while one of its
  messages is being processed; a failed message is retried after a second, up to the
  maximum number of attempts, and is then forwarded to the dead letter queue. Work
  that continues later (in the pool, in the scheduler, in a pending RPC) is a task.
\<close>

section \<open>Handlers\<close>

datatype fifo_task =
    FifoConsume MQMessageExt          \<comment> \<open>\<open>consumeTask\<close>, submitted to the executor\<close>
  | FifoConsumeScheduled MQMessageExt \<comment> \<open>\<open>scheduleConsumeTask\<close>, in one second\<close>
  | FifoAck MQMessageExt              \<comment> \<open>ack RPC pending, then \<open>onAck\<close>\<close>
  | FifoAckScheduled MQMessageExt     \<comment> \<open>\<open>scheduleAckTask\<close>, in 100 ms\<close>
  | FifoForward MQMessageExt          \<comment> \<open>forward RPC pending, then \<open>onForwardToDeadLetterQueue\<close>\<close>
  | FifoForwardScheduled MQMessageExt \<comment> \<open>\<open>scheduleForwardDeadLetterQueueTask\<close>, in 100 ms\<close>

datatype fifo_call = FifoUpdateOffset MQMessageQueue i64 | FifoSignalDispatcher

text \<open>\<open>submitConsumeTask0\<close> hands the message to the custom executor or to the pool; both
  run \<open>consumeTask\<close> later.\<close>

definition submitConsumeTask0 :: "PushConsumer \<Rightarrow> MQMessageExt \<Rightarrow> fifo_task" where
  "submitConsumeTask0 c m = FifoConsume m"

definition fifo_submitConsumeTask ::
  "PushConsumer option \<Rightarrow> ProcessQueue \<Rightarrow> (ProcessQueue \<times> fifo_task list) option" where
  "fifo_submitConsumeTask consumer pq = (case consumer of
       None \<Rightarrow> Some (pq, [])
     | Some c \<Rightarrow>
         if pc_consumeBatchSize c \<noteq> 1 then None
         else let (bound, pq1) = bindFifoConsumeTask pq
              in if bound then
                   (let (has_more, messages, pq2) = take_messages pq1 (pc_consumeBatchSize c) []
                    in if has_more then
                         (case messages of [m] \<Rightarrow> Some (pq2, [submitConsumeTask0 c m]) | _ \<Rightarrow> None)
                       else Some (pq2, []))
                 else Some (pq1, []))"

definition fifo_consumeTask ::
  "PushConsumer option \<Rightarrow> ConsumeMessageService \<Rightarrow> (nat \<Rightarrow> nat) \<Rightarrow> ConsumeMessageResult \<Rightarrow>
   ProcessQueue \<Rightarrow> MQMessageExt \<Rightarrow>
   (ConsumeMessageService \<times> ProcessQueue \<times> fifo_task list \<times> fifo_call list) option" where
  "fifo_consumeTask consumer svc slots result pq message = (case consumer of
       None \<Rightarrow> Some (svc, pq, [], [])
     | Some c \<Rightarrow> (case acquire_permits svc (getTopic message) slots 1 of
         None \<Rightarrow> None
       | Some svc' \<Rightarrow>
           if pc_messageModel c = CLUSTERING then
             if result = SUCCESS then
               map_option (\<lambda>pq'. (svc', pq', [FifoAck message], [])) (release_message consumer pq message)
             else
               let message' = setDeliveryAttempt message (getDeliveryAttempt message + 1)
               in if getDeliveryAttempt message' < pc_maxDeliveryAttempts c
                  then Some (svc', pq, [FifoConsumeScheduled message'], [])
                  else Some (svc', pq, [FifoForward message'], [])
           else
             map_option (\<lambda>pq'. (svc', pq', [], case committedOffset pq' of
                 None \<Rightarrow> [] | Some k \<Rightarrow> [FifoUpdateOffset (pq_message_queue pq') k]))
               (release_message consumer pq message)))"

definition onAck ::
  "PushConsumer option \<Rightarrow> ProcessQueue \<Rightarrow> MQMessageExt \<Rightarrow> ErrorCode \<Rightarrow>
   ProcessQueue \<times> fifo_task list \<times> fifo_call list" where
  "onAck consumer pq message ec =
     (if failed ec then
        (case consumer of None \<Rightarrow> (pq, [], []) | Some c \<Rightarrow> (pq, [FifoAckScheduled message], []))
      else (snd (unbindFifoConsumeTask pq), [], [FifoSignalDispatcher]))"

text \<open>The retry asserts that the consumer is alive.\<close>

definition onForwardToDeadLetterQueue ::
  "PushConsumer option \<Rightarrow> ProcessQueue \<Rightarrow> MQMessageExt \<Rightarrow> bool \<Rightarrow>
   (ProcessQueue \<times> fifo_task list) option" where
  "onForwardToDeadLetterQueue consumer pq message ok =
     (if ok then Some (snd (unbindFifoConsumeTask pq), [])
      else case consumer of None \<Rightarrow> None | Some c \<Rightarrow> Some (pq, [FifoForwardScheduled message]))"

definition scheduleForwardDeadLetterQueueTask ::
  "PushConsumer option \<Rightarrow> MQMessageExt \<Rightarrow> fifo_task list option" where
  "scheduleForwardDeadLetterQueueTask consumer message =
     (case consumer of None \<Rightarrow> None | Some c \<Rightarrow> Some [FifoForward message])"

definition scheduleAckTask :: "PushConsumer option \<Rightarrow> MQMessageExt \<Rightarrow> fifo_task list" where
  "scheduleAckTask consumer message = (case consumer of None \<Rightarrow> [] | Some c \<Rightarrow> [FifoAck message])"

definition scheduleConsumeTask :: "PushConsumer option \<Rightarrow> MQMessageExt \<Rightarrow> fifo_task list" where
  "scheduleConsumeTask consumer message =
     (case consumer of None \<Rightarrow> [] | Some c \<Rightarrow> [submitConsumeTask0 c message])"

section \<open>One queue under the service\<close>

text \<open>The queue, the tasks that exist for it, and three ghost fields: the messages that
  arrived and passed the filter, the messages given to the listener, both in order, and
  the messages forwarded to the dead letter queue.\<close>

record fifo_world =
  f_pq :: ProcessQueue
  f_svc :: ConsumeMessageService
  f_tasks :: "fifo_task list"
  f_arrived :: "MQMessageExt list"
  f_log :: "MQMessageExt list"
  f_dead :: "MQMessageExt list"

fun fifo_task_message :: "fifo_task \<Rightarrow> MQMessageExt" where
  "fifo_task_message (FifoConsume m) = m"
| "fifo_task_message (FifoConsumeScheduled m) = m"
| "fifo_task_message (FifoAck m) = m"
| "fifo_task_message (FifoAckScheduled m) = m"
| "fifo_task_message (FifoForward m) = m"
| "fifo_task_message (FifoForwardScheduled m) = m"

inductive fifo_step :: "PushConsumer \<Rightarrow> fifo_world \<Rightarrow> fifo_world \<Rightarrow> bool" for c where
  fifo_cache: "cacheMessages (Some c) (f_pq w) ms = (pq', acks) \<Longrightarrow>
    fifo_step c w (w\<lparr>f_pq := pq', f_arrived := f_arrived w @ filter (pq_accepts (f_pq w)) ms\<rparr>)"
| fifo_dispatch: "hasPendingMessages (f_pq w) \<Longrightarrow>
    fifo_submitConsumeTask (Some c) (f_pq w) = Some (pq', ts) \<Longrightarrow>
    fifo_step c w (w\<lparr>f_pq := pq', f_tasks := f_tasks w @ ts\<rparr>)"
| fifo_consume: "FifoConsume m \<in> set (f_tasks w) \<Longrightarrow>
    fifo_consumeTask (Some c) (f_svc w) slots result (f_pq w) m = Some (svc', pq', ts, calls) \<Longrightarrow>
    fifo_step c w (w\<lparr>f_pq := pq', f_svc := svc',
      f_tasks := remove1 (FifoConsume m) (f_tasks w) @ ts, f_log := f_log w @ [m]\<rparr>)"
| fifo_retry: "FifoConsumeScheduled m \<in> set (f_tasks w) \<Longrightarrow>
    fifo_step c w (w\<lparr>f_tasks := remove1 (FifoConsumeScheduled m) (f_tasks w)
      @ scheduleConsumeTask (Some c) m\<rparr>)"
| fifo_acked: "FifoAck m \<in> set (f_tasks w) \<Longrightarrow> onAck (Some c) (f_pq w) m ec = (pq', ts, calls) \<Longrightarrow>
    fifo_step c w (w\<lparr>f_pq := pq', f_tasks := remove1 (FifoAck m) (f_tasks w) @ ts\<rparr>)"
| fifo_ack_again: "FifoAckScheduled m \<in> set (f_tasks w) \<Longrightarrow>
    fifo_step c w (w\<lparr>f_tasks := remove1 (FifoAckScheduled m) (f_tasks w) @ scheduleAckTask (Some c) m\<rparr>)"
| fifo_forwarded: "FifoForward m \<in> set (f_tasks w) \<Longrightarrow>
    onForwardToDeadLetterQueue (Some c) (f_pq w) m ok = Some (pq', ts) \<Longrightarrow>
    fifo_step c w (w\<lparr>f_pq := pq', f_tasks := remove1 (FifoForward m) (f_tasks w) @ ts,
      f_dead := (if ok then f_dead w @ [m] else f_dead w)\<rparr>)"
| fifo_forward_again: "FifoForwardScheduled m \<in> set (f_tasks w) \<Longrightarrow>
    scheduleForwardDeadLetterQueueTask (Some c) m = Some ts \<Longrightarrow>
    fifo_step c w (w\<lparr>f_tasks := remove1 (FifoForwardScheduled m) (f_tasks w) @ ts\<rparr>)"

definition fifo_start :: "MQMessageQueue \<Rightarrow> FilterExpression \<Rightarrow> time_point \<Rightarrow> fifo_world" where
  "fifo_start q fe now = \<lparr>f_pq = make_ProcessQueue q fe now, f_svc = make_ConsumeMessageService,
     f_tasks = [], f_arrived = [], f_log = [], f_dead = []\<rparr>"

inductive fifo_reach :: "PushConsumer \<Rightarrow> fifo_world \<Rightarrow> bool" for c where
  freach_init: "fifo_reach c (fifo_start q fe now)"
| freach_step: "fifo_reach c w \<Longrightarrow> fifo_step c w w' \<Longrightarrow> fifo_reach c w'"

text \<open>The broker delivers a partition in offset order.\<close>

definition arrived_in_order :: "fifo_world \<Rightarrow> bool" where
  "arrived_in_order w = sorted_wrt (<) (map getQueueOffset (f_arrived w))"

section \<open>Invariants\<close>

definition fifo_exclusive :: "fifo_world \<Rightarrow> bool" where
  "fifo_exclusive w = (length (f_tasks w) \<le> 1
     \<and> (f_tasks w \<noteq> [] \<longrightarrow> pq_has_fifo_task_bound (f_pq w)))"

text \<open>\<open>taken\<close> are the messages that left the cache.\<close>

definition fifo_ordered :: "fifo_world \<Rightarrow> MQMessageExt list \<Rightarrow> bool" where
  "fifo_ordered w taken =
     (f_arrived w = taken @ pq_cached_messages (f_pq w)
      \<and> sorted (map getQueueOffset (f_log w))
      \<and> (\<forall>m \<in> set (f_log w). taken \<noteq> [] \<and> getQueueOffset m \<le> getQueueOffset (last taken))
      \<and> (\<forall>t \<in> set (f_tasks w). taken \<noteq> []
           \<and> getQueueOffset (fifo_task_message t) = getQueueOffset (last taken)))"

definition dead_exhausted :: "PushConsumer \<Rightarrow> fifo_world \<Rightarrow> bool" where
  "dead_exhausted c w =
     ((\<forall>m \<in> set (f_dead w). pc_maxDeliveryAttempts c \<le> getDeliveryAttempt m)
      \<and> (\<forall>m. FifoForward m \<in> set (f_tasks w) \<or> FifoForwardScheduled m \<in> set (f_tasks w)
           \<longrightarrow> pc_maxDeliveryAttempts c \<le> getDeliveryAttempt m))"

section \<open>Lemmas\<close>

lemma bind_unbind_simps:
  "bindFifoConsumeTask pq = (\<not> pq_has_fifo_task_bound pq, pq\<lparr>pq_has_fifo_task_bound := True\<rparr>)"
  "snd (unbindFifoConsumeTask pq) = pq\<lparr>pq_has_fifo_task_bound := False\<rparr>"
  by (simp_all add: bindFifoConsumeTask_def unbindFifoConsumeTask_def compare_exchange_def)

text \<open>A submission binds an unbound queue; it yields a task only when a second message
  is cached.\<close>

lemma fifo_submit_cases:
  assumes "fifo_submitConsumeTask (Some c) pq = Some (pq', ts)"
  shows "(pq_has_fifo_task_bound pq \<and> pq' = pq \<and> ts = [])
    \<or> (\<not> pq_has_fifo_task_bound pq \<and> ts = [] \<and> length (pq_cached_messages pq) \<le> 1
        \<and> pq' = pq\<lparr>pq_has_fifo_task_bound := True, pq_cached_messages := []\<rparr>)
    \<or> (\<exists>m ms. \<not> pq_has_fifo_task_bound pq \<and> pq_cached_messages pq = m # ms \<and> ms \<noteq> []
        \<and> ts = [FifoConsume m]
        \<and> pq' = pq\<lparr>pq_has_fifo_task_bound := True, pq_cached_messages := ms\<rparr>)"
proof (cases "pq_has_fifo_task_bound pq")
  case True
  then show ?thesis using assms
    by (auto simp: fifo_submitConsumeTask_def bind_unbind_simps split: if_splits)
next
  case False
  then show ?thesis using assms
    by (cases "pq_cached_messages pq")
      (auto simp: fifo_submitConsumeTask_def bind_unbind_simps take_messages_eq submitConsumeTask0_def
        Let_def split: if_splits)
qed

lemma fifo_consume_cases:
  assumes "fifo_consumeTask (Some c) svc slots result pq m = Some (svc', pq', ts, calls)"
  shows "pq_has_fifo_task_bound pq' = pq_has_fifo_task_bound pq
    \<and> pq_cached_messages pq' = pq_cached_messages pq
    \<and> pq_filter_expression pq' = pq_filter_expression pq
    \<and> (ts = [] \<or> (\<exists>t. ts = [t] \<and> getQueueOffset (fifo_task_message t) = getQueueOffset m
          \<and> (\<forall>m'. t = FifoForward m' \<longrightarrow> pc_maxDeliveryAttempts c \<le> getDeliveryAttempt m')
          \<and> (\<forall>m'. t \<noteq> FifoForwardScheduled m')))"
proof -
  have rel: "pq_has_fifo_task_bound q = pq_has_fifo_task_bound pq
      \<and> pq_cached_messages q = pq_cached_messages pq \<and> pq_filter_expression q = pq_filter_expression pq"
    if "release_message (Some c) pq m = Some q" for q
    using that by (auto simp: release_message_def release_def Let_def split: if_splits option.splits)
  show ?thesis using assms rel
    by (auto simp: fifo_consumeTask_def Let_def split: if_splits option.splits)
qed

lemma cache_loop_bound [simp]:
  "pq_has_fifo_task_bound (fst (cache_loop c pq ms)) = pq_has_fifo_task_bound pq"
  by (induction ms arbitrary: pq) (simp_all add: case_prod_unfold Let_def cache_message_def)

lemma remove1_singleton:
  "length ts \<le> 1 \<Longrightarrow> t \<in> set ts \<Longrightarrow> ts = [t] \<and> remove1 t ts = []"
  by (cases ts; cases "tl ts") auto

lemmas fifo_handlers =
  scheduleConsumeTask_def scheduleAckTask_def scheduleForwardDeadLetterQueueTask_def
  submitConsumeTask0_def onAck_def onForwardToDeadLetterQueue_def bind_unbind_simps

lemma cacheMessages_Some: "cacheMessages (Some c) pq ms = cache_loop c pq ms"
  by (simp add: cacheMessages_def)

lemma fifo_exclusive_step [rmq_inv]:
  assumes "fifo_step c w w'" "fifo_exclusive w"
  shows "fifo_exclusive w'"
  using assms(1)
proof (cases rule: fifo_step.cases)
  case (fifo_cache ms pq' acks)
  then have "pq' = fst (cache_loop c (f_pq w) ms)" by (simp add: cacheMessages_def)
  then show ?thesis using fifo_cache assms(2) by (simp add: fifo_exclusive_def)
next
  case (fifo_dispatch pq' ts)
  then show ?thesis using assms(2) fifo_submit_cases[OF fifo_dispatch(3)]
    by (auto simp: fifo_exclusive_def)
next
  case (fifo_consume m slots result svc' pq' ts calls)
  then show ?thesis using assms(2) fifo_consume_cases[OF fifo_consume(3)] remove1_singleton
    by (fastforce simp: fifo_exclusive_def)
next
  case (fifo_retry m)
  then show ?thesis using assms(2) remove1_singleton[OF _ fifo_retry(2)]
    by (auto simp: fifo_exclusive_def fifo_handlers)
next
  case (fifo_acked m ec pq' ts calls)
  then show ?thesis using assms(2) remove1_singleton[OF _ fifo_acked(2)]
    by (auto simp: fifo_exclusive_def fifo_handlers split: if_splits)
next
  case (fifo_ack_again m)
  then show ?thesis using assms(2) remove1_singleton[OF _ fifo_ack_again(2)]
    by (auto simp: fifo_exclusive_def fifo_handlers)
next
  case (fifo_forwarded m ok pq' ts)
  then show ?thesis using assms(2) remove1_singleton[OF _ fifo_forwarded(2)]
    by (auto simp: fifo_exclusive_def fifo_handlers split: if_splits)
next
  case (fifo_forward_again m ts)
  then show ?thesis using assms(2) remove1_singleton[OF _ fifo_forward_again(2)]
    by (auto simp: fifo_exclusive_def fifo_handlers)
qed

lemma fifo_exclusive_reach: "fifo_reach c w \<Longrightarrow> fifo_exclusive w"
proof (induction rule: fifo_reach.induct)
  case (freach_init q fe now)
  then show ?case by (simp add: fifo_exclusive_def fifo_start_def)
qed (rule fifo_exclusive_step)

text \<open>The messages arrived so far only grow, so their order is inherited.\<close>

lemma fifo_step_arrived:
  assumes "fifo_step c w w'"
  shows "\<exists>ms. f_arrived w' = f_arrived w @ ms"
  using assms by (cases rule: fifo_step.cases) auto

lemma arrived_in_order_step:
  "fifo_step c w w' \<Longrightarrow> arrived_in_order w' \<Longrightarrow> arrived_in_order w"
  using fifo_step_arrived[of c w w'] by (auto simp: arrived_in_order_def sorted_wrt_append)

lemma fifo_ordered_log:
  assumes "fifo_ordered w taken" "taken \<noteq> []" "getQueueOffset m = getQueueOffset (last taken)"
  shows "sorted (map getQueueOffset (f_log w @ [m]))"
  using assms by (auto simp: fifo_ordered_def sorted_append)

lemma fifo_ordered_taken:
  assumes "fifo_ordered w taken" "arrived_in_order w" "pq_cached_messages (f_pq w) = m # ms"
  shows "\<forall>x \<in> set (f_log w). getQueueOffset x \<le> getQueueOffset m"
proof
  fix x
  assume "x \<in> set (f_log w)"
  then have t: "taken \<noteq> []" "getQueueOffset x \<le> getQueueOffset (last taken)"
    using assms(1) by (auto simp: fifo_ordered_def)
  have "sorted_wrt (<) (map getQueueOffset (taken @ m # ms))"
    using assms by (simp add: fifo_ordered_def arrived_in_order_def)
  then have "getQueueOffset (last taken) < getQueueOffset m"
    using t(1) by (simp add: sorted_wrt_append)
  then show "getQueueOffset x \<le> getQueueOffset m" using t(2) by simp
qed

lemma fifo_ordered_dispatch:
  assumes inv: "fifo_ordered w taken" "arrived_in_order w" "fifo_exclusive w"
    and sub: "fifo_submitConsumeTask (Some c) (f_pq w) = Some (pq', ts)"
  shows "\<exists>taken'. fifo_ordered (w\<lparr>f_pq := pq', f_tasks := f_tasks w @ ts\<rparr>) taken'"
  using fifo_submit_cases[OF sub]
proof (elim disjE exE conjE)
  assume "pq' = f_pq w" "ts = []"
  then show ?thesis using inv(1) by (intro exI[of _ taken]) (simp add: fifo_ordered_def)
next
  assume *: "\<not> pq_has_fifo_task_bound (f_pq w)" "ts = []" "length (pq_cached_messages (f_pq w)) \<le> 1"
    "pq' = (f_pq w)\<lparr>pq_has_fifo_task_bound := True, pq_cached_messages := []\<rparr>"
  then have idle: "f_tasks w = []" using inv(3) by (auto simp: fifo_exclusive_def)
  show ?thesis
  proof (cases "pq_cached_messages (f_pq w)")
    case Nil
    then show ?thesis using inv(1) * idle by (intro exI[of _ taken]) (simp add: fifo_ordered_def)
  next
    case (Cons m ms)
    then have "pq_cached_messages (f_pq w) = [m]" using * by simp
    then show ?thesis using inv(1) * idle fifo_ordered_taken[OF inv(1,2)]
      by (intro exI[of _ "taken @ [m]"]) (simp add: fifo_ordered_def)
  qed
next
  fix m ms
  assume *: "\<not> pq_has_fifo_task_bound (f_pq w)" "pq_cached_messages (f_pq w) = m # ms" "ts = [FifoConsume m]"
    "pq' = (f_pq w)\<lparr>pq_has_fifo_task_bound := True, pq_cached_messages := ms\<rparr>"
  then have idle: "f_tasks w = []" using inv(3) by (auto simp: fifo_exclusive_def)
  show ?thesis using inv(1) * idle fifo_ordered_taken[OF inv(1,2) *(2)]
    by (intro exI[of _ "taken @ [m]"]) (simp add: fifo_ordered_def)
qed

text \<open>Replacing a task by tasks for the same message.\<close>

lemma fifo_ordered_replace:
  assumes "fifo_ordered w taken" "t \<in> set (f_tasks w)" "f_tasks w' = remove1 t (f_tasks w) @ ts"
    and "\<forall>u \<in> set ts. fifo_task_message u = fifo_task_message t"
    and "pq_cached_messages (f_pq w') = pq_cached_messages (f_pq w)"
    and "f_arrived w' = f_arrived w" "f_log w' = f_log w"
  shows "\<exists>taken'. fifo_ordered w' taken'"
  using assms set_remove1_subset[of t "f_tasks w"]
  by (intro exI[of _ taken]) (auto simp: fifo_ordered_def)

lemma fifo_ordered_step [rmq_inv]:
  assumes step: "fifo_step c w w'" and inv: "fifo_ordered w taken" "fifo_exclusive w" "arrived_in_order w'"
  shows "\<exists>taken'. fifo_ordered w' taken'"
  using step
proof (cases rule: fifo_step.cases)
  case (fifo_cache ms pq' acks)
  then have "pq' = fst (cache_loop c (f_pq w) ms)" by (simp add: cacheMessages_def)
  then show ?thesis using fifo_cache inv(1)
    by (intro exI[of _ taken]) (simp add: fifo_ordered_def cache_loop_simps)
next
  case (fifo_dispatch pq' ts)
  then show ?thesis
    using fifo_ordered_dispatch[OF inv(1) arrived_in_order_step[OF step inv(3)] inv(2)] by simp
next
  case (fifo_consume m slots result svc' pq' ts calls)
  note facts = fifo_consume_cases[OF fifo_consume(3)]
  have m: "taken \<noteq> []" "getQueueOffset m = getQueueOffset (last taken)"
    using inv(1) fifo_consume(2) by (force simp: fifo_ordered_def)+
  have "\<forall>t \<in> set ts. getQueueOffset (fifo_task_message t) = getQueueOffset (last taken)"
    using facts m(2) by auto
  then show ?thesis using fifo_consume inv(1) m facts fifo_ordered_log[OF inv(1) m]
    by (intro exI[of _ taken]) (auto simp: fifo_ordered_def dest: notin_set_remove1 set_mp[OF set_remove1_subset])
next
  case (fifo_retry m)
  then show ?thesis by (intro fifo_ordered_replace[OF inv(1) fifo_retry(2)]) (auto simp: fifo_handlers)
next
  case (fifo_acked m ec pq' ts calls)
  then show ?thesis
    by (intro fifo_ordered_replace[OF inv(1) fifo_acked(2)]) (auto simp: fifo_handlers split: if_splits)
next
  case (fifo_ack_again m)
  then show ?thesis by (intro fifo_ordered_replace[OF inv(1) fifo_ack_again(2)]) (auto simp: fifo_handlers)
next
  case (fifo_forwarded m ok pq' ts)
  then show ?thesis
    by (intro fifo_ordered_replace[OF inv(1) fifo_forwarded(2)]) (auto simp: fifo_handlers split: if_splits)
next
  case (fifo_forward_again m ts)
  then show ?thesis
    by (intro fifo_ordered_replace[OF inv(1) fifo_forward_again(2)]) (auto simp: fifo_handlers)
qed

lemma fifo_ordered_reach:
  "fifo_reach c w \<Longrightarrow> arrived_in_order w \<Longrightarrow> \<exists>taken. fifo_ordered w taken"
proof (induction rule: fifo_reach.induct)
  case (freach_init q fe now)
  then show ?case by (intro exI[of _ "[]"]) (simp add: fifo_ordered_def fifo_start_def make_ProcessQueue_def)
next
  case (freach_step w w')
  then obtain taken where "fifo_ordered w taken" using arrived_in_order_step by blast
  then show ?case using fifo_ordered_step freach_step fifo_exclusive_reach by blast
qed

text \<open>Only messages that used up their attempts are forwarded.\<close>

lemma dead_exhausted_step [rmq_inv]:
  assumes "fifo_step c w w'" "dead_exhausted c w"
  shows "dead_exhausted c w'"
  using assms(1)
proof (cases rule: fifo_step.cases)
  case (fifo_dispatch pq' ts)
  then show ?thesis using assms(2) fifo_submit_cases[OF fifo_dispatch(3)]
    by (auto simp: dead_exhausted_def)
next
  case (fifo_consume m slots result svc' pq' ts calls)
  then show ?thesis using assms(2) fifo_consume_cases[OF fifo_consume(3)]
    by (auto simp: dead_exhausted_def dest: set_mp[OF set_remove1_subset])
next
  case (fifo_acked m ec pq' ts calls)
  then show ?thesis using assms(2)
    by (auto simp: dead_exhausted_def fifo_handlers dest: set_mp[OF set_remove1_subset] split: if_splits)
next
  case (fifo_forwarded m ok pq' ts)
  then show ?thesis using assms(2)
    by (auto simp: dead_exhausted_def fifo_handlers dest: set_mp[OF set_remove1_subset] split: if_splits)
qed (use assms(2) in \<open>auto simp: dead_exhausted_def fifo_handlers dest: set_mp[OF set_remove1_subset]\<close>)

lemma dead_exhausted_reach: "fifo_reach c w \<Longrightarrow> dead_exhausted c w"
proof (induction rule: fifo_reach.induct)
  case (freach_init q fe now)
  then show ?case by (simp add: dead_exhausted_def fifo_start_def)
qed (rule dead_exhausted_step)

text \<open>A bound queue without a task is never unbound.\<close>

definition fifo_stalled :: "fifo_world \<Rightarrow> bool" where
  "fifo_stalled w = (pq_has_fifo_task_bound (f_pq w) \<and> f_tasks w = [])"

lemma fifo_stalled_step:
  assumes "fifo_step c w w'" "fifo_stalled w"
  shows "fifo_stalled w' \<and> f_log w' = f_log w"
  using assms(1)
proof (cases rule: fifo_step.cases)
  case (fifo_cache ms pq' acks)
  then have "pq' = fst (cache_loop c (f_pq w) ms)" by (simp add: cacheMessages_def)
  then show ?thesis using fifo_cache assms(2) by (simp add: fifo_stalled_def)
next
  case (fifo_dispatch pq' ts)
  then show ?thesis using assms(2) fifo_submit_cases[OF fifo_dispatch(3)] by (auto simp: fifo_stalled_def)
qed (use assms(2) in \<open>auto simp: fifo_stalled_def\<close>)

lemma fifo_stalled_forever:
  "(fifo_step c)\<^sup>*\<^sup>* w w' \<Longrightarrow> fifo_stalled w \<Longrightarrow> fifo_stalled w' \<and> f_log w' = f_log w"
  by (induction rule: rtranclp_induct) (use fifo_stalled_step in force)+

section \<open>A sample run\<close>

text \<open>A batch is cached, and its first message is dispatched and fails.\<close>

abbreviation sample_clustering :: PushConsumer where
  "sample_clustering \<equiv> sample_consumer CLUSTERING"

definition sample_fifo_cached :: "MQMessageExt list \<Rightarrow> fifo_world" where
  "sample_fifo_cached ms = (fifo_start sample_queue sample_filter 0)
     \<lparr>f_pq := fst (cacheMessages (Some sample_clustering)
                (make_ProcessQueue sample_queue sample_filter 0) ms),
      f_arrived := ms\<rparr>"

definition sample_fifo_running :: "MQMessageExt \<Rightarrow> MQMessageExt list \<Rightarrow> fifo_world" where
  "sample_fifo_running m ms = (sample_fifo_cached (m # ms))
     \<lparr>f_pq := (f_pq (sample_fifo_cached (m # ms)))
        \<lparr>pq_has_fifo_task_bound := True, pq_cached_messages := ms\<rparr>,
      f_tasks := [FifoConsume m]\<rparr>"

definition sample_fifo_failed :: "MQMessageExt \<Rightarrow> MQMessageExt list \<Rightarrow> fifo_world" where
  "sample_fifo_failed m ms = (sample_fifo_running m ms)
     \<lparr>f_svc := make_ConsumeMessageService,
      f_tasks := [let m' = setDeliveryAttempt m (getDeliveryAttempt m + 1)
                  in if getDeliveryAttempt m' < 16 then FifoConsumeScheduled m' else FifoForward m'],
      f_log := [m]\<rparr>"

lemma sample_fifo_facts:
  "pq_cached_messages (f_pq (sample_fifo_cached ms)) = ms"
  "pq_has_fifo_task_bound (f_pq (sample_fifo_cached ms)) = False" "f_tasks (sample_fifo_cached ms) = []"
  "f_log (sample_fifo_cached ms) = []" "f_arrived (sample_fifo_cached ms) = ms"
  "f_dead (sample_fifo_cached ms) = []" "f_svc (sample_fifo_cached ms) = make_ConsumeMessageService"
  by (simp_all add: sample_fifo_cached_def fifo_start_def cacheMessages_def cache_loop_simps
      make_ProcessQueue_def)

lemma sample_fifo_reach: "fifo_reach sample_clustering (sample_fifo_cached ms)"
proof (rule freach_step[OF freach_init])
  let ?w = "fifo_start sample_queue sample_filter 0"
  have "filter (pq_accepts (f_pq ?w)) ms = ms" by (simp add: fifo_start_def make_ProcessQueue_def)
  then show "fifo_step sample_clustering ?w (sample_fifo_cached ms)"
    using fifo_step.fifo_cache[OF prod.collapse[symmetric], of sample_clustering ?w ms]
    by (simp add: sample_fifo_cached_def) (simp add: fifo_start_def)
qed

lemma sample_fifo_running_reach:
  assumes "ms \<noteq> []"
  shows "fifo_reach sample_clustering (sample_fifo_running m ms)"
proof (rule freach_step[OF sample_fifo_reach])
  have "fifo_submitConsumeTask (Some sample_clustering) (f_pq (sample_fifo_cached (m # ms))) =
      Some ((f_pq (sample_fifo_cached (m # ms)))\<lparr>pq_has_fifo_task_bound := True,
        pq_cached_messages := ms\<rparr>, [FifoConsume m])"
    using assms by (simp add: fifo_submitConsumeTask_def sample_consumer_def bind_unbind_simps
        take_messages_eq sample_fifo_facts submitConsumeTask0_def)
  from fifo_step.fifo_dispatch[OF _ this]
  show "fifo_step sample_clustering (sample_fifo_cached (m # ms)) (sample_fifo_running m ms)"
    by (simp add: hasPendingMessages_def sample_fifo_facts sample_fifo_running_def)
qed

lemma sample_fifo_failed_reach:
  assumes "ms \<noteq> []"
  shows "fifo_reach sample_clustering (sample_fifo_failed m ms)"
proof (rule freach_step[OF sample_fifo_running_reach[OF assms]])
  let ?w = "sample_fifo_running m ms"
  have "fifo_consumeTask (Some sample_clustering) (f_svc ?w) (\<lambda>_. 0) FAILURE (f_pq ?w) m
      = Some (f_svc ?w, f_pq ?w, f_tasks (sample_fifo_failed m ms), [])"
    by (simp add: fifo_consumeTask_def sample_fifo_running_def sample_fifo_facts sample_fifo_failed_def
        make_ConsumeMessageService_def rateLimiter_def hasConsumeRateLimiter_def hm_contains_def
        sample_consumer_def Let_def)
  from fifo_step.fifo_consume[OF _ this] show "fifo_step sample_clustering ?w (sample_fifo_failed m ms)"
    by (simp add: sample_fifo_running_def sample_fifo_failed_def sample_fifo_facts)
qed

section \<open>Properties\<close>

text \<open>C6. At most one message of a queue is being processed: in every reachable state
  there is at most one task, and the queue is bound while there is one.\<close>

theorem fifo_mutual_exclusion:
  assumes "fifo_reach c w"
  shows "length (f_tasks w) \<le> 1 \<and> (f_tasks w = [] \<or> pq_has_fifo_task_bound (f_pq w))"
  using fifo_exclusive_reach[OF assms] by (auto simp: fifo_exclusive_def)

theorem fifo_mutual_exclusion_witness:
  "length (f_tasks (sample_fifo_running (sample_message 7) [sample_message 9])) = 1
   \<and> pq_has_fifo_task_bound (f_pq (sample_fifo_running (sample_message 7) [sample_message 9]))"
  using fifo_mutual_exclusion[OF sample_fifo_running_reach, of "[sample_message 9]" "sample_message 7"]
  by (simp add: sample_fifo_running_def)

text \<open>C11. The listener sees the messages of a queue in order: when the broker delivers in
  offset order, the offsets of the messages given to the listener never decrease, with
  retries, failed acknowledgements and forwarding in between.\<close>

theorem fifo_delivery_in_order:
  assumes "fifo_reach c w" "arrived_in_order w"
  shows "sorted (map getQueueOffset (f_log w))"
  using fifo_ordered_reach[OF assms] by (auto simp: fifo_ordered_def)

theorem fifo_delivery_in_order_witness:
  "f_log (sample_fifo_failed (sample_message 7) [sample_message 9]) = [sample_message 7]
   \<and> sorted (map getQueueOffset (f_log (sample_fifo_failed (sample_message 7) [sample_message 9])))"
  using fifo_delivery_in_order[OF sample_fifo_failed_reach, of "[sample_message 9]" "sample_message 7"]
  by (simp add: sample_fifo_failed_def sample_fifo_running_def sample_fifo_facts arrived_in_order_def)

text \<open>C36. Nothing is dead-lettered early: every message forwarded to the dead letter queue
  has used at least the maximum number of delivery attempts.\<close>

theorem fifo_dead_letter_exhausted:
  assumes "fifo_reach c w" "m \<in> set (f_dead w) \<or> FifoForward m \<in> set (f_tasks w)"
  shows "pc_maxDeliveryAttempts c \<le> getDeliveryAttempt m"
  using dead_exhausted_reach[OF assms(1)] assms(2) by (auto simp: dead_exhausted_def)

theorem fifo_dead_letter_exhausted_witness:
  "\<exists>m. FifoForward m \<in> set (f_tasks (sample_fifo_failed (setDeliveryAttempt (sample_message 7) 15)
       [sample_message 9])) \<and> getDeliveryAttempt m \<ge> 16"
proof -
  let ?m = "setDeliveryAttempt (sample_message 7) 15"
  let ?f = "setDeliveryAttempt ?m 16"
  have "FifoForward ?f \<in> set (f_tasks (sample_fifo_failed ?m [sample_message 9]))"
    by (simp add: sample_fifo_failed_def)
  then show ?thesis
    using fifo_dead_letter_exhausted[OF sample_fifo_failed_reach, of "[sample_message 9]" ?f ?m]
    by (auto simp: sample_consumer_def)
qed

text \<open>C39. The last cached message of a queue is lost and the queue stalls: when a queue
  that is not bound has one cached message, the dispatcher removes that message from
  the cache without submitting it, leaves the queue bound, and from then on, whatever
  happens, the listener never sees another message of this queue.\<close>

theorem fifo_last_message_stalls:
  assumes "pq_cached_messages (f_pq w) = [m]" "\<not> pq_has_fifo_task_bound (f_pq w)"
    and "f_tasks w = []" "pc_consumeBatchSize c = 1"
  shows "\<exists>w'. fifo_step c w w' \<and> pq_cached_messages (f_pq w') = []
    \<and> fifo_submitConsumeTask (Some c) (f_pq w) = Some (f_pq w', [])
    \<and> (\<forall>w''. (fifo_step c)\<^sup>*\<^sup>* w' w'' \<longrightarrow> f_log w'' = f_log w \<and> f_tasks w'' = [])"
proof -
  let ?pq = "(f_pq w)\<lparr>pq_has_fifo_task_bound := True, pq_cached_messages := []\<rparr>"
  have sub: "fifo_submitConsumeTask (Some c) (f_pq w) = Some (?pq, [])"
    using assms by (simp add: fifo_submitConsumeTask_def bind_unbind_simps take_messages_eq)
  have step: "fifo_step c w (w\<lparr>f_pq := ?pq, f_tasks := f_tasks w @ []\<rparr>)"
    by (rule fifo_step.fifo_dispatch[OF _ sub]) (simp add: hasPendingMessages_def assms)
  have "fifo_stalled (w\<lparr>f_pq := ?pq, f_tasks := f_tasks w @ []\<rparr>)" using assms by (simp add: fifo_stalled_def)
  then show ?thesis using step sub fifo_stalled_forever
    by (intro exI[of _ "w\<lparr>f_pq := ?pq, f_tasks := f_tasks w @ []\<rparr>"]) (fastforce simp: fifo_stalled_def)
qed

theorem fifo_last_message_stalls_witness:
  "\<exists>w'. fifo_step sample_clustering (sample_fifo_cached [sample_message 7]) w'
    \<and> pq_cached_messages (f_pq w') = []"
  using fifo_last_message_stalls[of "sample_fifo_cached [sample_message 7]" "sample_message 7"
      sample_clustering]
  by (auto simp: sample_fifo_facts sample_consumer_def)

end
