(* ===== verification/Push_Consumer.thy ===== *)
theory Push_Consumer
  imports Client_Base Fifo_Service
begin

text \<open>
  The push consumer (\<open>rocketmq/PushConsumerImpl.cpp\<close>): subscriptions, life cycle, the scan of
  assignments, the table of process queues and the requests about single messages, and the
  callback that keeps a queue receiving (\<open>rocketmq/AsyncReceiveMessageCallback.cpp\<close>).
  Process queues are shared objects: the table owns them, a callback refers to one by its
  number and finds it as long as the table holds it.
\<close>

section \<open>State\<close>

datatype MessageListenerType = STANDARD_LISTENER | FIFO_LISTENER

text \<open>A closure that waits for a route: the query of an assignment, or the start that waits for
  all routes.\<close>

datatype push_callback = AssignmentCallback string FilterExpression | FetchRoutesCallback

record PushConsumerImpl = "push_callback ClientImpl" +
  co_topic_filter_expression_table :: "(string \<times> FilterExpression) list"
  co_consume_thread_pool_size :: u32
  co_message_listener :: "MessageListenerType option"
  co_consume_message_service :: "(MessageListenerType \<times> ConsumeMessageService) option"
  co_consume_batch_size :: u32
  co_receive_batch_size :: i32
  co_scan_assignment_handle :: u32
  co_process_queue_table :: "(MQMessageQueue \<times> nat \<times> ProcessQueue) list"
  co_custom_executor :: bool
  co_throttle_table :: "(string \<times> u32) list"
  co_max_delivery_attempts :: i32
  co_message_model :: MessageModel
  co_receive_message_policy :: ReceiveMessageAction
  co_offset_store :: "(MQMessageQueue \<Rightarrow> i64 option) option"
  co_next_queue :: nat

definition make_PushConsumerImpl :: "ClientConfig \<Rightarrow> string \<Rightarrow> PushConsumerImpl" where
  "make_PushConsumerImpl config client_id = ClientImpl.extend (make_ClientImpl config client_id)
     \<lparr>co_topic_filter_expression_table = [], co_consume_thread_pool_size = DEFAULT_CONSUME_THREAD_POOL_SIZE,
      co_message_listener = None, co_consume_message_service = None,
      co_consume_batch_size = DEFAULT_CONSUME_MESSAGE_BATCH_SIZE,
      co_receive_batch_size = DEFAULT_RECEIVE_MESSAGE_BATCH_SIZE, co_scan_assignment_handle = 0,
      co_process_queue_table = [], co_custom_executor = False, co_throttle_table = [],
      co_max_delivery_attempts = DEFAULT_MAX_DELIVERY_ATTEMPTS, co_message_model = CLUSTERING,
      co_receive_message_policy = POLLING, co_offset_store = None, co_next_queue = 0\<rparr>"

section \<open>Subscriptions and settings\<close>

text \<open>\<open>emplace\<close> keeps an expression that is already there.\<close>

definition subscribe :: "time_point \<Rightarrow> PushConsumerImpl \<Rightarrow> string \<Rightarrow> string \<Rightarrow> ExpressionType \<Rightarrow> PushConsumerImpl" where
  "subscribe now co topic expression ty =
     co\<lparr>co_topic_filter_expression_table := hm_emplace id topic (make_FilterExpression expression ty now)
          (co_topic_filter_expression_table co)\<rparr>"

definition unsubscribe :: "PushConsumerImpl \<Rightarrow> string \<Rightarrow> PushConsumerImpl" where
  "unsubscribe co topic =
     co\<lparr>co_topic_filter_expression_table := hm_erase id topic (co_topic_filter_expression_table co)\<rparr>"

definition getFilterExpression :: "PushConsumerImpl \<Rightarrow> string \<Rightarrow> FilterExpression option" where
  "getFilterExpression co topic =
     (if hm_contains id (co_topic_filter_expression_table co) topic
      then hm_find id (co_topic_filter_expression_table co) topic else None)"

definition set_consumeThreadPoolSize :: "PushConsumerImpl \<Rightarrow> i32 \<Rightarrow> PushConsumerImpl" where
  "set_consumeThreadPoolSize co n =
     (if n \<ge> 1 then co\<lparr>co_consume_thread_pool_size := of_int n\<rparr> else co)"

definition set_consumeBatchSize :: "PushConsumerImpl \<Rightarrow> u32 \<Rightarrow> PushConsumerImpl" where
  "set_consumeBatchSize co n =
     (if co_message_listener co = Some FIFO_LISTENER then co
      else if n \<ge> 1 then co\<lparr>co_consume_batch_size := n\<rparr> else co)"

definition registerMessageListener :: "PushConsumerImpl \<Rightarrow> MessageListenerType option \<Rightarrow> PushConsumerImpl" where
  "registerMessageListener co listener = co\<lparr>co_message_listener := listener\<rparr>"

definition setThrottle :: "PushConsumerImpl \<Rightarrow> string \<Rightarrow> u32 \<Rightarrow> PushConsumerImpl" where
  "setThrottle co topic threshold =
     co\<lparr>co_throttle_table := hm_emplace id topic threshold (co_throttle_table co),
        co_consume_message_service :=
          map_option (\<lambda>(k, svc). (k, throttle svc topic threshold)) (co_consume_message_service co)\<rparr>"

text \<open>The consumer as its process queues and consume services see it.\<close>

definition push_view :: "PushConsumerImpl \<Rightarrow> PushConsumer" where
  "push_view co =
     \<lparr>pc_config = cl_config co, pc_client_id = cl_client_id co, pc_active = active co,
      pc_maxCachedMessageQuantity = DEFAULT_CACHED_MESSAGE_COUNT,
      pc_maxCachedMessageMemory = DEFAULT_CACHED_MESSAGE_MEMORY,
      pc_receiveBatchSize = co_receive_batch_size co,
      pc_receiveMessageAction = co_receive_message_policy co,
      pc_getFilterExpression = getFilterExpression co,
      pc_messageModel = co_message_model co,
      pc_consumeBatchSize = co_consume_batch_size co,
      pc_maxDeliveryAttempts = co_max_delivery_attempts co,
      pc_customExecutor = co_custom_executor co\<rparr>"

section \<open>Life cycle\<close>

datatype push_action =
    ClientAction client_action
  | AddClientObserver
  | FetchRoutes "string list"
  | SendHeartbeat
  | ServiceAction service_action
  | ScheduleScan nat nat
  | CancelScan u32

definition fetchRoutes_topics :: "PushConsumerImpl \<Rightarrow> string list" where
  "fetchRoutes_topics co = map fst (co_topic_filter_expression_table co)"

definition start_policy :: "PushConsumerImpl \<Rightarrow> MessageListenerType \<Rightarrow> ReceiveMessageAction" where
  "start_policy co listener =
     (if STANDARD_LISTENER = listener \<and> CLUSTERING = co_message_model co then POLLING else PULL)"

text \<open>None: the process aborts (no resolver or no listener). The arguments are the handles of the
  two tasks the scheduler returns.\<close>

definition push_start ::
  "u32 \<Rightarrow> u32 \<Rightarrow> PushConsumerImpl \<Rightarrow> (PushConsumerImpl \<times> push_action list) option" where
  "push_start route_handle scan_handle co = (case client_start route_handle co of
       None \<Rightarrow> None
     | Some (co1, acts) \<Rightarrow>
         if STARTED \<noteq> cl_state co1 then Some (co1, map ClientAction acts)
         else case co_message_listener co1 of
           None \<Rightarrow> None
         | Some listener \<Rightarrow>
             let co2 = co1\<lparr>co_receive_message_policy := start_policy co1 listener\<rparr>;
                 (svc, svc_acts) = service_start make_ConsumeMessageService;
                 svc' = fold (\<lambda>(topic, threshold) s. throttle s topic threshold) (co_throttle_table co2) svc;
                 co3 = co2\<lparr>co_consume_message_service := Some (listener, svc'),
                   co_consume_batch_size := (if listener = FIFO_LISTENER then 1 else co_consume_batch_size co2),
                   co_scan_assignment_handle := scan_handle, cl_state := STARTED\<rparr>
             in Some (co3, map ClientAction acts
                  @ [AddClientObserver, FetchRoutes (fetchRoutes_topics co2), SendHeartbeat]
                  @ map ServiceAction svc_acts @ [ScheduleScan 100 5000]))"

text \<open>None: the consume service is still starting, or no resolver is configured.\<close>

definition push_shutdown :: "PushConsumerImpl \<Rightarrow> (PushConsumerImpl \<times> push_action list) option" where
  "push_shutdown co =
     (let cancel = (if co_scan_assignment_handle co \<noteq> 0 then [CancelScan (co_scan_assignment_handle co)] else []);
          co1 = co\<lparr>co_process_queue_table := []\<rparr>
      in case (case co_consume_message_service co1 of
              None \<Rightarrow> Some (co1, [])
            | Some (k, svc) \<Rightarrow> map_option (\<lambda>(svc', acts).
                (co1\<lparr>co_consume_message_service := Some (k, svc')\<rparr>, acts)) (service_shutdown svc)) of
           None \<Rightarrow> None
         | Some (co2, svc_acts) \<Rightarrow> (case client_shutdown co2 of
             None \<Rightarrow> None
           | Some (co3, acts) \<Rightarrow>
               Some (co3\<lparr>cl_state := fst (compare_exchange (cl_state co3) STOPPING STOPPED)\<rparr>,
                 cancel @ map ServiceAction svc_acts @ map ClientAction acts)))"

section \<open>Process queues\<close>

definition find_queue :: "PushConsumerImpl \<Rightarrow> nat \<Rightarrow> ProcessQueue option" where
  "find_queue co i = map_of (map snd (co_process_queue_table co)) i"

definition update_queue :: "PushConsumerImpl \<Rightarrow> nat \<Rightarrow> (ProcessQueue \<Rightarrow> ProcessQueue) \<Rightarrow> PushConsumerImpl" where
  "update_queue co i f = co\<lparr>co_process_queue_table :=
     map (\<lambda>(k, j, pq). (k, j, if j = i then f pq else pq)) (co_process_queue_table co)\<rparr>"

definition getOrCreateProcessQueue ::
  "time_point \<Rightarrow> PushConsumerImpl \<Rightarrow> MQMessageQueue \<Rightarrow> FilterExpression \<Rightarrow> PushConsumerImpl \<times> nat option" where
  "getOrCreateProcessQueue now co message_queue filter_expression =
     (if \<not> active co then (co, None)
      else case hm_find mq_key (co_process_queue_table co) message_queue of
        Some (i, pq) \<Rightarrow> (co, Some i)
      | None \<Rightarrow>
          let i = co_next_queue co
          in (co\<lparr>co_process_queue_table := hm_emplace mq_key message_queue
                  (i, make_ProcessQueue message_queue filter_expression now) (co_process_queue_table co),
                co_next_queue := Suc i\<rparr>, Some i))"

record QueryOffsetRequest =
  qo_topic :: Resource
  qo_partition_id :: i32
  qo_broker_name :: string

datatype receive_effect =
    IssueReceive nat ReceiveCall
  | IssueQueryOffset nat string metadata QueryOffsetRequest duration
  | ReceiveLater nat
  | OrphanPull nat
  | SignalDispatcher
  | AckRejected MQMessageExt

definition pull_query :: "PushConsumerImpl \<Rightarrow> MQMessageQueue \<Rightarrow> QueryOffsetRequest" where
  "pull_query co message_queue =
     \<lparr>qo_topic = \<lparr>rs_namespace = cc_resource_namespace (cl_config co), rs_name = mq_topic message_queue\<rparr>,
      qo_partition_id = mq_queue_id message_queue, qo_broker_name = mq_broker_name message_queue\<rparr>"

text \<open>\<open>env\<close> holds what the environment answers: HMAC, date and clock.\<close>

record environment =
  ev_hmac :: "string \<Rightarrow> string \<Rightarrow> byte list"
  ev_date :: string
  ev_now :: time_point

definition queue_receive :: "environment \<Rightarrow> PushConsumerImpl \<Rightarrow> nat \<Rightarrow> PushConsumerImpl \<times> receive_effect list" where
  "queue_receive env co i = (case find_queue co i of
       None \<Rightarrow> (co, [])
     | Some pq \<Rightarrow>
         let (pq', calls) = pq_receiveMessage (ev_hmac env) (ev_date env) (ev_now env) (Some (push_view co)) pq
         in (update_queue co i (\<lambda>_. pq'), map (IssueReceive i) calls))"

definition receiveMessage ::
  "environment \<Rightarrow> PushConsumerImpl \<Rightarrow> MQMessageQueue \<Rightarrow> FilterExpression \<Rightarrow>
   PushConsumerImpl \<times> bool \<times> receive_effect list" where
  "receiveMessage env co message_queue filter_expression =
     (if \<not> active co then (co, False, [])
      else case getOrCreateProcessQueue (ev_now env) co message_queue filter_expression of
        (co1, None) \<Rightarrow> (co1, False, [])
      | (co1, Some i) \<Rightarrow>
          let broker_host = mq_service_address message_queue
          in if broker_host = [] then (co1, False, [])
             else case co_receive_message_policy co1 of
               PULL \<Rightarrow> (case (case co_offset_store co1 of None \<Rightarrow> None | Some read \<Rightarrow> read message_queue) of
                   None \<Rightarrow> (co1, True, [IssueQueryOffset i broker_host
                       (sign (ev_hmac env) (ev_date env) (cl_config co1) []) (pull_query co1 message_queue)
                       (cc_io_timeout (cl_config co1))])
                 | Some offset \<Rightarrow> (co1, True, []))
             | POLLING \<Rightarrow> (let (co2, effs) = queue_receive env co1 i in (co2, True, effs)))"

text \<open>The answer to the query of the end offset; None: an assertion on the offset fails. The closure
  owns the queue: one that has left the table meanwhile still issues its pull.\<close>

definition onQueryOffset ::
  "environment \<Rightarrow> PushConsumerImpl \<Rightarrow> nat \<Rightarrow> ErrorCode \<Rightarrow> i64 \<Rightarrow> (PushConsumerImpl \<times> receive_effect list) option" where
  "onQueryOffset env co i ec offset =
     (if failed ec then Some (co, [])
      else if offset < 0 then None
      else if find_queue co i = None then Some (co, [OrphanPull i])
      else Some (queue_receive env (update_queue co i (\<lambda>pq. pq\<lparr>pq_next_offset := offset\<rparr>)) i))"

section \<open>Assignments\<close>

text \<open>The queries a scan starts, one per subscription.\<close>

definition scanAssignments :: "PushConsumerImpl \<Rightarrow> push_callback list" where
  "scanAssignments co =
     (if \<not> active co then []
      else map (\<lambda>(topic, fe). AssignmentCallback topic fe) (co_topic_filter_expression_table co))"

record QueryAssignmentRequest =
  qa_topic :: Resource
  qa_group :: Resource
  qa_client_id :: string

definition wrapQueryAssignmentRequest :: "PushConsumerImpl \<Rightarrow> string \<Rightarrow> QueryAssignmentRequest" where
  "wrapQueryAssignmentRequest co topic =
     \<lparr>qa_topic = \<lparr>rs_namespace = cc_resource_namespace (cl_config co), rs_name = topic\<rparr>,
      qa_group = \<lparr>rs_namespace = cc_resource_namespace (cl_config co), rs_name = cc_group_name (cl_config co)\<rparr>,
      qa_client_id = cl_client_id co\<rparr>"

text \<open>What \<open>queryAssignment\<close> does once the route is there. In broadcasting mode the callback gets
  the partitions of the route; after a failure it is called and the null route is then
  dereferenced. In clustering mode a broker is asked, with an empty host if none was found.\<close>

datatype assignment_step =
    AssignmentReady ErrorCode "MQMessageQueue list"
  | NullRouteAfter ErrorCode
  | AskBroker string QueryAssignmentRequest
  | SelectBrokerLoops

definition onAssignmentRoute ::
  "u32 \<Rightarrow> PushConsumerImpl \<Rightarrow> string \<Rightarrow> ErrorCode \<Rightarrow> TopicRouteData option \<Rightarrow> u32 \<times> assignment_step" where
  "onAssignmentRoute counter co topic ec route =
     (if BROADCASTING = co_message_model co then
        (counter, case route of
           None \<Rightarrow> NullRouteAfter ec
         | Some r \<Rightarrow> AssignmentReady ec (make_TopicAssignment (map asMessageQueue (rt_partitions r))))
      else case selectBroker counter route of
        (counter', None) \<Rightarrow> (counter', SelectBrokerLoops)
      | (counter', Some host) \<Rightarrow>
          (counter', AskBroker (case host of None \<Rightarrow> [] | Some h \<Rightarrow> h) (wrapQueryAssignmentRequest co topic)))"

fun start_receiving ::
  "environment \<Rightarrow> FilterExpression \<Rightarrow> MQMessageQueue list \<Rightarrow> MQMessageQueue list \<Rightarrow> PushConsumerImpl \<Rightarrow>
   PushConsumerImpl \<times> receive_effect list" where
  "start_receiving env fe cur [] co = (co, [])"
| "start_receiving env fe cur (q # qs) co =
     (if list_all (\<lambda>item. \<not> mq_eq item q) cur then
        let (co1, ok, effs) = receiveMessage env co q fe;
            (co2, effs') = start_receiving env fe cur qs co1
        in (co2, effs @ effs')
      else start_receiving env fe cur qs co)"

definition keep_queue ::
  "time_point \<Rightarrow> string \<Rightarrow> MQMessageQueue list \<Rightarrow> MQMessageQueue \<times> nat \<times> ProcessQueue \<Rightarrow> bool" where
  "keep_queue now topic assigned entry = (case entry of (k, i, pq) \<Rightarrow>
     if topic \<noteq> mq_topic k then True
     else if list_all (\<lambda>q. \<not> mq_eq k q) assigned then False
     else \<not> expired pq now)"

definition syncProcessQueue ::
  "environment \<Rightarrow> PushConsumerImpl \<Rightarrow> string \<Rightarrow> MQMessageQueue list \<Rightarrow> FilterExpression \<Rightarrow>
   PushConsumerImpl \<times> receive_effect list" where
  "syncProcessQueue env co topic assigned filter_expression =
     (let table = filter (keep_queue (ev_now env) topic assigned) (co_process_queue_table co);
          cur = map fst (filter (\<lambda>(k, _). topic = mq_topic k) table)
      in start_receiving env filter_expression cur assigned (co\<lparr>co_process_queue_table := table\<rparr>))"

text \<open>The callback of a scan: an empty assignment changes nothing.\<close>

definition onScanResult ::
  "environment \<Rightarrow> PushConsumerImpl \<Rightarrow> string \<Rightarrow> FilterExpression \<Rightarrow> ErrorCode \<Rightarrow> MQMessageQueue list option \<Rightarrow>
   PushConsumerImpl \<times> receive_effect list" where
  "onScanResult env co topic fe ec assignments =
     (if failed ec then (co, [])
      else case assignments of
        None \<Rightarrow> (co, [])
      | Some qs \<Rightarrow> if qs = [] then (co, []) else syncProcessQueue env co topic qs fe)"

section \<open>The receive cycle\<close>

text \<open>The callback of a queue holds a weak reference to it.\<close>

definition receiveMessageLater :: "PushConsumerImpl \<Rightarrow> nat \<Rightarrow> receive_effect list" where
  "receiveMessageLater co i = (case find_queue co i of None \<Rightarrow> [] | Some _ \<Rightarrow> [ReceiveLater i])"

definition receiveMessageImmediately ::
  "environment \<Rightarrow> PushConsumerImpl \<Rightarrow> nat \<Rightarrow> PushConsumerImpl \<times> receive_effect list" where
  "receiveMessageImmediately env co i = (case find_queue co i of
       None \<Rightarrow> (co, [])
     | Some pq \<Rightarrow> (case receiveMessage env co (pq_message_queue pq) (pq_filter_expression pq) of
           (co1, ok, effs) \<Rightarrow> (co1, effs)))"

definition checkThrottleThenReceive ::
  "environment \<Rightarrow> PushConsumerImpl \<Rightarrow> nat \<Rightarrow> PushConsumerImpl \<times> receive_effect list" where
  "checkThrottleThenReceive env co i = (case find_queue co i of
       None \<Rightarrow> (co, [])
     | Some pq \<Rightarrow>
         if shouldThrottle (Some (push_view co)) pq then
           let co1 = update_queue co i (\<lambda>pq. syncIdleState pq (ev_now env))
           in (co1, receiveMessageLater co1 i)
         else receiveMessageImmediately env co i)"

definition onFailure :: "PushConsumerImpl \<Rightarrow> nat \<Rightarrow> receive_effect list" where
  "onFailure co i = (case find_queue co i of None \<Rightarrow> [] | Some _ \<Rightarrow> receiveMessageLater co i)"

definition cache_received ::
  "PushConsumerImpl \<Rightarrow> nat \<Rightarrow> ProcessQueue \<Rightarrow> MQMessageExt list \<Rightarrow> PushConsumerImpl \<times> receive_effect list" where
  "cache_received co i pq messages =
     (let (pq', rejected) = cacheMessages (Some (push_view co)) pq messages
      in (update_queue co i (\<lambda>_. pq'), map AckRejected rejected @ [SignalDispatcher]))"

text \<open>None: an assertion fails.\<close>

definition onSuccess ::
  "environment \<Rightarrow> PushConsumerImpl \<Rightarrow> nat \<Rightarrow> ReceiveMessageResult \<Rightarrow> (PushConsumerImpl \<times> receive_effect list) option" where
  "onSuccess env co i result = (case find_queue co i of
       None \<Rightarrow> Some (co, [])
     | Some pq \<Rightarrow>
         if \<not> active co then Some (co, [])
         else let policy = co_receive_message_policy co;
                  continue = (\<lambda>(c, effs). case checkThrottleThenReceive env c i of (c', effs') \<Rightarrow> Some (c', effs @ effs'));
                  next_offset = (\<lambda>c. update_queue c i (\<lambda>pq. pq\<lparr>pq_next_offset := rr_next_offset result\<rparr>))
              in case rr_status result of
                Receive_OK \<Rightarrow> (case cache_received co i pq (rr_messages result) of (c, effs) \<Rightarrow>
                    if PULL = policy then
                      if rr_next_offset result < 0 then None else continue (next_offset c, effs)
                    else continue (c, effs))
              | Receive_DATA_CORRUPTED \<Rightarrow>
                    if POLLING = policy then continue (cache_received co i pq (rr_messages result))
                    else continue (co, [])
              | Receive_OUT_OF_RANGE \<Rightarrow>
                    if PULL \<noteq> policy \<or> rr_next_offset result < 0 then None else continue (next_offset co, [])
              | Receive_DEADLINE_EXCEEDED \<Rightarrow> continue (co, [])
              | _ \<Rightarrow> Some (co, receiveMessageLater co i))"

text \<open>The answer to a pull, by status of the call and code of the response; \<open>result\<close> is what
  \<open>processPullResult\<close> made of it.\<close>

definition pull_error :: "Code option \<Rightarrow> ErrorCode" where
  "pull_error code = (case code of
       Some Code_PERMISSION_DENIED \<Rightarrow> Forbidden
     | Some Code_UNAUTHENTICATED \<Rightarrow> Unauthorized
     | Some Code_DEADLINE_EXCEEDED \<Rightarrow> GatewayTimeout
     | Some Code_INVALID_ARGUMENT \<Rightarrow> BadRequest
     | Some Code_FAILED_PRECONDITION \<Rightarrow> PreconditionRequired
     | Some Code_INTERNAL \<Rightarrow> InternalServerError
     | _ \<Rightarrow> NotImplemented)"

definition onPullResponse ::
  "environment \<Rightarrow> PushConsumerImpl \<Rightarrow> nat \<Rightarrow> bool \<Rightarrow> Code option \<Rightarrow> ReceiveMessageResult option \<Rightarrow>
   (PushConsumerImpl \<times> receive_effect list) option" where
  "onPullResponse env co i ok code result =
     (if ok \<and> code = Some Code_OK then (case result of None \<Rightarrow> None | Some r \<Rightarrow> onSuccess env co i r)
      else Some (co, onFailure co i))"

text \<open>The answer to a pop (\<open>ClientManagerImpl::receiveMessage\<close>).\<close>

definition pop_error :: "Code option \<Rightarrow> ErrorCode" where
  "pop_error code = (case code of
       Some Code_UNAUTHENTICATED \<Rightarrow> Unauthorized
     | Some Code_PERMISSION_DENIED \<Rightarrow> Forbidden
     | Some Code_INVALID_ARGUMENT \<Rightarrow> BadRequest
     | Some Code_DEADLINE_EXCEEDED \<Rightarrow> GatewayTimeout
     | Some Code_INTERNAL \<Rightarrow> InternalServerError
     | _ \<Rightarrow> NotImplemented)"

definition onPopResponse ::
  "environment \<Rightarrow> PushConsumerImpl \<Rightarrow> nat \<Rightarrow> bool \<Rightarrow> Code option \<Rightarrow> ReceiveMessageResult option \<Rightarrow>
   (PushConsumerImpl \<times> receive_effect list) option" where
  "onPopResponse env co i ok code result =
     (if ok \<and> code = Some Code_OK then (case result of None \<Rightarrow> None | Some r \<Rightarrow> onSuccess env co i r)
      else Some (co, onFailure co i))"

section \<open>Requests about one message\<close>

record MessageRequest =
  mr_group :: Resource
  mr_topic :: Resource
  mr_client_id :: string
  mr_message_id :: string
  mr_receipt_handle :: string
  mr_delivery_attempt :: i32
  mr_max_delivery_attempts :: i32

definition message_request :: "PushConsumerImpl \<Rightarrow> MQMessageExt \<Rightarrow> MessageRequest" where
  "message_request co msg =
     \<lparr>mr_group = \<lparr>rs_namespace = cc_resource_namespace (cl_config co), rs_name = cc_group_name (cl_config co)\<rparr>,
      mr_topic = \<lparr>rs_namespace = cc_resource_namespace (cl_config co), rs_name = getTopic msg\<rparr>,
      mr_client_id = cl_client_id co, mr_message_id = getMsgId msg, mr_receipt_handle = [],
      mr_delivery_attempt = 0, mr_max_delivery_attempts = 0\<rparr>"

definition wrapAckMessageRequest :: "PushConsumerImpl \<Rightarrow> MQMessageExt \<Rightarrow> MessageRequest" where
  "wrapAckMessageRequest co msg = (message_request co msg)\<lparr>mr_receipt_handle := receiptHandle msg\<rparr>"

text \<open>Target, headers and request; None: the assertion that the message has a target fails.\<close>

definition ack :: "environment \<Rightarrow> PushConsumerImpl \<Rightarrow> MQMessageExt \<Rightarrow> (string \<times> metadata \<times> MessageRequest) option" where
  "ack env co msg =
     (let target_host = targetEndpoint msg
      in if target_host = [] then None
         else Some (target_host, sign (ev_hmac env) (ev_date env) (cl_config co) [], wrapAckMessageRequest co msg))"

definition nack :: "environment \<Rightarrow> PushConsumerImpl \<Rightarrow> MQMessageExt \<Rightarrow> string \<times> metadata \<times> MessageRequest" where
  "nack env co msg =
     (targetEndpoint msg, sign (ev_hmac env) (ev_date env) (cl_config co) [],
      (message_request co msg)\<lparr>mr_receipt_handle := receiptHandle msg,
        mr_delivery_attempt := getDeliveryAttempt msg + 1,
        mr_max_delivery_attempts := co_max_delivery_attempts co\<rparr>)"

definition forwardToDeadLetterQueue ::
  "environment \<Rightarrow> PushConsumerImpl \<Rightarrow> MQMessageExt \<Rightarrow> string \<times> metadata \<times> MessageRequest" where
  "forwardToDeadLetterQueue env co msg =
     (targetEndpoint msg, sign (ev_hmac env) (ev_date env) (cl_config co) [],
      (message_request co msg)\<lparr>mr_delivery_attempt := getDeliveryAttempt msg,
        mr_max_delivery_attempts := co_max_delivery_attempts co\<rparr>)"

section \<open>Heartbeats and resources\<close>

record ConsumerHeartbeat =
  hb_client_id :: string
  hb_fifo_flag :: bool
  hb_group :: Resource
  hb_consume_model :: MessageModel
  hb_subscriptions :: "(Resource \<times> FilterType \<times> string) list"

definition push_prepareHeartbeatData :: "PushConsumerImpl \<Rightarrow> ConsumerHeartbeat" where
  "push_prepareHeartbeatData co =
     \<lparr>hb_client_id = cl_client_id co,
      hb_fifo_flag = (case co_message_listener co of Some FIFO_LISTENER \<Rightarrow> True | _ \<Rightarrow> False),
      hb_group = \<lparr>rs_namespace = cc_resource_namespace (cl_config co), rs_name = cc_group_name (cl_config co)\<rparr>,
      hb_consume_model = co_message_model co,
      hb_subscriptions = map (\<lambda>(topic, fe).
        (\<lparr>rs_namespace = cc_resource_namespace (cl_config co), rs_name = topic\<rparr>,
         (case fe_type fe of TAG \<Rightarrow> FilterType_TAG | SQL92 \<Rightarrow> FilterType_SQL), fe_content fe))
        (co_topic_filter_expression_table co)\<rparr>"

definition push_resourceBundle :: "PushConsumerImpl \<Rightarrow> ClientResourceBundle" where
  "push_resourceBundle co =
     \<lparr>rb_client_id = cl_client_id co, rb_resource_namespace = cc_resource_namespace (cl_config co),
      rb_group_type = SUBSCRIBER, rb_topics = map fst (co_topic_filter_expression_table co)\<rparr>"

text \<open>The queues a dispatcher visits.\<close>

definition iterateProcessQueue :: "PushConsumerImpl \<Rightarrow> nat list" where
  "iterateProcessQueue co =
     map (fst \<circ> snd) (filter (\<lambda>(k, i, pq). hasPendingMessages pq) (co_process_queue_table co))"

end
