(* ===== verification/Receive_Cycle.thy ===== *)
theory Receive_Cycle
  imports Push_Consumer
begin

text \<open>
  How a push consumer keeps its queues receiving: the scan of assignments starts a queue, the answer
  to a receive request either asks again at once or schedules the next request, and a timer asks
  again when the cache has room. The theory composes the operations of the push consumer with the
  requests and timers they leave behind, for a consumer that polls.
\<close>

section \<open>Pending receives\<close>

text \<open>The effects that will run the callback of a queue again: a request under way and a timer.\<close>

fun continues :: "receive_effect \<Rightarrow> bool" where
  "continues (IssueReceive _ _) = True"
| "continues (ReceiveLater _) = True"
| "continues _ = False"

fun effect_queue :: "receive_effect \<Rightarrow> nat" where
  "effect_queue (IssueReceive i _) = i"
| "effect_queue (IssueQueryOffset i _ _ _ _) = i"
| "effect_queue (ReceiveLater i) = i"
| "effect_queue (OrphanPull i) = i"
| "effect_queue _ = 0"

definition pending_of :: "receive_effect list \<Rightarrow> receive_effect list" where
  "pending_of effs = filter continues effs"

record cycle_world =
  cw_consumer :: PushConsumerImpl
  cw_pending :: "receive_effect list"

text \<open>An assignment for one topic: no queue twice, every queue with an address.\<close>

definition assignment_ok :: "string \<Rightarrow> MQMessageQueue list \<Rightarrow> bool" where
  "assignment_ok topic qs \<longleftrightarrow> distinct (map mq_key qs)
     \<and> (\<forall>q\<in>set qs. mq_topic q = topic \<and> mq_service_address q \<noteq> [])"

text \<open>A queue changes because its messages are consumed: it stays the same queue and its quantity
  does not grow.\<close>

definition consumption :: "(ProcessQueue \<Rightarrow> ProcessQueue) \<Rightarrow> bool" where
  "consumption f \<longleftrightarrow> (\<forall>pq. pq_message_queue (f pq) = pq_message_queue pq
     \<and> pq_cached_message_quantity (f pq) \<le> pq_cached_message_quantity pq)"

text \<open>\<open>B\<close> bounds the number of messages in an answer.\<close>

inductive cycle_step :: "nat \<Rightarrow> cycle_world \<Rightarrow> cycle_world \<Rightarrow> bool" for B where
  cycle_scan: "assignment_ok topic qs \<Longrightarrow>
     onScanResult env (cw_consumer w) topic fe ec (Some qs) = (co, effs) \<Longrightarrow>
     cycle_step B w (w\<lparr>cw_consumer := co, cw_pending := cw_pending w @ pending_of effs\<rparr>)"
| cycle_answer: "IssueReceive i c \<in> set (cw_pending w) \<Longrightarrow>
     (case result of None \<Rightarrow> True | Some r \<Rightarrow> length (rr_messages r) \<le> B) \<Longrightarrow>
     onPopResponse env (cw_consumer w) i ok code result = Some (co, effs) \<Longrightarrow>
     cycle_step B w (w\<lparr>cw_consumer := co,
       cw_pending := remove1 (IssueReceive i c) (cw_pending w) @ pending_of effs\<rparr>)"
| cycle_timer: "ReceiveLater i \<in> set (cw_pending w) \<Longrightarrow>
     checkThrottleThenReceive env (cw_consumer w) i = (co, effs) \<Longrightarrow>
     cycle_step B w (w\<lparr>cw_consumer := co,
       cw_pending := remove1 (ReceiveLater i) (cw_pending w) @ pending_of effs\<rparr>)"
| cycle_consume: "consumption f \<Longrightarrow>
     cycle_step B w (w\<lparr>cw_consumer := update_queue (cw_consumer w) i f\<rparr>)"
| cycle_subscribe: "cycle_step B w (w\<lparr>cw_consumer := subscribe now (cw_consumer w) topic expression ty\<rparr>)"
| cycle_unsubscribe: "cycle_step B w (w\<lparr>cw_consumer := unsubscribe (cw_consumer w) topic\<rparr>)"
| cycle_shutdown: "push_shutdown (cw_consumer w) = Some (co, acts) \<Longrightarrow>
     cycle_step B w (w\<lparr>cw_consumer := co\<rparr>)"

text \<open>The consumer starts without queues and polls.\<close>

inductive cycle_reach :: "nat \<Rightarrow> cycle_world \<Rightarrow> bool" for B where
  cycle_init: "co_process_queue_table co = [] \<Longrightarrow> co_receive_message_policy co = POLLING \<Longrightarrow>
     cycle_reach B \<lparr>cw_consumer = co, cw_pending = []\<rparr>"
| cycle_next: "cycle_reach B w \<Longrightarrow> cycle_step B w w' \<Longrightarrow> cycle_reach B w'"

definition pending_count :: "cycle_world \<Rightarrow> nat \<Rightarrow> nat" where
  "pending_count w i = count_list (map effect_queue (cw_pending w)) i"

section \<open>Invariants\<close>

definition table_ok :: "PushConsumerImpl \<Rightarrow> bool" where
  "table_ok co \<longleftrightarrow> hm_inv mq_key (co_process_queue_table co)
     \<and> distinct (map (fst \<circ> snd) (co_process_queue_table co))
     \<and> (\<forall>k i pq. (k, i, pq) \<in> set (co_process_queue_table co) \<longrightarrow> i < co_next_queue co
         \<and> mq_key (pq_message_queue pq) = mq_key k \<and> mq_service_address (pq_message_queue pq) \<noteq> [])
     \<and> co_receive_message_policy co = POLLING"

definition quantity :: "PushConsumerImpl \<Rightarrow> nat \<Rightarrow> nat" where
  "quantity co i = (case find_queue co i of None \<Rightarrow> 0 | Some pq \<Rightarrow> unat (pq_cached_message_quantity pq))"

definition cycle_ok :: "nat \<Rightarrow> cycle_world \<Rightarrow> bool" where
  "cycle_ok B w \<longleftrightarrow> table_ok (cw_consumer w) \<and> list_all continues (cw_pending w)
     \<and> (\<forall>i. pending_count w i \<le> 1 \<and> (co_next_queue (cw_consumer w) \<le> i \<longrightarrow> pending_count w i = 0)
         \<and> (active (cw_consumer w) \<and> find_queue (cw_consumer w) i \<noteq> None \<longrightarrow> pending_count w i = 1)
         \<and> quantity (cw_consumer w) i \<le> 1023 + B
         \<and> (\<forall>c. IssueReceive i c \<in> set (cw_pending w) \<longrightarrow> quantity (cw_consumer w) i \<le> 1023))"

section \<open>Lemmas: the table of queues\<close>

lemma find_queue_Some: "find_queue co i = Some pq \<Longrightarrow> \<exists>k. (k, i, pq) \<in> set (co_process_queue_table co)"
  unfolding find_queue_def by (drule map_of_SomeD) auto

lemma find_queue_in:
  assumes "table_ok co" "(k, i, pq) \<in> set (co_process_queue_table co)"
  shows "find_queue co i = Some pq"
proof -
  have "map fst (map snd (co_process_queue_table co)) = map (fst \<circ> snd) (co_process_queue_table co)" by simp
  then have "distinct (map fst (map snd (co_process_queue_table co)))" using assms(1) by (simp only: table_ok_def)
  moreover have "(i, pq) \<in> set (map snd (co_process_queue_table co))" using assms(2) by force
  ultimately show ?thesis unfolding find_queue_def by simp
qed

lemma find_update_queue:
  "find_queue (update_queue co i f) j = (if j = i then map_option f (find_queue co i) else find_queue co j)"
proof -
  have "map_of (map snd (map (\<lambda>(k, j, pq). (k, j, if j = i then f pq else pq)) t)) j
      = (if j = i then map_option f (map_of (map snd t) i) else map_of (map snd t) j)" for t :: "(MQMessageQueue \<times> nat \<times> ProcessQueue) list"
    by (induction t) auto
  then show ?thesis by (simp add: find_queue_def update_queue_def del: map_map)
qed

lemma update_queue_frame [simp]:
  "active (update_queue co i f) = active co"
  "co_next_queue (update_queue co i f) = co_next_queue co"
  "co_receive_message_policy (update_queue co i f) = co_receive_message_policy co"
  by (simp_all add: update_queue_def active_def)

lemma table_ok_update:
  assumes "table_ok co" "\<And>pq. find_queue co i = Some pq \<Longrightarrow> pq_message_queue (f pq) = pq_message_queue pq"
  shows "table_ok (update_queue co i f)"
proof -
  let ?u = "\<lambda>(k :: MQMessageQueue, j, pq). (k, j, if j = i then f pq else pq)"
  have same: "mq_key (pq_message_queue (f pq)) = mq_key (pq_message_queue pq)"
    "mq_service_address (pq_message_queue (f pq)) = mq_service_address (pq_message_queue pq)"
    if "(k, i, pq) \<in> set (co_process_queue_table co)" for k pq
    using assms(2)[OF find_queue_in[OF assms(1) that]] by simp_all
  have table: "co_process_queue_table (update_queue co i f) = map ?u (co_process_queue_table co)"
    by (simp add: update_queue_def)
  have keys: "map (mq_key \<circ> fst) (map ?u (co_process_queue_table co)) = map (mq_key \<circ> fst) (co_process_queue_table co)"
    "map (fst \<circ> snd) (map ?u (co_process_queue_table co)) = map (fst \<circ> snd) (co_process_queue_table co)"
    by auto
  have "j < co_next_queue co \<and> mq_key (pq_message_queue pq) = mq_key k \<and> mq_service_address (pq_message_queue pq) \<noteq> []"
    if mem: "(k, j, pq) \<in> set (map ?u (co_process_queue_table co))" for k j pq
  proof -
    obtain pq0 where e: "(k, j, pq0) \<in> set (co_process_queue_table co)" "pq = (if j = i then f pq0 else pq0)"
      using mem by (auto split: if_splits)
    then show ?thesis using assms(1) same[of k pq0] unfolding table_ok_def by (metis (full_types))
  qed
  then show ?thesis using assms(1) unfolding table_ok_def hm_inv_def table keys update_queue_frame by blast
qed

lemma find_by_queue:
  assumes "table_ok co" "find_queue co i = Some pq"
  shows "hm_find mq_key (co_process_queue_table co) (pq_message_queue pq) = Some (i, pq)"
proof -
  obtain k where k: "(k, i, pq) \<in> set (co_process_queue_table co)" using find_queue_Some[OF assms(2)] by blast
  then have "mq_key (pq_message_queue pq) = mq_key k"
    using assms(1) unfolding table_ok_def by blast
  then show ?thesis using assms(1) hm_inv_findI[of mq_key, OF _ k] hm_find_cong[of mq_key "pq_message_queue pq" k "co_process_queue_table co"]
    by (simp add: table_ok_def)
qed

lemma find_queue_facts:
  assumes "table_ok co" "find_queue co i = Some pq"
  shows "i < co_next_queue co" "mq_service_address (pq_message_queue pq) \<noteq> []"
  using find_queue_Some[OF assms(2)] assms(1) unfolding table_ok_def by blast+

section \<open>Lemmas: one turn of a queue\<close>

lemma queue_receive_turn:
  assumes "co_receive_message_policy co = POLLING" "find_queue co i = Some pq"
  shows "\<exists>c. queue_receive env co i = (update_queue co i (\<lambda>_. syncIdleState pq (ev_now env)), [IssueReceive i c])"
  using assms by (simp add: queue_receive_def pq_receiveMessage_def push_view_def popMessage_def)

lemma receiveMessage_existing:
  assumes "table_ok co" "active co" "find_queue co i = Some pq"
  shows "\<exists>c. receiveMessage env co (pq_message_queue pq) fe =
    (update_queue co i (\<lambda>_. syncIdleState pq (ev_now env)), True, [IssueReceive i c])"
proof -
  have pol: "co_receive_message_policy co = POLLING" using assms(1) by (simp add: table_ok_def)
  then obtain c where "queue_receive env co i = (update_queue co i (\<lambda>_. syncIdleState pq (ev_now env)), [IssueReceive i c])"
    using queue_receive_turn[OF _ assms(3)] by blast
  then show ?thesis using assms pol find_by_queue[OF assms(1,3)] find_queue_facts[OF assms(1,3)]
    by (simp add: receiveMessage_def getOrCreateProcessQueue_def Let_def)
qed

text \<open>What an operation on behalf of queue \<open>i\<close> does: it changes no other queue, keeps queue \<open>i\<close> with
  at most \<open>d\<close> messages more, and leaves exactly one pending receive while the consumer is active; a
  request is only left when the cache has room.\<close>

definition turn :: "nat \<Rightarrow> PushConsumerImpl \<Rightarrow> nat \<Rightarrow> PushConsumerImpl \<Rightarrow> receive_effect list \<Rightarrow> bool" where
  "turn d co i co' effs \<longleftrightarrow> table_ok co' \<and> co_next_queue co' = co_next_queue co \<and> active co' = active co
     \<and> (\<forall>j. (find_queue co' j = None) = (find_queue co j = None))
     \<and> (\<forall>j. j \<noteq> i \<longrightarrow> quantity co' j = quantity co j) \<and> quantity co' i \<le> quantity co i + d
     \<and> map effect_queue (pending_of effs) \<in> {[], [i]}
     \<and> (active co \<and> find_queue co i \<noteq> None \<longrightarrow> map effect_queue (pending_of effs) = [i])
     \<and> (\<forall>c. IssueReceive i c \<in> set effs \<longrightarrow> quantity co' i \<le> 1023)"

lemma quantity_update:
  "quantity (update_queue co i f) j = (if j = i then case find_queue co i of None \<Rightarrow> 0
     | Some pq \<Rightarrow> unat (pq_cached_message_quantity (f pq)) else quantity co j)"
  by (simp add: quantity_def find_update_queue split: option.splits)

lemma turn_none: "table_ok co \<Longrightarrow> find_queue co i = None \<Longrightarrow> turn d co i co []"
  by (simp add: turn_def pending_of_def)

lemma turn_later: "table_ok co \<Longrightarrow> turn d co i co (receiveMessageLater co i)"
  by (auto simp: turn_def pending_of_def receiveMessageLater_def split: option.splits)

lemma turn_checkThrottle:
  assumes "table_ok co" "checkThrottleThenReceive env co i = (co', effs)"
  shows "turn 0 co i co' effs"
proof (cases "find_queue co i")
  case None
  then show ?thesis using assms by (simp add: checkThrottleThenReceive_def turn_none)
next
  case (Some pq)
  let ?idle = "\<lambda>pq. syncIdleState pq (ev_now env)"
  have ok: "table_ok (update_queue co i f)" "quantity (update_queue co i f) j = quantity co j"
    "(find_queue (update_queue co i f) j = None) = (find_queue co j = None)" if "f pq = ?idle pq" for j f
    using assms(1) Some that
    by (auto simp: quantity_update quantity_def find_update_queue syncIdleState_def intro!: table_ok_update)
  show ?thesis
  proof (cases "shouldThrottle (Some (push_view co)) pq")
    case True
    then have "co' = update_queue co i ?idle" "effs = [ReceiveLater i]"
      using assms(2) Some by (auto simp: checkThrottleThenReceive_def Let_def receiveMessageLater_def find_update_queue)
    then show ?thesis using ok[of ?idle] Some by (simp add: turn_def pending_of_def)
  next
    case False
    then have room: "quantity co i \<le> 1023" using Some
      by (auto simp: shouldThrottle_def push_view_def quantity_def DEFAULT_CACHED_MESSAGE_COUNT_def not_le
          word_less_nat_alt split: if_splits)
    show ?thesis
    proof (cases "active co")
      case True
      then obtain c where "co' = update_queue co i (\<lambda>_. ?idle pq)" "effs = [IssueReceive i c]"
        using receiveMessage_existing[OF assms(1) True Some, of env "pq_filter_expression pq"] assms(2) Some False
        by (auto simp: checkThrottleThenReceive_def receiveMessageImmediately_def)
      then show ?thesis using ok[of "\<lambda>_. ?idle pq"] Some room by (simp add: turn_def pending_of_def)
    next
      case inactive: False
      then have "co' = co" "effs = []" using assms(2) Some False
        by (simp_all add: checkThrottleThenReceive_def receiveMessageImmediately_def receiveMessage_def)
      then show ?thesis using assms(1) inactive by (simp add: turn_def pending_of_def)
    qed
  qed
qed

lemma cache_message_queue [simp]: "pq_message_queue (fst (cache_message c pq m)) = pq_message_queue pq"
  by (simp add: cache_message_def Let_def)

lemma cache_loop_queue [simp]: "pq_message_queue (fst (cache_loop c pq ms)) = pq_message_queue pq"
  by (induction ms arbitrary: pq) (simp_all add: case_prod_unfold Let_def)

lemma unat_add_le: "unat (a + of_nat n :: u32) \<le> unat a + n"
proof -
  have "unat (a + of_nat n) \<le> unat a + unat (of_nat n :: u32)" unfolding unat_word_ariths(1) by simp
  moreover have "unat (of_nat n :: u32) \<le> n" unfolding unat_of_nat by simp
  ultimately show ?thesis by linarith
qed

lemma cache_received_turn:
  assumes "table_ok co" "find_queue co i = Some pq" "cache_received co i pq ms = (co', effs)"
  shows "table_ok co'" "co_next_queue co' = co_next_queue co" "active co' = active co"
    "\<And>j. (find_queue co' j = None) = (find_queue co j = None)"
    "\<And>j. j \<noteq> i \<Longrightarrow> quantity co' j = quantity co j" "quantity co' i \<le> quantity co i + length ms"
    "pending_of effs = []" "\<And>c. IssueReceive i c \<notin> set effs"
proof -
  let ?pq = "fst (cache_loop (push_view co) pq ms)"
  have co': "co' = update_queue co i (\<lambda>_. ?pq)" and effs: "\<exists>rs. effs = map AckRejected rs @ [SignalDispatcher]"
    using assms(3) by (auto simp: cache_received_def cacheMessages_def Let_def split_beta)
  have "unat (pq_cached_message_quantity ?pq) \<le> unat (pq_cached_message_quantity pq) + length ms"
    using unat_add_le[of "pq_cached_message_quantity pq" "length (filter (pq_accepts pq) ms)"]
      length_filter_le[of "pq_accepts pq" ms] unfolding cache_loop_simps by linarith
  then show "quantity co' i \<le> quantity co i + length ms"
    using assms(2) by (simp add: co' quantity_update) (simp add: quantity_def)
  show "table_ok co'" unfolding co' using assms(1,2) by (intro table_ok_update) auto
  show "pending_of effs = []" "\<And>c. IssueReceive i c \<notin> set effs"
    using effs by (auto simp: pending_of_def filter_empty_conv)
qed (use assms in \<open>auto simp: cache_received_def Let_def split_beta find_update_queue quantity_update split: if_splits\<close>)

lemma turn_trans:
  assumes "turn 0 co1 i co2 effs2" "table_ok co1" "co_next_queue co1 = co_next_queue co" "active co1 = active co"
    "\<And>j. (find_queue co1 j = None) = (find_queue co j = None)"
    "\<And>j. j \<noteq> i \<Longrightarrow> quantity co1 j = quantity co j" "quantity co1 i \<le> quantity co i + d"
    "pending_of effs1 = []" "\<And>c. IssueReceive i c \<notin> set effs1"
  shows "turn d co i co2 (effs1 @ effs2)"
  using assms by (simp add: turn_def pending_of_def)

lemma turn_onSuccess:
  assumes "table_ok co" "onSuccess env co i r = Some (co', effs)" "length (rr_messages r) \<le> B"
  shows "turn B co i co' effs"
proof (cases "find_queue co i")
  case None
  then show ?thesis using assms by (simp add: onSuccess_def turn_none)
next
  case (Some pq)
  have pol: "co_receive_message_policy co = POLLING" using assms(1) by (simp add: table_ok_def)
  have plain: "turn B co i c effs'" if "checkThrottleThenReceive env co i = (c, effs')" for c effs'
    using turn_checkThrottle[OF assms(1) that] by (simp add: turn_def)
  have cached: "turn B co i c' (effs1 @ effs2)"
    if c: "cache_received co i pq (rr_messages r) = (c, effs1)" "checkThrottleThenReceive env c i = (c', effs2)"
    for c c' effs1 effs2
  proof -
    note cr = cache_received_turn[OF assms(1) Some c(1)]
    have "quantity c i \<le> quantity co i + B" using cr(6) assms(3) by linarith
    then show ?thesis by (intro turn_trans[OF turn_checkThrottle[OF cr(1) c(2)]] cr)
  qed
  show ?thesis
  proof (cases "active co")
    case False
    then show ?thesis using assms Some by (auto simp: onSuccess_def turn_def pending_of_def)
  next
    case True
    have later: "turn B co i co (receiveMessageLater co i)" using assms(1) by (rule turn_later)
    obtain c effs1 where cr: "cache_received co i pq (rr_messages r) = (c, effs1)" by fastforce
    obtain c2 effs2 where ct: "checkThrottleThenReceive env c i = (c2, effs2)" by fastforce
    obtain c3 effs3 where ct': "checkThrottleThenReceive env co i = (c3, effs3)" by fastforce
    note run = assms(2)[unfolded onSuccess_def Some, simplified, unfolded pol Let_def]
    show ?thesis
      using run True later plain[OF ct'] cached[OF cr ct]
      by (cases "rr_status r") (auto simp: cr ct ct')
  qed
qed

lemma turn_onPopResponse:
  assumes "table_ok co" "onPopResponse env co i ok code result = Some (co', effs)"
    "case result of None \<Rightarrow> True | Some r \<Rightarrow> length (rr_messages r) \<le> B"
  shows "turn B co i co' effs"
  using assms turn_onSuccess[OF assms(1), of env i _ co' effs B] turn_later[OF assms(1), of B i] turn_none[OF assms(1), of i B]
  by (auto simp: onPopResponse_def onFailure_def split: if_splits option.splits)

section \<open>Lemmas: the scan\<close>

definition table_keys :: "PushConsumerImpl \<Rightarrow> (string \<times> string \<times> int) set" where
  "table_keys co = (mq_key \<circ> fst) ` set (co_process_queue_table co)"

lemma table_keys_update [simp]: "table_keys (update_queue co i f) = table_keys co"
  unfolding table_keys_def update_queue_def by (simp add: image_image split_beta)

lemma find_queue_fresh: "table_ok co \<Longrightarrow> co_next_queue co \<le> i \<Longrightarrow> find_queue co i = None"
  using find_queue_facts(1)[of co i] by (cases "find_queue co i") auto

text \<open>A queue is added to the table.\<close>

definition new_queue :: "PushConsumerImpl \<Rightarrow> MQMessageQueue \<Rightarrow> ProcessQueue \<Rightarrow> PushConsumerImpl" where
  "new_queue co q pq = co\<lparr>co_process_queue_table := co_process_queue_table co @ [(q, co_next_queue co, pq)],
     co_next_queue := Suc (co_next_queue co)\<rparr>"

lemma new_queue_ok:
  assumes "table_ok co" "mq_key q \<notin> table_keys co" "mq_service_address q \<noteq> []" "pq_message_queue pq = q"
  shows "table_ok (new_queue co q pq)"
proof -
  have "\<forall>k i p. (k, i, p) \<in> set (co_process_queue_table co) \<longrightarrow> i < co_next_queue co"
    using assms(1) unfolding table_ok_def by blast
  then have "co_next_queue co \<notin> (fst \<circ> snd) ` set (co_process_queue_table co)" by force
  then show ?thesis using assms unfolding table_ok_def new_queue_def hm_inv_def table_keys_def
    by (auto simp: less_Suc_eq)
qed

lemma find_new_queue:
  assumes "table_ok co"
  shows "find_queue (new_queue co q pq) j = (if j = co_next_queue co then Some pq else find_queue co j)"
  using find_queue_fresh[OF assms order_refl]
  by (auto simp: find_queue_def new_queue_def map_add_def split: option.splits)

lemma receiveMessage_new:
  assumes "table_ok co" "active co" "mq_key q \<notin> table_keys co" "mq_service_address q \<noteq> []"
    and "receiveMessage env co q fe = (co1, done', effs)"
  shows "table_ok co1 \<and> active co1 \<and> co_next_queue co1 = Suc (co_next_queue co)
    \<and> table_keys co1 = insert (mq_key q) (table_keys co)
    \<and> (\<exists>c. effs = [IssueReceive (co_next_queue co) c])
    \<and> (\<forall>j. j \<noteq> co_next_queue co \<longrightarrow> find_queue co1 j = find_queue co j)
    \<and> find_queue co1 (co_next_queue co) \<noteq> None \<and> quantity co1 (co_next_queue co) = 0"
proof -
  define pq where "pq = make_ProcessQueue q fe (ev_now env)"
  define co0 where "co0 = new_queue co q pq"
  have ok0: "table_ok co0" unfolding co0_def
    using assms(1,3,4) by (intro new_queue_ok) (auto simp: pq_def make_ProcessQueue_def)
  have frame: "active co0" "co_next_queue co0 = Suc (co_next_queue co)" "co_receive_message_policy co0 = POLLING"
    "table_keys co0 = insert (mq_key q) (table_keys co)"
    using assms(1,2) by (simp_all add: co0_def new_queue_def active_def table_ok_def table_keys_def)
  have found: "find_queue co0 (co_next_queue co) = Some pq" "\<And>j. j \<noteq> co_next_queue co \<Longrightarrow> find_queue co0 j = find_queue co j"
    using find_new_queue[OF assms(1), of q pq] by (simp_all add: co0_def)
  have "hm_find mq_key (co_process_queue_table co) q = None" using assms(3) by (simp add: hm_find_None table_keys_def)
  then have get: "getOrCreateProcessQueue (ev_now env) co q fe = (co0, Some (co_next_queue co))"
    using assms(2) by (simp add: getOrCreateProcessQueue_def co0_def new_queue_def pq_def Let_def hm_emplace_def hm_contains_def)
  obtain c where turn: "queue_receive env co0 (co_next_queue co)
      = (update_queue co0 (co_next_queue co) (\<lambda>_. syncIdleState pq (ev_now env)), [IssueReceive (co_next_queue co) c])"
    using queue_receive_turn[OF frame(3) found(1), of env] by blast
  have eq: "co1 = update_queue co0 (co_next_queue co) (\<lambda>_. syncIdleState pq (ev_now env))" "effs = [IssueReceive (co_next_queue co) c]"
    using assms(2,4,5) get turn frame(3) by (simp_all add: receiveMessage_def)
  have "table_ok co1" unfolding eq(1) using ok0 found(1)
    by (intro table_ok_update) (auto simp: syncIdleState_def)
  moreover have "quantity co1 (co_next_queue co) = 0"
    by (simp add: eq(1) quantity_update found(1) syncIdleState_def pq_def make_ProcessQueue_def)
  ultimately show ?thesis using frame found by (simp add: eq find_update_queue)
qed

definition scanned :: "PushConsumerImpl \<Rightarrow> PushConsumerImpl \<Rightarrow> receive_effect list \<Rightarrow> bool" where
  "scanned co co' effs \<longleftrightarrow> table_ok co' \<and> active co' = active co \<and> co_next_queue co \<le> co_next_queue co'
     \<and> (\<forall>j < co_next_queue co. find_queue co' j = find_queue co j)
     \<and> (\<forall>j \<ge> co_next_queue co. quantity co' j = 0)
     \<and> (\<forall>e\<in>set effs. continues e) \<and> map effect_queue effs = [co_next_queue co..<co_next_queue co']"

lemma start_receiving_scanned:
  assumes "start_receiving env fe cur qs co = (co', effs)" "table_ok co"
    and "distinct (map mq_key qs)" "\<forall>q\<in>set qs. mq_service_address q \<noteq> []"
    and "\<forall>q\<in>set qs. list_all (\<lambda>item. \<not> mq_eq item q) cur \<longrightarrow> mq_key q \<notin> table_keys co"
  shows "scanned co co' effs"
  using assms
proof (induction qs arbitrary: co co' effs)
  case Nil
  then show ?case using find_queue_fresh[OF Nil(2)] by (auto simp: scanned_def quantity_def)
next
  case (Cons q qs)
  show ?case
  proof (cases "list_all (\<lambda>item. \<not> mq_eq item q) cur")
    case False
    then show ?thesis using Cons by simp
  next
    case new: True
    obtain co1 d effs1 where one: "receiveMessage env co q fe = (co1, d, effs1)" by (metis prod_cases3)
    obtain effs2 where rest: "start_receiving env fe cur qs co1 = (co', effs2)" "effs = effs1 @ effs2"
      using Cons.prems(1) new one by (auto simp: Let_def split: prod.splits)
    show ?thesis
    proof (cases "active co")
      case False
      then have "co1 = co" "effs1 = []" using one by (simp_all add: receiveMessage_def)
      then show ?thesis using Cons.IH[OF rest(1)] Cons.prems rest(2) by simp
    next
      case True
      have fresh: "mq_key q \<notin> table_keys co" "mq_service_address q \<noteq> []" using Cons.prems new by auto
      note r = receiveMessage_new[OF Cons.prems(2) True fresh one]
      have "\<forall>q'\<in>set qs. mq_key q' \<noteq> mq_key q" using Cons.prems(3) by (simp add: image_iff) metis
      then have "scanned co1 co' effs2"
        using Cons.prems new r by (intro Cons.IH[OF rest(1)]) auto
      then have s: "scanned co1 co' effs2" .
      have "find_queue co' (co_next_queue co) = find_queue co1 (co_next_queue co)" using s r by (simp add: scanned_def)
      then have "quantity co' (co_next_queue co) = 0" using r by (simp add: quantity_def)
      moreover have "quantity co' j = 0" if "Suc (co_next_queue co) \<le> j" for j using s r that by (simp add: scanned_def)
      ultimately have "quantity co' j = 0" if "co_next_queue co \<le> j" for j using that by (cases "j = co_next_queue co") auto
      then show ?thesis using r True rest(2) s by (auto simp: scanned_def upt_conv_Cons)
    qed
  qed
qed

lemma filter_table_ok:
  assumes "table_ok co"
  shows "table_ok (co\<lparr>co_process_queue_table := filter P (co_process_queue_table co)\<rparr>)"
  using assms unfolding table_ok_def hm_inv_def by (auto simp: distinct_map_filter)

lemma find_filter_queue:
  assumes "table_ok co" "find_queue (co\<lparr>co_process_queue_table := filter P (co_process_queue_table co)\<rparr>) i = Some pq"
  shows "find_queue co i = Some pq"
  using find_queue_Some[OF assms(2)] find_queue_in[OF assms(1)] by auto

lemma onScanResult_scanned:
  assumes "table_ok co" "assignment_ok topic qs" "onScanResult env co topic fe ec (Some qs) = (co', effs)"
  shows "\<exists>P. scanned (co\<lparr>co_process_queue_table := filter P (co_process_queue_table co)\<rparr>) co' effs"
proof (cases "failed ec \<or> qs = []")
  case True
  then have "co' = co" "effs = []" using assms(3) by (auto simp: onScanResult_def split: if_splits)
  then have "scanned (co\<lparr>co_process_queue_table := filter (\<lambda>_. True) (co_process_queue_table co)\<rparr>) co' effs"
    using assms(1) find_queue_fresh[OF assms(1)] by (auto simp: scanned_def quantity_def)
  then show ?thesis by blast
next
  case False
  define P where "P = keep_queue (ev_now env) topic qs"
  define kept where "kept = filter P (co_process_queue_table co)"
  define cur where "cur = map fst (filter (\<lambda>(k, _). topic = mq_topic k) kept)"
  have run: "start_receiving env fe cur qs (co\<lparr>co_process_queue_table := kept\<rparr>) = (co', effs)"
    using assms(3) False by (simp add: onScanResult_def syncProcessQueue_def Let_def P_def kept_def cur_def)
  have "mq_key q \<notin> table_keys (co\<lparr>co_process_queue_table := kept\<rparr>)"
    if q: "q \<in> set qs" "list_all (\<lambda>item. \<not> mq_eq item q) cur" for q
  proof
    assume "mq_key q \<in> table_keys (co\<lparr>co_process_queue_table := kept\<rparr>)"
    then obtain k e where k: "(k, e) \<in> set kept" "mq_key q = mq_key k" by (auto simp: table_keys_def)
    then have "mq_topic k = topic" using assms(2) q(1) by (auto simp: assignment_ok_def mq_key_def)
    then have "k \<in> set cur" using k(1) by (force simp: cur_def)
    then show False using q(2) k(2) by (auto simp: list_all_iff mq_eq_key)
  qed
  then have "scanned (co\<lparr>co_process_queue_table := kept\<rparr>) co' effs"
    using assms(2) by (intro start_receiving_scanned[OF run])
      (auto simp: kept_def filter_table_ok[OF assms(1)] assignment_ok_def)
  then show ?thesis unfolding kept_def by blast
qed

section \<open>Lemmas: the invariant\<close>

lemma pending_count_append:
  "pending_count (w\<lparr>cw_consumer := co, cw_pending := ps @ pending_of effs\<rparr>) i
     = count_list (map effect_queue ps) i + count_list (map effect_queue (pending_of effs)) i"
  by (simp add: pending_count_def)

lemma count_list_remove1_map:
  assumes "e \<in> set ps"
  shows "count_list (map f (remove1 e ps)) i = count_list (map f ps) i - (if f e = i then 1 else 0)"
  using count_list_map_remove1[OF assms, of f i] by auto

lemma pending_of_continues: "\<forall>e\<in>set (pending_of effs). continues e"
  by (simp add: pending_of_def)

lemma cycle_ok_one:
  assumes "cycle_ok B w" "e \<in> set (cw_pending w)"
  shows "count_list (map effect_queue (cw_pending w)) (effect_queue e) = 1"
proof -
  have "count_list (map effect_queue (cw_pending w)) (effect_queue e) \<noteq> 0" using assms(2) by (auto simp: count_list_0_iff)
  then show ?thesis using assms(1) unfolding cycle_ok_def pending_count_def by (metis le_antisym less_one linorder_not_le)
qed

lemma turn_quantity:
  assumes ok: "cycle_ok B w" and e: "e \<in> set (cw_pending w)"
    and t: "turn d (cw_consumer w) i co effs" and d: "d = 0 \<or> (\<exists>c. e = IssueReceive i c) \<and> d = B"
  shows "quantity co j \<le> 1023 + B"
proof (cases "j = i")
  case True
  have "quantity co i \<le> quantity (cw_consumer w) i + d" "quantity (cw_consumer w) i \<le> 1023 + B"
    using ok t by (simp_all add: cycle_ok_def turn_def)
  moreover have "quantity (cw_consumer w) i \<le> 1023" if "e = IssueReceive i c" for c
    using ok e that unfolding cycle_ok_def by blast
  ultimately show ?thesis using True d by auto
next
  case False
  then show ?thesis using ok t by (simp add: cycle_ok_def turn_def)
qed

lemma cycle_ok_turn:
  assumes ok: "cycle_ok B w" and e: "e \<in> set (cw_pending w)" "effect_queue e = i"
    and t: "turn d (cw_consumer w) i co effs" and d: "d = 0 \<or> (\<exists>c. e = IssueReceive i c) \<and> d = B"
  shows "cycle_ok B (w\<lparr>cw_consumer := co, cw_pending := remove1 e (cw_pending w) @ pending_of effs\<rparr>)"
    (is "cycle_ok B ?w")
proof -
  let ?n = "map effect_queue (pending_of effs)"
  have one: "count_list (map effect_queue (cw_pending w)) i = 1" using cycle_ok_one[OF ok e(1)] e(2) by simp
  have cnt: "pending_count ?w j = (if j = i then count_list ?n i else pending_count w j)" for j
    using one t e by (auto simp: pending_count_append count_list_remove1_map pending_count_def turn_def)
  have q: "quantity co j \<le> 1023 + B" for j using turn_quantity[OF ok e(1) t d] .
  have issue: "quantity co j \<le> 1023" if "IssueReceive j c \<in> set (cw_pending ?w)" for j c
  proof (cases "j = i")
    case True
    have "i \<notin> set (map effect_queue (remove1 e (cw_pending w)))"
      using one e count_list_remove1_map[OF e(1), of effect_queue i] by (simp add: count_list_0_iff)
    then have "IssueReceive i c \<in> set effs" using that True by (force simp: pending_of_def)
    then show ?thesis using t True by (auto simp: turn_def)
  next
    case False
    then have "IssueReceive j c \<notin> set (pending_of effs)" using t by (force simp: turn_def)
    then have "IssueReceive j c \<in> set (cw_pending w)" using that set_remove1_subset[of e "cw_pending w"] by auto
    then show ?thesis using ok t False by (auto simp: cycle_ok_def turn_def)
  qed
  have "list_all continues (cw_pending ?w)"
    using ok set_remove1_subset[of e "cw_pending w"] pending_of_continues[of effs]
    by (auto simp: cycle_ok_def list_all_iff)
  moreover have "pending_count ?w j \<le> 1 \<and> (co_next_queue co \<le> j \<longrightarrow> pending_count ?w j = 0)
      \<and> (active co \<and> find_queue co j \<noteq> None \<longrightarrow> pending_count ?w j = 1)" for j
  proof (cases "j = i")
    case True
    have "\<not> co_next_queue co \<le> i" using ok t one unfolding cycle_ok_def turn_def pending_count_def by auto
    then show ?thesis using True t by (auto simp: cnt turn_def)
  next
    case False
    then show ?thesis using ok t by (simp add: cnt turn_def cycle_ok_def)
  qed
  moreover have "table_ok co" using t by (simp add: turn_def)
  ultimately show ?thesis using q issue unfolding cycle_ok_def by simp
qed

lemma count_list_upt: "count_list [a..<b] j = (if a \<le> j \<and> j < b then 1 else 0)"
  by (induction b) auto

lemma quantity_filter:
  assumes "table_ok co"
  shows "quantity (co\<lparr>co_process_queue_table := filter P (co_process_queue_table co)\<rparr>) j \<le> quantity co j"
proof (cases "find_queue (co\<lparr>co_process_queue_table := filter P (co_process_queue_table co)\<rparr>) j")
  case (Some pq)
  then show ?thesis using find_filter_queue[OF assms Some] by (simp add: quantity_def)
qed (simp add: quantity_def)

lemma scanned_quantity:
  assumes "table_ok old" "scanned (old\<lparr>co_process_queue_table := filter P (co_process_queue_table old)\<rparr>) co effs"
  shows "quantity co j \<le> quantity old j"
proof (cases "j < co_next_queue old")
  case True
  then have "find_queue co j = find_queue (old\<lparr>co_process_queue_table := filter P (co_process_queue_table old)\<rparr>) j"
    using assms(2) by (simp add: scanned_def)
  then show ?thesis using quantity_filter[OF assms(1), of P j] by (simp add: quantity_def)
qed (use assms(2) in \<open>simp add: scanned_def\<close>)

lemma cycle_ok_scan:
  assumes ok: "cycle_ok B w"
    and s: "scanned ((cw_consumer w)\<lparr>co_process_queue_table := filter P (co_process_queue_table (cw_consumer w))\<rparr>) co effs"
  shows "cycle_ok B (w\<lparr>cw_consumer := co, cw_pending := cw_pending w @ pending_of effs\<rparr>)" (is "cycle_ok B ?w")
proof -
  let ?old = "cw_consumer w"
  let ?f = "?old\<lparr>co_process_queue_table := filter P (co_process_queue_table ?old)\<rparr>"
  have tok: "table_ok ?old" using ok by (simp add: cycle_ok_def)
  have same: "pending_of effs = effs" using s by (simp add: scanned_def pending_of_def filter_id_conv)
  have frame: "table_ok co" "active co = active ?old" "co_next_queue ?old \<le> co_next_queue co"
    using s by (simp_all add: scanned_def active_def)
  have cnt: "pending_count ?w j = pending_count w j + (if co_next_queue ?old \<le> j \<and> j < co_next_queue co then 1 else 0)" for j
    using s by (simp add: pending_count_append same scanned_def count_list_upt pending_count_def)
  have low: "find_queue co j = find_queue ?f j" if "j < co_next_queue ?old" for j using s that by (simp add: scanned_def)
  have qlow: "quantity co j \<le> quantity ?old j" for j using scanned_quantity[OF tok s] .
  have high: "quantity co j = 0" if "co_next_queue ?old \<le> j" for j using s that by (simp add: scanned_def)
  have "pending_count ?w j \<le> 1 \<and> (co_next_queue co \<le> j \<longrightarrow> pending_count ?w j = 0)
      \<and> (active co \<and> find_queue co j \<noteq> None \<longrightarrow> pending_count ?w j = 1)" for j
  proof (cases "j < co_next_queue ?old")
    case True
    have "find_queue ?old j \<noteq> None" if "find_queue co j \<noteq> None"
      using find_filter_queue[OF tok, of P j] that low[OF True] by auto
    then show ?thesis using True ok frame by (auto simp: cnt cycle_ok_def)
  next
    case False
    then have zero: "pending_count w j = 0" using ok by (simp add: cycle_ok_def)
    have "j < co_next_queue co" if "find_queue co j \<noteq> None"
      using that find_queue_fresh[OF frame(1)] by (meson not_le)
    then show ?thesis using False zero by (auto simp: cnt)
  qed
  moreover have "quantity co j \<le> 1023" if "IssueReceive j c \<in> set (cw_pending ?w)" for j c
  proof (cases "IssueReceive j c \<in> set (cw_pending w)")
    case True
    then have "quantity ?old j \<le> 1023" using ok unfolding cycle_ok_def by blast
    then show ?thesis using qlow[of j] by linarith
  next
    case False
    then have "IssueReceive j c \<in> set effs" using that same by simp
    then have "j \<in> set (map effect_queue effs)" by force
    moreover have "map effect_queue effs = [co_next_queue ?old..<co_next_queue co]" using s by (simp add: scanned_def)
    ultimately have "co_next_queue ?old \<le> j" by simp
    then show ?thesis using high by simp
  qed
  moreover have "quantity co j \<le> 1023 + B" for j using qlow[of j] ok unfolding cycle_ok_def by (meson le_trans)
  moreover have "list_all continues (cw_pending ?w)"
    using ok pending_of_continues[of effs] by (auto simp: cycle_ok_def list_all_iff)
  ultimately show ?thesis using frame unfolding cycle_ok_def by simp
qed

lemma cycle_ok_consumer:
  assumes "cycle_ok B w" "table_ok co" "co_next_queue co = co_next_queue (cw_consumer w)"
    and "active co \<Longrightarrow> active (cw_consumer w)"
    and "\<And>j. find_queue co j \<noteq> None \<Longrightarrow> find_queue (cw_consumer w) j \<noteq> None"
    and "\<And>j. quantity co j \<le> quantity (cw_consumer w) j"
  shows "cycle_ok B (w\<lparr>cw_consumer := co\<rparr>)"
proof -
  have same: "pending_count (w\<lparr>cw_consumer := co\<rparr>) i = pending_count w i" for i by (simp add: pending_count_def)
  have "quantity co j \<le> 1023 + B" "IssueReceive j c \<in> set (cw_pending w) \<Longrightarrow> quantity co j \<le> 1023" for j c
    using assms(1) assms(6)[of j] unfolding cycle_ok_def by (meson le_trans)+
  then show ?thesis using assms unfolding cycle_ok_def same by simp
qed

lemma push_shutdown_facts:
  assumes "push_shutdown co = Some (co', acts)"
  shows "co_process_queue_table co' = [] \<and> \<not> active co' \<and> co_next_queue co' = co_next_queue co
    \<and> co_receive_message_policy co' = co_receive_message_policy co"
  using assms
  by (auto simp: push_shutdown_def client_shutdown_def Let_def active_def compare_exchange_def
      split: option.splits prod.splits if_splits)

lemma cycle_ok_step:
  assumes "cycle_step B w w'" "cycle_ok B w"
  shows "cycle_ok B w'"
  using assms(1)
proof cases
  case (cycle_scan topic qs env fe ec co effs)
  have "table_ok (cw_consumer w)" using assms(2) by (simp add: cycle_ok_def)
  from onScanResult_scanned[OF this cycle_scan(2,3)] show ?thesis using cycle_ok_scan[OF assms(2)] cycle_scan(1) by blast
next
  case (cycle_answer i c result env ok code co effs)
  have "table_ok (cw_consumer w)" using assms(2) by (simp add: cycle_ok_def)
  from turn_onPopResponse[OF this cycle_answer(4,3)] show ?thesis
    using cycle_ok_turn[OF assms(2) cycle_answer(2)] cycle_answer(1) by simp
next
  case (cycle_timer i env co effs)
  have "table_ok (cw_consumer w)" using assms(2) by (simp add: cycle_ok_def)
  from turn_checkThrottle[OF this cycle_timer(3)] show ?thesis
    using cycle_ok_turn[OF assms(2) cycle_timer(2)] cycle_timer(1) by simp
next
  case (cycle_consume f i)
  have tok: "table_ok (cw_consumer w)" using assms(2) by (simp add: cycle_ok_def)
  have le: "unat (pq_cached_message_quantity (f pq)) \<le> unat (pq_cached_message_quantity pq)" for pq
    using cycle_consume(2) by (simp add: consumption_def word_le_nat_alt)
  show ?thesis unfolding cycle_consume(1)
    using tok cycle_consume(2) le
    by (intro cycle_ok_consumer[OF assms(2)] table_ok_update)
      (auto simp: consumption_def find_update_queue quantity_update quantity_def split: if_splits option.splits)
next
  case (cycle_shutdown co acts)
  note sh = push_shutdown_facts[OF cycle_shutdown(2)]
  have "table_ok co" using sh assms(2) by (simp add: cycle_ok_def table_ok_def hm_inv_def)
  then show ?thesis unfolding cycle_shutdown(1)
    using sh by (intro cycle_ok_consumer[OF assms(2)]) (simp_all add: find_queue_def quantity_def)
next
  case (cycle_subscribe now topic expression ty)
  show ?thesis unfolding cycle_subscribe
    using assms(2) by (intro cycle_ok_consumer[OF assms(2)])
      (simp_all add: subscribe_def cycle_ok_def table_ok_def find_queue_def quantity_def active_def)
next
  case (cycle_unsubscribe topic)
  show ?thesis unfolding cycle_unsubscribe
    using assms(2) by (intro cycle_ok_consumer[OF assms(2)])
      (simp_all add: unsubscribe_def cycle_ok_def table_ok_def find_queue_def quantity_def active_def)
qed

lemma cycle_ok_reach: "cycle_reach B w \<Longrightarrow> cycle_ok B w"
proof (induction rule: cycle_reach.induct)
  case (cycle_init co)
  then show ?case by (simp add: cycle_ok_def table_ok_def hm_inv_def pending_count_def find_queue_def quantity_def)
qed (rule cycle_ok_step)

section \<open>Lemmas: pulling with a stored offset\<close>

lemma receiveMessage_stored:
  assumes "co_receive_message_policy co = PULL" "co_offset_store co = Some read" "\<forall>q. read q \<noteq> None"
    and "receiveMessage env co q fe = (co', done', effs)"
  shows "effs = [] \<and> co_receive_message_policy co' = PULL \<and> co_offset_store co' = Some read"
  using assms(1,2,4) assms(3)[THEN spec[of _ q]]
  by (auto simp: receiveMessage_def getOrCreateProcessQueue_def Let_def split: if_splits option.splits)

lemma start_receiving_stored:
  assumes "co_receive_message_policy co = PULL" "co_offset_store co = Some read" "\<forall>q. read q \<noteq> None"
    and "start_receiving env fe cur qs co = (co', effs)"
  shows "effs = []"
  using assms
proof (induction qs arbitrary: co co' effs)
  case (Cons q qs)
  obtain co1 d effs1 where one: "receiveMessage env co q fe = (co1, d, effs1)" by (metis prod_cases3)
  show ?case using Cons.prems Cons.IH[of co1] Cons.IH[of co] receiveMessage_stored[OF Cons.prems(1-3) one] one
    by (auto simp: Let_def split: if_splits prod.splits)
qed simp

section \<open>A sample consumer\<close>

definition sample_push :: PushConsumerImpl where
  "sample_push = (make_PushConsumerImpl (make_ClientConfig ''group'') ''client'')\<lparr>cl_state := STARTED\<rparr>"

definition sample_environment :: environment where
  "sample_environment = \<lparr>ev_hmac = (\<lambda>_ _. []), ev_date = ''t'', ev_now = 0\<rparr>"

definition sample_assigned :: MQMessageQueue where
  "sample_assigned = sample_queue\<lparr>mq_service_address := ''ipv4:10.0.0.1:80''\<rparr>"

definition sample_scanned :: cycle_world where
  "sample_scanned = (case onScanResult sample_environment sample_push ''topic'' sample_filter Success (Some [sample_assigned])
     of (co, effs) \<Rightarrow> \<lparr>cw_consumer = co, cw_pending = pending_of effs\<rparr>)"

lemma sample_push_facts:
  "active sample_push" "co_receive_message_policy sample_push = POLLING" "co_process_queue_table sample_push = []"
  "co_next_queue sample_push = 0"
  by (simp_all add: sample_push_def active_def make_PushConsumerImpl_def ClientImpl.extend_def)

lemma sample_assignment_ok: "assignment_ok ''topic'' [sample_assigned]"
  by (simp add: assignment_ok_def sample_assigned_def sample_queue_def make_MQMessageQueue_def)

lemma sample_scanned_reach: "cycle_reach B sample_scanned"
proof -
  let ?w = "\<lparr>cw_consumer = sample_push, cw_pending = []\<rparr>"
  obtain co effs where run: "onScanResult sample_environment (cw_consumer ?w) ''topic'' sample_filter Success
      (Some [sample_assigned]) = (co, effs)" by fastforce
  have "cycle_reach B (?w\<lparr>cw_consumer := co, cw_pending := cw_pending ?w @ pending_of effs\<rparr>)"
    by (rule cycle_next[OF cycle_init cycle_scan[OF sample_assignment_ok run]]) (simp_all add: sample_push_facts)
  then show ?thesis using run by (simp add: sample_scanned_def)
qed

lemma sample_scanned_facts:
  "active (cw_consumer sample_scanned)" "find_queue (cw_consumer sample_scanned) 0 \<noteq> None"
proof -
  have fresh: "mq_key sample_assigned \<notin> table_keys sample_push" "table_ok sample_push" "mq_service_address sample_assigned \<noteq> []"
    by (simp_all add: table_keys_def table_ok_def hm_inv_def sample_push_facts sample_assigned_def)
  obtain co d effs where one: "receiveMessage sample_environment sample_push sample_assigned sample_filter = (co, d, effs)"
    by (metis prod_cases3)
  have same: "sample_push\<lparr>co_process_queue_table := []\<rparr> = sample_push" using sample_push_facts(3)
    by (cases sample_push) simp
  have "cw_consumer sample_scanned = co" using one
    by (simp add: same sample_scanned_def onScanResult_def syncProcessQueue_def sample_push_facts)
  then show "active (cw_consumer sample_scanned)" "find_queue (cw_consumer sample_scanned) 0 \<noteq> None"
    using receiveMessage_new[OF fresh(2) sample_push_facts(1) fresh(1,3) one] by (simp_all add: sample_push_facts)
qed

section \<open>Properties\<close>





text \<open>A consumer that pulls never receives from a queue whose offset is stored: the scan leaves
  neither a request nor a timer behind.\<close>

theorem stored_offset_never_pulled:
  assumes "co_receive_message_policy co = PULL" "co_offset_store co = Some read" "\<forall>q. read q \<noteq> None"
    and "onScanResult env co topic fe ec assignments = (co', effs)"
  shows "effs = []"
  using assms start_receiving_stored[of "co\<lparr>co_process_queue_table := _\<rparr>" read env fe]
  by (auto simp: onScanResult_def syncProcessQueue_def Let_def split: if_splits option.splits)

theorem stored_offset_never_pulled_witness:
  "snd (onScanResult sample_environment (sample_push\<lparr>co_receive_message_policy := PULL, co_offset_store := Some (\<lambda>_. Some 7)\<rparr>)
     ''topic'' sample_filter Success (Some [sample_assigned])) = []"
proof -
  let ?co = "sample_push\<lparr>co_receive_message_policy := PULL, co_offset_store := Some (\<lambda>_. Some 7)\<rparr>"
  obtain co' effs where run: "onScanResult sample_environment ?co ''topic'' sample_filter Success (Some [sample_assigned]) = (co', effs)"
    by fastforce
  show ?thesis using stored_offset_never_pulled[OF _ _ _ run] run by simp
qed

text \<open>A message that was pulled cannot be acknowledged: decoding it does not record the broker it
  came from, and acknowledging asserts that there is one.\<close>

theorem pulled_message_ack_asserts:
  assumes "processPullResult cd ns now blank target response default_ReceiveMessageResult = Some result"
    and "targetEndpoint blank = []" "m \<in> set (rr_messages result)"
  shows "ack env co m = None"
proof -
  have "targetEndpoint m = []"
    using assms pull_messages_frame[of cd ns now blank "pv_messages response"
      "default_ReceiveMessageResult\<lparr>rr_source_host := target, rr_status := Receive_OK\<rparr>" result]
    by (auto simp: processPullResult_def default_ReceiveMessageResult_def split: if_splits)
  then show ?thesis by (simp add: ack_def)
qed

theorem pulled_message_ack_asserts_witness:
  "\<exists>result m. processPullResult sample_codec ''ns'' 5 sample_blank ''ipv4:b:1''
       \<lparr>pv_code = Some Code_OK, pv_messages = [sample_item\<lparr>rq_body := []\<rparr>], pv_next_offset = 13\<rparr>
       default_ReceiveMessageResult = Some result
     \<and> m \<in> set (rr_messages result) \<and> ack sample_environment sample_push m = None"
proof -
  let ?r = "\<lparr>pv_code = Some Code_OK, pv_messages = [sample_item\<lparr>rq_body := []\<rparr>], pv_next_offset = 13\<rparr>"
  have u: "uncompress sample_codec [] [] = Some (True, [])"
    using uncompress_compress[OF sample_zlib, of "[]" "[]"] by (simp add: compress_def sample_codec_def)
  have enc: "ra_body_encoding (rq_system_attribute sample_item) = Some GZIP"
    "rs_namespace (rq_topic sample_item) = ''ns''"
    by (simp_all add: sample_item_def sample_sent_def wrapSendMessageRequest_def encode_body_def
        sample_outgoing_def make_MQMessage_def bodyLength_def Let_def)
  have "\<exists>result m. processPullResult sample_codec ''ns'' 5 sample_blank ''ipv4:b:1'' ?r default_ReceiveMessageResult
      = Some result \<and> m \<in> set (rr_messages result)"
    using u enc by (auto simp: processPullResult_def wrapMessage_def body_digest_match_def decode_body_def Let_def)
  then obtain result m where res: "processPullResult sample_codec ''ns'' 5 sample_blank ''ipv4:b:1'' ?r
      default_ReceiveMessageResult = Some result" and m: "m \<in> set (rr_messages result)" by blast
  have "targetEndpoint sample_blank = []"
    by (simp add: sample_blank_def make_MQMessage_def fresh_attributes_def targetEndpoint_def)
  then show ?thesis using pulled_message_ack_asserts[OF res _ m, of sample_environment sample_push] res m by blast
qed

end
