(* ===== verification/Client_Manager.thy ===== *)
theory Client_Manager
  imports Client_Base
begin

text \<open>
  The client manager that all clients of a namespace share (\<open>client/ClientManagerImpl.cpp\<close>) and the
  factory that hands it out: its life cycle, the table of RPC clients, the periodic heartbeat and
  health check, and what each remote call makes of the status and the code of its answer. A gRPC
  channel is a number, the order of its creation; whether a channel is usable is the argument
  \<open>ok\<close>. A weak pointer to a client is an option, None once the client is gone.
\<close>

section \<open>Latency histogram\<close>

record Histogram =
  hg_title :: string
  hg_data :: "i32 list"
  hg_capacity :: i32
  hg_labels :: "string list"

definition make_Histogram :: "string \<Rightarrow> i32 \<Rightarrow> Histogram" where
  "make_Histogram title capacity =
     \<lparr>hg_title = title, hg_data = replicate (nat capacity) 0, hg_capacity = capacity, hg_labels = []\<rparr>"

definition fetch_add :: "nat \<Rightarrow> i32 \<Rightarrow> Histogram \<Rightarrow> Histogram option" where
  "fetch_add i v h =
     (if i < length (hg_data h)
      then Some (h\<lparr>hg_data := (hg_data h)[i := signed_take_bit 31 (hg_data h ! i + v)]\<rparr>) else None)"

text \<open>None: an access beyond the vector.\<close>

definition countIn :: "i32 \<Rightarrow> Histogram \<Rightarrow> Histogram option" where
  "countIn grade h =
     (if grade < 0 then Some h
      else if grade \<ge> hg_capacity h
      then (if hg_capacity h \<le> 0 then None else fetch_add (nat (hg_capacity h - 1)) 1 h)
      else fetch_add (nat grade) 1 h)"

fun join_labels :: "(string \<times> i32) list \<Rightarrow> string" where
  "join_labels [] = []"
| "join_labels [(l, v)] = l @ to_string_int v"
| "join_labels ((l, v) # rest) = l @ to_string_int v @ '', '' @ join_labels rest"

text \<open>None: the assertion that every slot has a label fails.\<close>

definition reportAndReset :: "Histogram \<Rightarrow> (Histogram \<times> string) option" where
  "reportAndReset h =
     (if int (length (hg_labels h)) \<noteq> hg_capacity h then None
      else Some (h\<lparr>hg_data := map (\<lambda>v. signed_take_bit 31 (v - v)) (hg_data h)\<rparr>,
                 hg_title h @ '':'' @ join_labels (zip (hg_labels h) (hg_data h))))"

definition assignLabels :: "Histogram \<Rightarrow> Histogram" where
  "assignLabels h = h\<lparr>hg_labels := hg_labels h @
     [''[000ms~020ms): '', ''[020ms~040ms): '', ''[040ms~060ms): '', ''[060ms~080ms): '',
      ''[080ms~100ms): '', ''[100ms~120ms): '', ''[120ms~140ms): '', ''[140ms~160ms): '',
      ''[160ms~180ms): '', ''[180ms~200ms): '', ''[200ms~inf): '']\<rparr>"

section \<open>State\<close>

record RpcClient =
  rc_channel :: nat
  rc_need_heartbeat :: bool

record 'c ClientManagerImpl =
  cm_resource_namespace :: string
  cm_state :: State
  cm_clients :: "'c option list"
  cm_rpc_clients :: "(string \<times> RpcClient) list"
  cm_heartbeat_task_id :: u32
  cm_health_check_task_id :: u32
  cm_stats_task_id :: u32
  cm_latency_histogram :: Histogram
  cm_channels :: nat

definition make_ClientManagerImpl :: "string \<Rightarrow> 'c ClientManagerImpl" where
  "make_ClientManagerImpl ns =
     \<lparr>cm_resource_namespace = ns, cm_state = CREATED, cm_clients = [], cm_rpc_clients = [],
      cm_heartbeat_task_id = 0, cm_health_check_task_id = 0, cm_stats_task_id = 0,
      cm_latency_histogram = assignLabels (make_Histogram ''Message-Latency'' 11), cm_channels = 0\<rparr>"

section \<open>Life cycle\<close>

datatype manager_action =
    StartCallbackPool | StartScheduler | ScheduleTask string nat nat | StartCompletionQueue
  | ShutdownCallbackPool | CancelScheduled u32 | ShutdownScheduler | ShutdownCompletionQueue

text \<open>The arguments are the ids the scheduler returns for the three tasks.\<close>

definition manager_start ::
  "u32 \<Rightarrow> u32 \<Rightarrow> u32 \<Rightarrow> 'c ClientManagerImpl \<Rightarrow> 'c ClientManagerImpl \<times> manager_action list" where
  "manager_start health beat stats cm =
     (if CREATED \<noteq> cm_state cm then (cm, [])
      else (cm\<lparr>cm_health_check_task_id := health, cm_heartbeat_task_id := beat,
               cm_stats_task_id := stats, cm_state := STARTED\<rparr>,
            [StartCallbackPool, StartScheduler, ScheduleTask ''health-check-task'' 5 5,
             ScheduleTask ''heartbeat-task'' 1 10, StartCompletionQueue, ScheduleTask ''stats-task'' 0 10]))"

definition cancel_if_set :: "u32 \<Rightarrow> manager_action list" where
  "cancel_if_set task = (if task \<noteq> 0 then [CancelScheduled task] else [])"

definition manager_shutdown :: "'c ClientManagerImpl \<Rightarrow> 'c ClientManagerImpl \<times> manager_action list" where
  "manager_shutdown cm =
     (if STARTED \<noteq> cm_state cm then (cm, [])
      else (cm\<lparr>cm_rpc_clients := [], cm_state := STOPPED\<rparr>,
            [ShutdownCallbackPool] @ cancel_if_set (cm_health_check_task_id cm)
            @ cancel_if_set (cm_heartbeat_task_id cm) @ cancel_if_set (cm_stats_task_id cm)
            @ [ShutdownScheduler, ShutdownCompletionQueue]))"

definition logStats :: "'c ClientManagerImpl \<Rightarrow> ('c ClientManagerImpl \<times> string) option" where
  "logStats cm = map_option (\<lambda>(h, s). (cm\<lparr>cm_latency_histogram := h\<rparr>, s))
     (reportAndReset (cm_latency_histogram cm))"

definition addClientObserver :: "'c option \<Rightarrow> 'c ClientManagerImpl \<Rightarrow> 'c ClientManagerImpl" where
  "addClientObserver client cm = cm\<lparr>cm_clients := cm_clients cm @ [client]\<rparr>"

section \<open>RPC clients\<close>

definition create_client ::
  "string \<Rightarrow> bool \<Rightarrow> 'c ClientManagerImpl \<Rightarrow> 'c ClientManagerImpl \<times> RpcClient" where
  "create_client target_host need_heartbeat cm =
     (let client = \<lparr>rc_channel = cm_channels cm, rc_need_heartbeat = need_heartbeat\<rparr>
      in (cm\<lparr>cm_channels := cm_channels cm + 1,
             cm_rpc_clients := hm_assign id target_host client (cm_rpc_clients cm)\<rparr>, client))"

text \<open>The flag of the client is shared with the table, where it is updated in place.\<close>

definition getRpcClient ::
  "(nat \<Rightarrow> bool) \<Rightarrow> string \<Rightarrow> bool \<Rightarrow> 'c ClientManagerImpl \<Rightarrow> 'c ClientManagerImpl \<times> RpcClient" where
  "getRpcClient ok target_host need_heartbeat cm =
     (case (case hm_find id (cm_rpc_clients cm) target_host of
              None \<Rightarrow> create_client target_host need_heartbeat cm
            | Some c \<Rightarrow> if \<not> ok (rc_channel c) then create_client target_host need_heartbeat cm else (cm, c)) of
        (cm1, client) \<Rightarrow>
          if need_heartbeat \<and> \<not> rc_need_heartbeat client
          then (let client' = client\<lparr>rc_need_heartbeat := need_heartbeat\<rparr>
                in (cm1\<lparr>cm_rpc_clients := hm_assign id target_host client' (cm_rpc_clients cm1)\<rparr>, client'))
          else (cm1, client))"

definition addRpcClient :: "string \<Rightarrow> RpcClient \<Rightarrow> 'c ClientManagerImpl \<Rightarrow> 'c ClientManagerImpl" where
  "addRpcClient target_host client cm =
     cm\<lparr>cm_rpc_clients := hm_assign id target_host client (cm_rpc_clients cm)\<rparr>"

definition cleanRpcClients :: "'c ClientManagerImpl \<Rightarrow> 'c ClientManagerImpl" where
  "cleanRpcClients cm = cm\<lparr>cm_rpc_clients := []\<rparr>"

section \<open>Periodic tasks\<close>

definition live_clients :: "'c ClientManagerImpl \<Rightarrow> 'c list" where
  "live_clients cm = List.map_filter id (cm_clients cm)"

definition manager_running :: "'c ClientManagerImpl \<Rightarrow> bool" where
  "manager_running cm = (\<not> (STARTED \<noteq> cm_state cm \<and> STARTING \<noteq> cm_state cm))"

definition cleanOfflineRpcClients ::
  "('cb, 'z) ClientImpl_scheme ClientManagerImpl \<Rightarrow> ('cb, 'z) ClientImpl_scheme ClientManagerImpl \<times> string list" where
  "cleanOfflineRpcClients cm =
     (let hosts = concat (map endpointsInUse (live_clients cm));
          offline = (\<lambda>e. rc_need_heartbeat (snd e) \<and> fst e \<notin> set hosts)
      in (cm\<lparr>cm_rpc_clients := filter (\<lambda>e. \<not> offline e) (cm_rpc_clients cm)\<rparr>,
          map fst (filter offline (cm_rpc_clients cm))))"

text \<open>The part of \<open>ClientManagerImpl::healthCheck\<close> and \<open>heartbeat\<close> that changes the manager: both
  look up the RPC client of the target.\<close>

definition call_targets :: "(nat \<Rightarrow> bool) \<Rightarrow> string list \<Rightarrow> 'c ClientManagerImpl \<Rightarrow> 'c ClientManagerImpl" where
  "call_targets ok targets cm = fold (\<lambda>t cm. fst (getRpcClient ok t True cm)) targets cm"

definition removal_notice ::
  "string list \<Rightarrow> ('cb, 'z) ClientImpl_scheme option \<Rightarrow> ('cb, 'z) ClientImpl_scheme option" where
  "removal_notice removed c = (case c of
       None \<Rightarrow> None
     | Some cl \<Rightarrow> Some (if active cl \<and> removed \<noteq> [] then onRemoteEndpointRemoval cl removed else cl))"

definition doHealthCheck ::
  "(nat \<Rightarrow> bool) \<Rightarrow> (string \<Rightarrow> string \<Rightarrow> byte list) \<Rightarrow> string \<Rightarrow> ('cb, 'z) ClientImpl_scheme ClientManagerImpl \<Rightarrow>
   ('cb, 'z) ClientImpl_scheme ClientManagerImpl \<times> (string \<times> metadata) list" where
  "doHealthCheck ok hmac_sha1 date_time cm =
     (if \<not> manager_running cm then (cm, [])
      else case cleanOfflineRpcClients cm of (cm1, removed) \<Rightarrow>
        let cm2 = cm1\<lparr>cm_clients := map (removal_notice removed) (cm_clients cm1)\<rparr>;
            calls = concat (map (healthCheck hmac_sha1 date_time) (filter active (live_clients cm2)))
        in (call_targets ok (map fst calls) cm2, calls))"

definition doHeartbeat ::
  "(nat \<Rightarrow> bool) \<Rightarrow> (string \<Rightarrow> string \<Rightarrow> byte list) \<Rightarrow> string \<Rightarrow> ('cb, 'z) ClientImpl_scheme ClientManagerImpl \<Rightarrow>
   ('cb, 'z) ClientImpl_scheme ClientManagerImpl \<times> (string \<times> metadata) list" where
  "doHeartbeat ok hmac_sha1 date_time cm =
     (if \<not> manager_running cm then (cm, [])
      else let calls = concat (map (heartbeat hmac_sha1 date_time) (filter active (live_clients cm)))
           in (call_targets ok (map fst calls) cm, calls))"

section \<open>Answers of remote calls\<close>

text \<open>What a call hands to its callback, by the status of the call and the code of the response; a
  code is None when it is none of the known ones.\<close>

definition healthCheck_error :: "bool \<Rightarrow> Code option \<Rightarrow> ErrorCode" where
  "healthCheck_error status_ok code =
     (if \<not> status_ok then RequestTimeout
      else case code of
        Some Code_OK \<Rightarrow> Success
      | Some Code_UNAUTHENTICATED \<Rightarrow> Unauthorized
      | Some Code_PERMISSION_DENIED \<Rightarrow> Forbidden
      | Some Code_INTERNAL \<Rightarrow> InternalServerError
      | _ \<Rightarrow> NotImplemented)"

text \<open>None: the callback is not run.\<close>

definition heartbeat_completion :: "bool \<Rightarrow> Code option \<Rightarrow> ErrorCode option" where
  "heartbeat_completion status_ok code =
     (if \<not> status_ok then Some RequestTimeout
      else case code of
        Some Code_OK \<Rightarrow> Some Success
      | Some Code_UNAUTHENTICATED \<Rightarrow> Some Unauthorized
      | Some Code_PERMISSION_DENIED \<Rightarrow> Some Forbidden
      | Some Code_INVALID_ARGUMENT \<Rightarrow> Some BadRequest
      | Some Code_INTERNAL \<Rightarrow> Some InternalServerError
      | _ \<Rightarrow> None)"

record SendMessageResponse =
  sm_code :: "Code option"
  sm_message_id :: string
  sm_transaction_id :: string

text \<open>\<open>manager\<close> is the state of the manager when the call completes, None if it is gone. The result
  is None when the callback is not run.\<close>

definition send_completion ::
  "State option \<Rightarrow> bool \<Rightarrow> SendMessageResponse \<Rightarrow> (ErrorCode + SendResult) option" where
  "send_completion manager status_ok response =
     (case manager of
        None \<Rightarrow> None
      | Some st \<Rightarrow>
          if STARTED \<noteq> st then None
          else if \<not> status_ok then Some (Inl RequestTimeout)
          else case sm_code response of
            Some Code_OK \<Rightarrow> Some (Inr (default_SendResult\<lparr>sr_send_status := SEND_OK,
                sr_message_id := sm_message_id response, sr_transaction_id := sm_transaction_id response\<rparr>))
          | Some Code_INVALID_ARGUMENT \<Rightarrow> Some (Inl BadRequest)
          | Some Code_UNAUTHENTICATED \<Rightarrow> Some (Inl Unauthorized)
          | Some Code_PERMISSION_DENIED \<Rightarrow> Some (Inl Forbidden)
          | Some Code_INTERNAL \<Rightarrow> Some (Inl InternalServerError)
          | _ \<Rightarrow> Some (Inl NotImplemented))"

text \<open>None: the response is thrown as an exception.\<close>

definition processSendResponse :: "MQMessageQueue \<Rightarrow> SendMessageResponse \<Rightarrow> SendResult option" where
  "processSendResponse message_queue response =
     (if Some Code_OK \<noteq> sm_code response then None
      else Some (default_SendResult\<lparr>sr_send_status := SEND_OK, sr_message_id := sm_message_id response,
        sr_queue_offset := - 1, sr_message_queue := message_queue,
        sr_transaction_id := sm_transaction_id response\<rparr>))"

definition queryAssignment_error :: "bool \<Rightarrow> Code option \<Rightarrow> ErrorCode" where
  "queryAssignment_error status_ok code =
     (if \<not> status_ok then RequestTimeout
      else case code of
        Some Code_OK \<Rightarrow> Success
      | Some Code_UNAUTHENTICATED \<Rightarrow> Unauthorized
      | Some Code_PERMISSION_DENIED \<Rightarrow> Forbidden
      | Some Code_INVALID_ARGUMENT \<Rightarrow> BadRequest
      | Some Code_INTERNAL \<Rightarrow> InternalServerError
      | _ \<Rightarrow> NotImplemented)"

definition ack_error :: "bool \<Rightarrow> Code option \<Rightarrow> ErrorCode" where
  "ack_error status_ok code =
     (if \<not> status_ok then RequestTimeout
      else case code of
        Some Code_OK \<Rightarrow> Success
      | Some Code_UNAUTHENTICATED \<Rightarrow> Unauthorized
      | Some Code_PERMISSION_DENIED \<Rightarrow> Forbidden
      | Some Code_INVALID_ARGUMENT \<Rightarrow> BadRequest
      | Some Code_INTERNAL \<Rightarrow> InternalServerError
      | _ \<Rightarrow> NotImplemented)"

definition nack_error :: "bool \<Rightarrow> Code option \<Rightarrow> ErrorCode" where
  "nack_error status_ok code =
     (if \<not> status_ok then RequestTimeout
      else case code of
        Some Code_OK \<Rightarrow> Success
      | Some Code_UNAUTHENTICATED \<Rightarrow> Unauthorized
      | Some Code_PERMISSION_DENIED \<Rightarrow> Forbidden
      | Some Code_INTERNAL \<Rightarrow> InternalServerError
      | _ \<Rightarrow> NotImplemented)"

definition endTransaction_error :: "bool \<Rightarrow> Code option \<Rightarrow> ErrorCode" where
  "endTransaction_error status_ok code =
     (if \<not> status_ok then BadRequest
      else case code of
        Some Code_OK \<Rightarrow> Success
      | Some Code_UNAUTHENTICATED \<Rightarrow> Unauthorized
      | Some Code_PERMISSION_DENIED \<Rightarrow> Forbidden
      | Some Code_INTERNAL \<Rightarrow> InternalServerError
      | _ \<Rightarrow> NotImplemented)"

definition queryOffset_error :: "bool \<Rightarrow> Code option \<Rightarrow> ErrorCode" where
  "queryOffset_error status_ok code =
     (if \<not> status_ok then RequestTimeout
      else case code of
        Some Code_OK \<Rightarrow> Success
      | Some Code_UNAUTHENTICATED \<Rightarrow> Unauthorized
      | Some Code_PERMISSION_DENIED \<Rightarrow> Forbidden
      | Some Code_INTERNAL \<Rightarrow> InternalServerError
      | _ \<Rightarrow> NotImplemented)"

definition notifyClientTermination_error :: "bool \<Rightarrow> Code option \<Rightarrow> ErrorCode" where
  "notifyClientTermination_error status_ok code =
     (if \<not> status_ok then RequestTimeout
      else case code of
        Some Code_OK \<Rightarrow> Success
      | Some Code_INTERNAL \<Rightarrow> InternalServerError
      | Some Code_UNAUTHENTICATED \<Rightarrow> Unauthorized
      | Some Code_PERMISSION_DENIED \<Rightarrow> Forbidden
      | _ \<Rightarrow> NotImplemented)"

subsection \<open>Routes\<close>

text \<open>A partition of the answer of a name server; the scheme and the permission are None when they
  are none of the values of the enumeration.\<close>

record rmq_Partition =
  rp_topic :: Resource
  rp_id :: i32
  rp_permission :: "Permission option"
  rp_broker_name :: string
  rp_broker_id :: i32
  rp_scheme :: "AddressScheme option"
  rp_addresses :: "Address list"

record QueryRouteResponse =
  qa_code :: "Code option"
  qa_partitions :: "rmq_Partition list"
  qa_debug_string :: string

definition resolve_scheme :: "AddressScheme option \<Rightarrow> AddressScheme" where
  "resolve_scheme s = (case s of
       Some IPv4 \<Rightarrow> IPv4 | Some IPv6 \<Rightarrow> IPv6 | Some DOMAIN_NAME \<Rightarrow> DOMAIN_NAME | None \<Rightarrow> IPv4)"

definition resolve_permission :: "Permission option \<Rightarrow> Permission" where
  "resolve_permission p = (case p of
       Some READ \<Rightarrow> READ | Some WRITE \<Rightarrow> WRITE | Some READ_WRITE \<Rightarrow> READ_WRITE | _ \<Rightarrow> READ_WRITE)"

definition resolve_partition :: "rmq_Partition \<Rightarrow> Partition" where
  "resolve_partition p =
     \<lparr>pt_topic = Topic (rs_namespace (rp_topic p)) (rs_name (rp_topic p)),
      pt_broker = \<lparr>br_name = rp_broker_name p, br_id = rp_broker_id p,
        br_service_address = make_ServiceAddress (resolve_scheme (rp_scheme p)) (rp_addresses p)\<rparr>,
      pt_id = rp_id p, pt_permission = resolve_permission (rp_permission p)\<rparr>"

definition resolveRoute :: "bool \<Rightarrow> QueryRouteResponse \<Rightarrow> ErrorCode \<times> TopicRouteData option" where
  "resolveRoute status_ok response =
     (if \<not> status_ok then (RequestTimeout, None)
      else case qa_code response of
        Some Code_OK \<Rightarrow> (Success, Some (make_TopicRouteData
            (map resolve_partition (qa_partitions response)) (qa_debug_string response)))
      | Some Code_UNAUTHENTICATED \<Rightarrow> (Unauthorized, None)
      | Some Code_PERMISSION_DENIED \<Rightarrow> (Forbidden, None)
      | Some Code_INVALID_ARGUMENT \<Rightarrow> (BadRequest, None)
      | Some Code_NOT_FOUND \<Rightarrow> (NotFound, None)
      | Some Code_INTERNAL \<Rightarrow> (InternalServerError, None)
      | _ \<Rightarrow> (NotImplemented, None))"

section \<open>The factory\<close>

text \<open>The table maps a namespace to a weak pointer, the number of a manager; \<open>cf_managers\<close> lists the
  managers that are alive, with their namespaces.\<close>

record ClientManagerFactory =
  cf_table :: "(string \<times> nat) list"
  cf_managers :: "(nat \<times> string) list"
  cf_next :: nat

definition make_ClientManagerFactory :: ClientManagerFactory where
  "make_ClientManagerFactory = \<lparr>cf_table = [], cf_managers = [], cf_next = 0\<rparr>"

definition manager_alive :: "ClientManagerFactory \<Rightarrow> nat \<Rightarrow> bool" where
  "manager_alive cf i = (i \<in> fst ` set (cf_managers cf))"

definition getClientManager :: "string \<Rightarrow> ClientManagerFactory \<Rightarrow> ClientManagerFactory \<times> nat" where
  "getClientManager ns cf =
     (case hm_find id (cf_table cf) ns of
        Some i \<Rightarrow>
          if manager_alive cf i then (cf, i)
          else (cf\<lparr>cf_table := hm_assign id ns (cf_next cf) (hm_erase id ns (cf_table cf)),
                   cf_managers := (cf_next cf, ns) # cf_managers cf, cf_next := cf_next cf + 1\<rparr>, cf_next cf)
      | None \<Rightarrow> (cf\<lparr>cf_table := hm_assign id ns (cf_next cf) (cf_table cf),
                   cf_managers := (cf_next cf, ns) # cf_managers cf, cf_next := cf_next cf + 1\<rparr>, cf_next cf))"

text \<open>The hook with which a manager is put into the table.\<close>

definition addClientManager :: "string \<Rightarrow> nat \<Rightarrow> ClientManagerFactory \<Rightarrow> ClientManagerFactory" where
  "addClientManager ns i cf = cf\<lparr>cf_table := hm_assign id ns i (cf_table cf)\<rparr>"

text \<open>The last shared pointer to a manager is dropped.\<close>

definition manager_expires :: "nat \<Rightarrow> ClientManagerFactory \<Rightarrow> ClientManagerFactory" where
  "manager_expires i cf = cf\<lparr>cf_managers := filter (\<lambda>m. fst m \<noteq> i) (cf_managers cf)\<rparr>"

inductive factory_reach :: "ClientManagerFactory \<Rightarrow> bool" where
  factory_init: "factory_reach make_ClientManagerFactory"
| factory_get: "factory_reach cf \<Longrightarrow> factory_reach (fst (getClientManager ns cf))"
| factory_expire: "factory_reach cf \<Longrightarrow> factory_reach (manager_expires i cf)"

section \<open>Reachable managers\<close>

text \<open>Clients come and go and change between the operations of the manager.\<close>

inductive manager_reach :: "('cb, 'z) ClientImpl_scheme ClientManagerImpl \<Rightarrow> bool" where
  manager_init: "manager_reach (make_ClientManagerImpl ns)"
| manager_started: "manager_reach cm \<Longrightarrow> manager_reach (fst (manager_start h b s cm))"
| manager_stopped: "manager_reach cm \<Longrightarrow> manager_reach (fst (manager_shutdown cm))"
| manager_observes: "manager_reach cm \<Longrightarrow> manager_reach (addClientObserver c cm)"
| manager_clients: "manager_reach cm \<Longrightarrow> manager_reach (cm\<lparr>cm_clients := cs\<rparr>)"
| manager_calls: "manager_reach cm \<Longrightarrow> manager_reach (fst (getRpcClient ok t need cm))"
| manager_cleans: "manager_reach cm \<Longrightarrow> manager_reach (cleanRpcClients cm)"
| manager_checks: "manager_reach cm \<Longrightarrow> manager_reach (fst (doHealthCheck ok hm dt cm))"
| manager_beats: "manager_reach cm \<Longrightarrow> manager_reach (fst (doHeartbeat ok hm dt cm))"

definition rpc_table_ok :: "'c ClientManagerImpl \<Rightarrow> bool" where
  "rpc_table_ok cm \<longleftrightarrow> hm_inv id (cm_rpc_clients cm)
     \<and> distinct (map (\<lambda>e. rc_channel (snd e)) (cm_rpc_clients cm))
     \<and> (\<forall>e\<in>set (cm_rpc_clients cm). rc_channel (snd e) < cm_channels cm)"

text \<open>The hosts whose RPC client needs heartbeats, the endpoints of all clients that are alive, and
  the endpoints isolated by the active ones.\<close>

definition flagged :: "'c ClientManagerImpl \<Rightarrow> string set" where
  "flagged cm = {h. \<exists>c. (h, c) \<in> set (cm_rpc_clients cm) \<and> rc_need_heartbeat c}"

definition in_use :: "('cb, 'z) ClientImpl_scheme ClientManagerImpl \<Rightarrow> string set" where
  "in_use cm = (\<Union>cl\<in>set (live_clients cm). set (endpointsInUse cl))"

definition isolated :: "('cb, 'z) ClientImpl_scheme ClientManagerImpl \<Rightarrow> string set" where
  "isolated cm = (\<Union>cl\<in>set (filter active (live_clients cm)). set (cl_isolated_endpoints cl))"

lemmas manager_defs = rpc_table_ok_def flagged_def in_use_def isolated_def live_clients_def

section \<open>Lemmas: the table of RPC clients\<close>

lemma set_hm_assign_key:
  "inj key \<Longrightarrow> hm_inv key m \<Longrightarrow> set (hm_assign key k v m) = insert (k, v) {e \<in> set m. fst e \<noteq> k}"
proof (induction m)
  case (Cons e m)
  obtain k' v' where e: "e = (k', v')" by (cases e)
  have IH: "set (hm_assign key k v m) = insert (k, v) {e \<in> set m. fst e \<noteq> k}"
    using Cons by (simp add: hm_inv_def)
  have fresh: "\<forall>x\<in>set m. fst x \<noteq> k'" using Cons.prems e by (force simp: hm_inv_def)
  have eq: "key k' = key k \<longleftrightarrow> k' = k" using Cons.prems(1) by (auto dest: injD)
  show ?case
  proof (cases "k' = k")
    case True
    then show ?thesis using fresh by (auto simp: e)
  next
    case False
    then show ?thesis using IH eq by (auto simp: e)
  qed
qed simp

lemmas set_hm_assign = set_hm_assign_key[OF inj_on_id]

lemma channels_hm_assign_key:
  "inj key \<Longrightarrow> hm_inv key m \<Longrightarrow> distinct (map (\<lambda>e. rc_channel (snd e)) m) \<Longrightarrow>
   \<forall>e\<in>set m. fst e \<noteq> k \<longrightarrow> rc_channel (snd e) \<noteq> rc_channel v \<Longrightarrow>
   distinct (map (\<lambda>e. rc_channel (snd e)) (hm_assign key k v m))"
proof (induction m)
  case (Cons e m)
  obtain k' c where e: "e = (k', c)" by (cases e)
  have inv: "hm_inv key m" using Cons.prems(2) by (simp add: hm_inv_def)
  have IH: "distinct (map (\<lambda>e. rc_channel (snd e)) (hm_assign key k v m))"
    by (rule Cons.IH[OF Cons.prems(1) inv]) (use Cons.prems in auto)
  have keys: "set (hm_assign key k v m) = insert (k, v) {e \<in> set m. fst e \<noteq> k}"
    using Cons.prems(1) inv by (rule set_hm_assign_key)
  have fresh: "\<forall>x\<in>set m. fst x \<noteq> k'" using Cons.prems(2) e by (force simp: hm_inv_def)
  have eq: "key k' = key k \<longleftrightarrow> k' = k" using Cons.prems(1) by (auto dest: injD)
  have other: "rc_channel c \<notin> (\<lambda>e. rc_channel (snd e)) ` set m" using Cons.prems(3) e by simp
  show ?case
  proof (cases "k' = k")
    case True
    then have "rc_channel v \<notin> (\<lambda>e. rc_channel (snd e)) ` set m" using Cons.prems(4) fresh by (auto simp: e)
    then show ?thesis using True eq Cons.prems(3) by (simp add: e)
  next
    case False
    then have "rc_channel c \<noteq> rc_channel v" using Cons.prems(4) by (simp add: e)
    then have "rc_channel c \<notin> (\<lambda>e. rc_channel (snd e)) ` set (hm_assign key k v m)"
      using keys other by (auto simp: image_iff)
    then show ?thesis using IH False eq by (simp add: e)
  qed
qed simp

lemmas channels_hm_assign = channels_hm_assign_key[OF inj_on_id]

lemma create_client_flag [simp]: "rc_need_heartbeat (snd (create_client t need cm)) = need"
  by (simp add: create_client_def Let_def)

lemma create_client_ok:
  assumes "rpc_table_ok cm"
  shows "rpc_table_ok (fst (create_client t need cm))"
proof -
  have "rc_channel c \<noteq> cm_channels cm" if "(h, c) \<in> set (cm_rpc_clients cm)" for h c
    using assms that by (force simp: rpc_table_ok_def)
  then show ?thesis using assms
    by (auto simp: rpc_table_ok_def create_client_def Let_def hm_inv_assign set_hm_assign less_SucI
        intro!: channels_hm_assign)
qed

lemma getRpcClient_ok:
  assumes "rpc_table_ok cm"
  shows "rpc_table_ok (fst (getRpcClient ok t need cm))"
proof -
  have flag: "rpc_table_ok (cm'\<lparr>cm_rpc_clients := hm_assign id t (c\<lparr>rc_need_heartbeat := b\<rparr>) (cm_rpc_clients cm')\<rparr>)"
    if ok: "rpc_table_ok cm'" and c: "(t, c) \<in> set (cm_rpc_clients cm')" for cm' :: "'a ClientManagerImpl" and c b
  proof -
    have "rc_channel d \<noteq> rc_channel c" if "(h, d) \<in> set (cm_rpc_clients cm')" "h \<noteq> t" for h d
      using ok c that unfolding rpc_table_ok_def distinct_map by (metis (no_types, lifting) inj_onD prod.inject snd_conv)
    then show ?thesis using ok c
      by (auto simp: rpc_table_ok_def hm_inv_assign set_hm_assign intro!: channels_hm_assign)
  qed
  have found: "(t, c) \<in> set (cm_rpc_clients cm)" if "hm_find id (cm_rpc_clients cm) t = Some c" for c
    using hm_find_SomeD[OF that] by simp
  show ?thesis
  proof (cases "hm_find id (cm_rpc_clients cm) t")
    case None
    then show ?thesis
      using create_client_ok[OF assms, of t need]
      by (simp add: getRpcClient_def Let_def split_beta)
  next
    case (Some c)
    then show ?thesis
      using assms create_client_ok[OF assms, of t need] flag[OF assms found[OF Some]]
      by (simp add: getRpcClient_def Let_def split_beta)
  qed
qed

lemma getRpcClient_frame [simp]:
  "cm_clients (fst (getRpcClient ok t need cm)) = cm_clients cm"
  "cm_state (fst (getRpcClient ok t need cm)) = cm_state cm"
  by (auto simp: getRpcClient_def create_client_def Let_def split: option.splits prod.splits)

lemma flagged_getRpcClient:
  assumes "rpc_table_ok cm"
  shows "flagged (fst (getRpcClient ok t True cm)) = insert t (flagged cm)"
proof -
  have inv: "hm_inv id (cm_rpc_clients cm)" using assms by (simp add: rpc_table_ok_def)
  then have set: "flagged (cm\<lparr>cm_channels := n, cm_rpc_clients := hm_assign id t c (cm_rpc_clients cm)\<rparr>)
      = insert t (flagged cm)" if "rc_need_heartbeat c" for c n
    using that by (auto simp: flagged_def set_hm_assign)
  have set': "flagged (cm\<lparr>cm_rpc_clients := hm_assign id t c (cm_rpc_clients cm)\<rparr>) = insert t (flagged cm)"
    if "rc_need_heartbeat c" for c using inv that by (auto simp: flagged_def set_hm_assign)
  show ?thesis
  proof (cases "hm_find id (cm_rpc_clients cm) t")
    case None
    then show ?thesis by (simp add: getRpcClient_def create_client_def Let_def set)
  next
    case (Some c)
    then have "(t, c) \<in> set (cm_rpc_clients cm)" using hm_find_SomeD[OF Some] by simp
    then have "rc_need_heartbeat c \<Longrightarrow> insert t (flagged cm) = flagged cm" by (auto simp: flagged_def)
    then show ?thesis using Some by (simp add: getRpcClient_def create_client_def Let_def set set')
  qed
qed

lemma call_targets_facts:
  assumes "rpc_table_ok cm"
  shows "rpc_table_ok (call_targets ok ts cm) \<and> flagged (call_targets ok ts cm) = flagged cm \<union> set ts
    \<and> cm_clients (call_targets ok ts cm) = cm_clients cm \<and> cm_state (call_targets ok ts cm) = cm_state cm"
  using assms
proof (induction ts arbitrary: cm)
  case (Cons t ts)
  from Cons.IH[OF getRpcClient_ok[OF Cons.prems, of ok t True]] show ?case
    by (simp add: call_targets_def flagged_getRpcClient[OF Cons.prems])
qed (simp add: call_targets_def)

section \<open>Lemmas: periodic tasks\<close>

lemma distinct_map_fst_filter: "hm_inv key m \<Longrightarrow> hm_inv key (filter P m)"
  by (simp add: hm_inv_def distinct_map_filter)

lemma clean_facts:
  assumes "rpc_table_ok cm" "cleanOfflineRpcClients cm = (cm1, removed)"
  shows "rpc_table_ok cm1 \<and> cm_clients cm1 = cm_clients cm \<and> cm_state cm1 = cm_state cm
    \<and> flagged cm1 = flagged cm \<inter> in_use cm \<and> set removed = flagged cm - in_use cm"
proof -
  define online where "online = (\<lambda>e :: string \<times> RpcClient. \<not> (rc_need_heartbeat (snd e) \<and> fst e \<notin> in_use cm))"
  have cm1: "cm1 = cm\<lparr>cm_rpc_clients := filter online (cm_rpc_clients cm)\<rparr>"
    and removed: "removed = map fst (filter (\<lambda>e. \<not> online e) (cm_rpc_clients cm))"
    using assms(2) by (auto simp: cleanOfflineRpcClients_def Let_def online_def in_use_def)
  have "flagged cm1 = flagged cm \<inter> in_use cm"
    by (auto simp: flagged_def cm1 online_def)
  moreover have "set removed = flagged cm - in_use cm"
    by (force simp: flagged_def removed online_def)
  moreover have "rpc_table_ok cm1" using assms(1)
    by (simp add: rpc_table_ok_def cm1 distinct_map_fst_filter distinct_map_filter)
  ultimately show ?thesis by (simp add: cm1)
qed

lemma removal_notice_frame:
  "map_option endpointsInUse (removal_notice rs c) = map_option endpointsInUse c"
  "map_option active (removal_notice rs c) = map_option active c"
  by (auto simp: removal_notice_def endpointsInUse_def onRemoteEndpointRemoval_def active_def
      split: option.splits)

lemma set_live: "set (live_clients cm) = {c. Some c \<in> set (cm_clients cm)}"
  by (force simp: live_clients_def List.map_filter_def image_iff)

lemma in_use_removal:
  "in_use (cm\<lparr>cm_clients := map (removal_notice rs) (cm_clients cm)\<rparr>) = in_use cm"
proof -
  have eq: "in_use c = (\<Union>o'\<in>map_option endpointsInUse ` set (cm_clients c). case o' of None \<Rightarrow> {} | Some es \<Rightarrow> set es)"
    for c :: "('a, 'b) ClientImpl_scheme ClientManagerImpl"
    by (auto simp: in_use_def set_live split: option.splits)
  show ?thesis unfolding eq by (simp add: image_image removal_notice_frame)
qed

lemma isolated_removal:
  "isolated (cm\<lparr>cm_clients := map (removal_notice rs) (cm_clients cm)\<rparr>) = isolated cm - set rs"
proof -
  define own where "own = (\<lambda>c :: ('a, 'b) ClientImpl_scheme option. case c of None \<Rightarrow> {}
      | Some cl \<Rightarrow> if active cl then set (cl_isolated_endpoints cl) else {})"
  have eq: "isolated c = (\<Union>o'\<in>set (cm_clients c). own o')" for c :: "('a, 'b) ClientImpl_scheme ClientManagerImpl"
    by (auto simp: isolated_def set_live own_def split: option.splits if_splits)
  have "own (removal_notice rs c) = own c - set rs" for c
    by (auto simp: own_def removal_notice_def onRemoteEndpointRemoval_def active_def split: option.splits)
  then show ?thesis unfolding eq by auto
qed

lemma calls_healthCheck:
  "set (map fst (concat (map (healthCheck hm dt) (filter active (live_clients cm))))) = isolated cm"
  by (auto simp: isolated_def healthCheck_def image_iff)

lemma calls_heartbeat:
  "set (map fst (concat (map (heartbeat hm dt) (filter active (live_clients cm)))))
     = (\<Union>cl\<in>set (filter active (live_clients cm)). set (endpointsInUse cl))"
  by (force simp: heartbeat_def Let_def image_iff)

lemma doHealthCheck_facts:
  assumes "rpc_table_ok cm" "manager_running cm" and def: "cm' = fst (doHealthCheck ok hm dt cm)"
  shows "rpc_table_ok cm'" "manager_running cm'" "in_use cm' = in_use cm"
    "isolated cm' = isolated cm - (flagged cm - in_use cm)"
    "flagged cm' = (flagged cm \<inter> in_use cm) \<union> isolated cm'"
proof -
  obtain cm1 removed where clean: "cleanOfflineRpcClients cm = (cm1, removed)" by fastforce
  note c1 = clean_facts[OF assms(1) clean]
  define cm2 where "cm2 = cm1\<lparr>cm_clients := map (removal_notice removed) (cm_clients cm1)\<rparr>"
  have c2: "rpc_table_ok cm2" "flagged cm2 = flagged cm1" "cm_state cm2 = cm_state cm"
    using c1 by (simp_all add: cm2_def rpc_table_ok_def flagged_def)
  have clients: "in_use cm1 = in_use cm" "isolated cm1 = isolated cm"
    using c1 by (simp_all add: in_use_def isolated_def live_clients_def)
  define ts where "ts = map fst (concat (map (healthCheck hm dt) (filter active (live_clients cm2))))"
  have cm': "cm' = call_targets ok ts cm2"
    using assms(2) by (simp add: def doHealthCheck_def clean cm2_def[symmetric] ts_def Let_def)
  note call = call_targets_facts[OF c2(1), of ok ts]
  have frame: "in_use cm' = in_use cm2" "isolated cm' = isolated cm2"
    using call by (simp_all add: cm' in_use_def isolated_def live_clients_def)
  show "rpc_table_ok cm'" "manager_running cm'"
    using call c2 assms(2) by (simp_all add: cm' manager_running_def)
  show "in_use cm' = in_use cm" using frame clients by (simp add: cm2_def in_use_removal)
  show iso: "isolated cm' = isolated cm - (flagged cm - in_use cm)"
    using frame(2) clients(2) c1 isolated_removal[of removed cm1] by (simp add: cm2_def)
  show "flagged cm' = (flagged cm \<inter> in_use cm) \<union> isolated cm'"
    using call c2 c1 frame calls_healthCheck[of hm dt cm2] by (simp add: cm' ts_def)
qed

lemma doHeartbeat_facts:
  assumes "rpc_table_ok cm" "manager_running cm" and def: "cm' = fst (doHeartbeat ok hm dt cm)"
  shows "rpc_table_ok cm'" "cm_clients cm' = cm_clients cm"
    "flagged cm' = flagged cm \<union> (\<Union>cl\<in>set (filter active (live_clients cm)). set (endpointsInUse cl))"
  using assms(2) calls_heartbeat[of hm dt cm]
    call_targets_facts[OF assms(1), of ok "map fst (concat (map (heartbeat hm dt) (filter active (live_clients cm))))"]
  by (simp_all add: def doHeartbeat_def Let_def)

lemma manager_reach_ok: "manager_reach cm \<Longrightarrow> rpc_table_ok cm"
proof (induction rule: manager_reach.induct)
  case (manager_checks cm ok hm dt)
  then show ?case using doHealthCheck_facts(1)[of cm _ ok hm dt]
    by (cases "manager_running cm") (simp_all add: doHealthCheck_def)
next
  case (manager_beats cm ok hm dt)
  then show ?case using doHeartbeat_facts(1)[of cm _ ok hm dt]
    by (cases "manager_running cm") (simp_all add: doHeartbeat_def)
qed (auto simp: getRpcClient_ok, auto simp: rpc_table_ok_def make_ClientManagerImpl_def manager_start_def
    manager_shutdown_def addClientObserver_def cleanRpcClients_def hm_inv_def)

section \<open>Lemmas: the factory\<close>

definition factory_ok :: "ClientManagerFactory \<Rightarrow> bool" where
  "factory_ok cf \<longleftrightarrow> hm_inv id (cf_table cf)
     \<and> (\<forall>m\<in>set (cf_managers cf). fst m < cf_next cf \<and> hm_find id (cf_table cf) (snd m) = Some (fst m))
     \<and> (\<forall>e\<in>set (cf_table cf). snd e < cf_next cf) \<and> inj_on snd (set (cf_table cf))"

lemma hm_erase_assign_inv: "hm_inv key m \<Longrightarrow> hm_inv key (hm_assign key k v (hm_erase key k m))"
  by (rule hm.assign_invar) (rule hm.erase_invar)

lemma getClientManager_ok:
  assumes "factory_ok cf"
  shows "factory_ok (fst (getClientManager ns cf))
    \<and> manager_alive (fst (getClientManager ns cf)) (snd (getClientManager ns cf))"
proof -
  let ?i = "cf_next cf"
  have inv: "hm_inv id (cf_table cf)" using assms by (simp add: factory_ok_def)
  have fresh: "factory_ok (cf\<lparr>cf_table := t, cf_managers := (?i, ns) # cf_managers cf, cf_next := ?i + 1\<rparr>)"
    if none: "\<forall>m\<in>set (cf_managers cf). snd m \<noteq> ns" and t: "hm_inv id t" "set t \<subseteq> insert (ns, ?i) (set (cf_table cf))"
      "\<forall>k. hm_find id t k = (if k = ns then Some ?i else hm_find id (cf_table cf) k)" for t
  proof -
    have "inj_on snd (insert (ns, ?i) (set (cf_table cf)))" using assms by (force simp: factory_ok_def inj_on_def)
    then have "inj_on snd (set t)" using t(2) by (rule inj_on_subset)
    then show ?thesis using assms none t by (fastforce simp: factory_ok_def less_Suc_eq)
  qed
  show ?thesis
  proof (cases "hm_find id (cf_table cf) ns")
    case None
    then have "\<forall>m\<in>set (cf_managers cf). snd m \<noteq> ns" using assms by (auto simp: factory_ok_def)
    then have "factory_ok (fst (getClientManager ns cf))" using None inv fresh[of "hm_assign id ns ?i (cf_table cf)"]
      by (auto simp: getClientManager_def hm.find_assign hm.assign_invar set_hm_assign)
    then show ?thesis using None by (simp add: getClientManager_def manager_alive_def)
  next
    case (Some j)
    show ?thesis
    proof (cases "manager_alive cf j")
      case True
      then show ?thesis using Some assms by (simp add: getClientManager_def)
    next
      case False
      then have "\<forall>m\<in>set (cf_managers cf). snd m \<noteq> ns"
        using assms Some by (force simp: factory_ok_def manager_alive_def image_iff)
      moreover have "set (hm_assign id ns ?i (hm_erase id ns (cf_table cf))) \<subseteq> insert (ns, ?i) (set (cf_table cf))"
        using set_hm_assign[OF hm.erase_invar[OF inv]] by (auto simp: hm_erase_def)
      ultimately have "factory_ok (fst (getClientManager ns cf))"
        using Some False inv fresh[of "hm_assign id ns ?i (hm_erase id ns (cf_table cf))"]
        by (simp add: getClientManager_def hm.find_assign hm.find_erase hm_erase_assign_inv)
      then show ?thesis using Some False by (simp add: getClientManager_def manager_alive_def)
    qed
  qed
qed

lemma factory_reach_ok: "factory_reach cf \<Longrightarrow> factory_ok cf"
proof (induction rule: factory_reach.induct)
  case (factory_get cf ns)
  then show ?case by (simp add: getClientManager_ok)
qed (auto simp: factory_ok_def make_ClientManagerFactory_def manager_expires_def hm_inv_def)

text \<open>A manager that was put into the table is returned for its namespace while it is alive, and the other
  namespaces are not affected.\<close>

lemma addClientManager_get:
  "manager_alive cf i \<Longrightarrow> getClientManager ns (addClientManager ns i cf) = (addClientManager ns i cf, i)"
  "ns' \<noteq> ns \<Longrightarrow> snd (getClientManager ns' (addClientManager ns i cf)) = snd (getClientManager ns' cf)"
  by (auto simp: getClientManager_def addClientManager_def manager_alive_def hm.find_assign split: option.splits)

section \<open>A sample manager\<close>

definition sample_member :: "(unit, unit) ClientImpl_scheme" where
  "sample_member = (make_ClientImpl (make_ClientConfig ''group'') ''client'')
     \<lparr>cl_state := STARTED, cl_topic_route_table := [(''topic'', sample_route)],
      cl_isolated_endpoints := [''ipv4:10.0.0.9:80'']\<rparr>"

definition sample_manager :: "(unit, unit) ClientImpl_scheme ClientManagerImpl" where
  "sample_manager = addClientObserver (Some sample_member)
     (fst (manager_start 1 2 3 (make_ClientManagerImpl ''ns'')))"

lemma sample_manager_reach: "manager_reach sample_manager" "manager_running sample_manager"
  unfolding sample_manager_def
  by (intro manager_reach.intros) (simp add: manager_running_def addClientObserver_def manager_start_def
      make_ClientManagerImpl_def)

definition sample_two_hosts :: "(unit, unit) ClientImpl_scheme ClientManagerImpl" where
  "sample_two_hosts =
     fst (getRpcClient (\<lambda>_. True) ''b'' False (fst (getRpcClient (\<lambda>_. True) ''a'' True sample_manager)))"

lemma sample_two_hosts_facts:
  "manager_reach sample_two_hosts"
  "hm_find id (cm_rpc_clients sample_two_hosts) ''a'' = Some \<lparr>rc_channel = 0, rc_need_heartbeat = True\<rparr>"
  "hm_find id (cm_rpc_clients sample_two_hosts) ''b'' = Some \<lparr>rc_channel = 1, rc_need_heartbeat = False\<rparr>"
  by (simp_all add: sample_two_hosts_def manager_reach.intros sample_manager_reach)
    (simp_all add: getRpcClient_def create_client_def sample_manager_def addClientObserver_def
      manager_start_def make_ClientManagerImpl_def Let_def)

definition sample_no_permission :: rmq_Partition where
  "sample_no_permission = \<lparr>rp_topic = \<lparr>rs_namespace = ''ns'', rs_name = ''topic''\<rparr>, rp_id = 0,
     rp_permission = Some NONE, rp_broker_name = ''broker'', rp_broker_id = 0, rp_scheme = Some IPv4,
     rp_addresses = [Address ''10.0.0.1'' 80]\<rparr>"

section \<open>Properties\<close>

text \<open>C12. In every reachable state of the manager each host has one RPC client, no two hosts share a
  channel, and the channel of every client was created before.\<close>

theorem manager_channels_distinct:
  assumes "manager_reach cm" "hm_find id (cm_rpc_clients cm) h = Some c"
    "hm_find id (cm_rpc_clients cm) h' = Some c'"
  shows "rc_channel c < cm_channels cm \<and> (rc_channel c = rc_channel c' \<longleftrightarrow> h = h')"
proof -
  have ok: "rpc_table_ok cm" using assms(1) by (rule manager_reach_ok)
  have mem: "(h, c) \<in> set (cm_rpc_clients cm)" "(h', c') \<in> set (cm_rpc_clients cm)"
    using hm_find_SomeD[OF assms(2)] hm_find_SomeD[OF assms(3)] by simp_all
  have "h = h'" if "rc_channel c = rc_channel c'"
    using ok mem that unfolding rpc_table_ok_def distinct_map by (metis (no_types, lifting) inj_onD prod.inject snd_conv)
  then show ?thesis using ok mem assms by (auto simp: rpc_table_ok_def)
qed

theorem manager_channels_distinct_witness:
  "rc_channel (the (hm_find id (cm_rpc_clients sample_two_hosts) ''a'')) < cm_channels sample_two_hosts
   \<and> rc_channel (the (hm_find id (cm_rpc_clients sample_two_hosts) ''a''))
       \<noteq> rc_channel (the (hm_find id (cm_rpc_clients sample_two_hosts) ''b''))"
  using manager_channels_distinct[OF sample_two_hosts_facts] by (simp add: sample_two_hosts_facts)

text \<open>C13. Two rounds of the health check followed by a heartbeat leave the active clients with no
  isolated endpoint that is offline, and the hosts that get heartbeats are in use by a client
  that is alive and include every endpoint of an active client.\<close>

theorem health_check_converges:
  assumes "manager_reach cm" "manager_running cm"
    and "cm1 = fst (doHealthCheck ok1 hm dt1 cm)" "cm2 = fst (doHealthCheck ok2 hm dt2 cm1)"
    and "cm3 = fst (doHeartbeat ok3 hm dt3 cm2)"
  shows "isolated cm3 \<subseteq> in_use cm \<and> flagged cm3 \<subseteq> in_use cm
    \<and> (\<forall>cl\<in>set (live_clients cm3). active cl \<longrightarrow> set (endpointsInUse cl) \<subseteq> flagged cm3)"
proof -
  note r1 = doHealthCheck_facts[OF manager_reach_ok[OF assms(1)] assms(2,3)]
  note r2 = doHealthCheck_facts[OF r1(1,2) assms(4)]
  note r3 = doHeartbeat_facts[OF r2(1,2) assms(5)]
  have live: "live_clients cm3 = live_clients cm2" using r3(2) by (simp add: live_clients_def)
  then have same: "isolated cm3 = isolated cm2" by (simp add: isolated_def)
  have beats: "(\<Union>cl\<in>set (filter active (live_clients cm2)). set (endpointsInUse cl)) \<subseteq> in_use cm2"
    by (auto simp: in_use_def)
  have "isolated cm2 \<subseteq> in_use cm" using r1 r2 by blast
  moreover have "flagged cm3 \<subseteq> in_use cm" using r1(3) r2 r3(3) beats calculation by blast
  ultimately show ?thesis using same live r3(3) by auto
qed

theorem health_check_converges_witness:
  "isolated (fst (doHeartbeat (\<lambda>_. True) (\<lambda>_ _. []) ''t'' (fst (doHealthCheck (\<lambda>_. True) (\<lambda>_ _. []) ''t''
     (fst (doHealthCheck (\<lambda>_. True) (\<lambda>_ _. []) ''t'' sample_manager)))))) \<subseteq> in_use sample_manager"
  using health_check_converges[OF sample_manager_reach refl refl refl] by blast

text \<open>C34. The factory never lets two managers of one namespace live at the same time, and the manager
  it returns is alive and belongs to the namespace asked for.\<close>

theorem factory_one_manager_per_namespace:
  assumes "factory_reach cf" "getClientManager ns cf = (cf', i)"
  shows "(i, ns) \<in> set (cf_managers cf') \<and> (\<forall>j. (j, ns) \<in> set (cf_managers cf') \<longrightarrow> j = i)"
proof -
  have ok: "factory_ok cf'" and alive: "manager_alive cf' i"
    using getClientManager_ok[OF factory_reach_ok[OF assms(1)], of ns] assms(2) by simp_all
  have found: "hm_find id (cf_table cf') ns = Some i"
    using assms(2) by (auto simp: getClientManager_def hm.find_assign split: option.splits if_splits)
  obtain ns' where ns': "(i, ns') \<in> set (cf_managers cf')" using alive by (auto simp: manager_alive_def)
  have "hm_find id (cf_table cf') ns' = Some i" using ok ns' by (auto simp: factory_ok_def)
  then have "(ns', i) \<in> set (cf_table cf')" "(ns, i) \<in> set (cf_table cf')"
    using hm_find_SomeD[of id "cf_table cf'"] found by fastforce+
  then have "ns' = ns" using ok unfolding factory_ok_def inj_on_def by (metis prod.inject snd_conv)
  then show ?thesis using ns' ok found by (auto simp: factory_ok_def)
qed

theorem factory_one_manager_per_namespace_witness:
  "\<exists>cf i. getClientManager ''ns'' (manager_expires 0 (fst (getClientManager ''ns'' make_ClientManagerFactory))) = (cf, i)
     \<and> (i, ''ns'') \<in> set (cf_managers cf)"
proof -
  have "factory_reach (manager_expires 0 (fst (getClientManager ''ns'' make_ClientManagerFactory)))"
    by (intro factory_reach.intros)
  from factory_one_manager_per_namespace[OF this prod.collapse[symmetric], of "''ns''"] show ?thesis
    by (metis prod.collapse)
qed

text \<open>A master partition that the name server announces without any permission is taken for a
  writable one: the producer may send to it.\<close>

theorem no_permission_is_published:
  assumes "resolveRoute True response = (ec, Some route)" "p \<in> set (qa_partitions response)"
    and "rp_permission p = Some NONE" "rp_broker_id p = MASTER_BROKER_ID"
    and "make_TopicPublishInfo topic route = Some info"
  shows "resolve_partition p \<in> set (pi_partition_list info)"
proof -
  have "resolve_partition p \<in> set (rt_partitions route)" using assms(1,2)
    by (auto simp: resolveRoute_def make_TopicRouteData_def split: option.splits Code.splits)
  moreover have "writable_master (resolve_partition p)"
    using assms(3,4) by (simp add: writable_master_def resolve_partition_def resolve_permission_def)
  ultimately have "resolve_partition p \<in> set (filter writable_master (rt_partitions route))" by simp
  then show ?thesis
    using make_TopicPublishInfo_publish_ok[OF assms(5)] by (auto simp: publish_ok_def Let_def filter_empty_conv split: if_splits)
qed

theorem no_permission_is_published_witness:
  "\<exists>info. make_TopicPublishInfo ''topic'' (make_TopicRouteData [resolve_partition sample_no_permission] []) = Some info
     \<and> resolve_partition sample_no_permission \<in> set (pi_partition_list info)"
proof -
  let ?route = "make_TopicRouteData [resolve_partition sample_no_permission] []"
  have topic: "rt_partitions ?route = [resolve_partition sample_no_permission]"
    "tp_name (pt_topic (resolve_partition sample_no_permission)) = ''topic''"
    by (simp_all add: make_TopicRouteData_def resolve_partition_def sample_no_permission_def)
  then obtain info where info: "make_TopicPublishInfo ''topic'' ?route = Some info"
    by (auto simp: make_TopicPublishInfo_def updatePublishInfo_def Let_def)
  have "resolveRoute True \<lparr>qa_code = Some Code_OK, qa_partitions = [sample_no_permission], qa_debug_string = []\<rparr>
      = (Success, Some ?route)" by (simp add: resolveRoute_def)
  from no_permission_is_published[OF this _ _ _ info, of sample_no_permission] show ?thesis
    using info by (simp add: sample_no_permission_def MASTER_BROKER_ID_def)
qed

end
