(* ===== verification/Producer.thy ===== *)
theory Producer
  imports Client_Manager
begin

text \<open>
  The producer (\<open>rocketmq/ProducerImpl.cpp\<close>, \<open>SendCallbacks.cpp\<close>, \<open>TransactionImpl.cpp\<close>): the table
  of publish information, the choice of message queues for synchronous and asynchronous sends, the
  retrying callback with the remote calls it makes, and transactions. \<open>std::hash\<close>, the tracing
  headers, the clock and the id generator are fields of \<open>send_env\<close>. The blocking calls
  \<open>getPublishInfo\<close> and \<open>listMessageQueue\<close> are \<open>asyncPublishInfo\<close> with a callback that stores what it
  is given; how a thread waits for it is the subject of the theory on waiting.
\<close>

section \<open>State\<close>

datatype TransactionState = COMMIT | ROLLBACK

text \<open>The closures that wait for publish information: the two blocking calls, and a send that keeps
  a copy of its message and the callback of the user.\<close>

datatype publish_callback = AwaitPublishInfo nat | AwaitQueueList nat | SendLater MQMessage nat

type_synonym route_callback = "string \<times> publish_callback"

record ProducerImpl = "route_callback ClientImpl" +
  pd_topic_publish_info_table :: "(string \<times> TopicPublishInfo) list"
  pd_max_attempt_times :: i32
  pd_compress_body_threshold :: u32
  pd_transaction_state_checker :: "(MQMessageExt \<Rightarrow> TransactionState) option"

definition make_ProducerImpl :: "ClientConfig \<Rightarrow> string \<Rightarrow> ProducerImpl" where
  "make_ProducerImpl config client_id =
     ClientImpl.extend (make_ClientImpl config client_id)
       \<lparr>pd_topic_publish_info_table = [], pd_max_attempt_times = MAX_SEND_MESSAGE_ATTEMPT_TIMES,
        pd_compress_body_threshold = DEFAULT_COMPRESS_BODY_THRESHOLD, pd_transaction_state_checker = None\<rparr>"

section \<open>Life cycle\<close>

text \<open>The flag tells whether the producer is registered with the client manager.\<close>

definition producer_start :: "u32 \<Rightarrow> ProducerImpl \<Rightarrow> (ProducerImpl \<times> client_action list \<times> bool) option" where
  "producer_start handle pd = (case client_start handle pd of
       None \<Rightarrow> None
     | Some (pd', actions) \<Rightarrow> Some (pd', actions, \<not> STARTED \<noteq> cl_state pd'))"

definition producer_shutdown :: "ProducerImpl \<Rightarrow> (ProducerImpl \<times> client_action list) option" where
  "producer_shutdown pd = (case client_shutdown pd of
       None \<Rightarrow> None
     | Some (pd', actions) \<Rightarrow>
         Some (pd'\<lparr>cl_state := fst (compare_exchange (cl_state pd') STOPPING STOPPED)\<rparr>, actions))"

definition isRunning :: "ProducerImpl \<Rightarrow> bool" where
  "isRunning pd = (STARTED = cl_state pd)"

definition ensureRunning :: "ProducerImpl \<Rightarrow> ErrorCode" where
  "ensureRunning pd = (if \<not> isRunning pd then IllegalState else Success)"

section \<open>Publish information\<close>

definition asyncPublishInfo_lookup :: "ProducerImpl \<Rightarrow> string \<Rightarrow> TopicPublishInfo option" where
  "asyncPublishInfo_lookup pd topic = hm_find id (pd_topic_publish_info_table pd) topic"

text \<open>The callback \<open>asyncPublishInfo\<close> passes to \<open>getRouteFor\<close>. None: the publish information cannot be
  built, because there is no route or a partition of another topic.\<close>

definition onPublishRoute ::
  "ProducerImpl \<Rightarrow> string \<Rightarrow> ErrorCode \<Rightarrow> TopicRouteData option \<Rightarrow>
   (ProducerImpl \<times> ErrorCode \<times> TopicPublishInfo option) option" where
  "onPublishRoute pd topic ec route =
     (if failed ec then Some (pd, ec, None)
      else case route of
        None \<Rightarrow> None
      | Some r \<Rightarrow> (case make_TopicPublishInfo topic r of
            None \<Rightarrow> None
          | Some publish_info \<Rightarrow>
              Some (pd\<lparr>pd_topic_publish_info_table :=
                  hm_assign id topic publish_info (pd_topic_publish_info_table pd)\<rparr>, ec, Some publish_info)))"

text \<open>What \<open>listMessageQueue\<close> returns, given what its callback was handed.\<close>

definition listMessageQueue :: "ErrorCode \<times> TopicPublishInfo option \<Rightarrow> ErrorCode \<times> MQMessageQueue list" where
  "listMessageQueue answer = (case answer of (ec, ptr) \<Rightarrow>
     (ec, if failed ec then [] else case ptr of None \<Rightarrow> [] | Some info \<Rightarrow> getMessageQueueList info))"

text \<open>\<open>swq\<close> is the thread local counter of \<open>TopicPublishInfo\<close>.\<close>

definition takeMessageQueuesRoundRobin ::
  "u32 \<Rightarrow> ProducerImpl \<Rightarrow> TopicPublishInfo \<Rightarrow> i32 \<Rightarrow> u32 \<times> MQMessageQueue list" where
  "takeMessageQueuesRoundRobin swq pd publish_info number =
     (case takeMessageQueues swq publish_info (set (cl_isolated_endpoints pd)) [] (word_of_int number) of
        (swq', _, queues) \<Rightarrow> (swq', queues))"

definition withServiceAddress ::
  "MQMessageQueue \<Rightarrow> ErrorCode \<times> TopicPublishInfo option \<Rightarrow> ErrorCode + MQMessageQueue" where
  "withServiceAddress message_queue answer =
     (if mq_service_address message_queue \<noteq> [] then Inr message_queue
      else if mq_topic message_queue = [] \<or> mq_broker_name message_queue = [] \<or> mq_queue_id message_queue < 0
      then Inl BadRequest
      else case listMessageQueue answer of (ec, list) \<Rightarrow>
        if failed ec then Inl ec
        else case find (\<lambda>item. mq_eq item message_queue) list of
          Some item \<Rightarrow> Inr item
        | None \<Rightarrow> if list = [] then Inl NotFound else Inr (hd list))"

section \<open>Isolation\<close>

definition isEndpointIsolated :: "ProducerImpl \<Rightarrow> string \<Rightarrow> bool" where
  "isEndpointIsolated pd target = (target \<in> set (cl_isolated_endpoints pd))"

definition isolateEndpoint :: "ProducerImpl \<Rightarrow> string \<Rightarrow> ProducerImpl" where
  "isolateEndpoint pd target = pd\<lparr>cl_isolated_endpoints := List.insert target (cl_isolated_endpoints pd)\<rparr>"

section \<open>Choosing message queues\<close>

record send_env =
  se_hash :: "string \<Rightarrow> u64"
  se_codec :: codec
  se_hmac :: "string \<Rightarrow> string \<Rightarrow> byte list"
  se_date :: "i32 \<Rightarrow> string"
  se_hostname :: string
  se_now :: "i32 \<Rightarrow> time_point"
  se_next_id :: "i32 \<Rightarrow> string"
  se_properties :: "(string \<rightharpoonup> string) \<Rightarrow> (string \<times> string) list"
  se_trace :: "i32 \<Rightarrow> string"

definition queue_of_group :: "(string \<Rightarrow> u64) \<Rightarrow> string \<Rightarrow> MQMessageQueue list \<Rightarrow> MQMessageQueue" where
  "queue_of_group hash grp list = list ! (unat (hash grp AND (- 1)) mod length list)"

definition first_equal :: "MQMessageQueue list \<Rightarrow> MQMessageQueue \<Rightarrow> MQMessageQueue list" where
  "first_equal list q = (case find (\<lambda>entry. mq_eq entry q) list of None \<Rightarrow> [] | Some entry \<Rightarrow> [entry])"

text \<open>The synchronous send up to the remote call, given the results of \<open>getPublishInfo\<close> and of the
  callback of \<open>listMessageQueue\<close>. An empty list is an error.\<close>

definition send_queues ::
  "send_env \<Rightarrow> u32 \<Rightarrow> ProducerImpl \<Rightarrow> TopicPublishInfo option \<Rightarrow> ErrorCode \<times> TopicPublishInfo option \<Rightarrow>
   MQMessage \<Rightarrow> u32 \<times> (ErrorCode + MQMessageQueue list)" where
  "send_queues env swq pd topic_publish_info listed message =
     (if failed (ensureRunning pd) then (swq, Inl (ensureRunning pd))
      else case topic_publish_info of
        None \<Rightarrow> (swq, Inl NotFound)
      | Some info \<Rightarrow>
          if msg_message_group message \<noteq> [] \<or> mq_bool (msg_message_queue message)
          then (swq, case listMessageQueue listed of (ec, list) \<Rightarrow>
              if failed ec then Inl ec
              else if list = [] then Inl ServiceUnavailable
              else if msg_message_group message \<noteq> []
              then Inr [queue_of_group (se_hash env) (msg_message_group message) list]
              else if first_equal list (msg_message_queue message) = [] then Inl ServiceUnavailable
              else Inr (first_equal list (msg_message_queue message)))
          else case takeMessageQueuesRoundRobin swq pd info (pd_max_attempt_times pd) of
            (swq', queues) \<Rightarrow> (swq', if queues = [] then Inl ServiceUnavailable else Inr queues))"

text \<open>The callback of the asynchronous send. \<open>message\<close> is the copy that the closure captured. None:
  the remainder by the length of an empty list.\<close>

definition sendAsync_queues ::
  "send_env \<Rightarrow> u32 \<Rightarrow> ProducerImpl \<Rightarrow> ErrorCode \<Rightarrow> TopicPublishInfo \<Rightarrow> MQMessage \<Rightarrow>
   (u32 \<times> (ErrorCode + MQMessageQueue list)) option" where
  "sendAsync_queues env swq pd ec publish_info message =
     (if failed ec then Some (swq, Inl ec)
      else if msg_message_group message \<noteq> [] \<or> mq_bool (msg_message_queue message)
      then (let list = getMessageQueueList publish_info
            in if msg_message_group message \<noteq> []
               then (if list = [] then None
                     else Some (swq, Inr [queue_of_group (se_hash env) (msg_message_group message) list]))
               else Some (swq, if first_equal list (msg_message_queue message) = [] then Inl ServiceUnavailable
                               else Inr (first_equal list (msg_message_queue message))))
      else case takeMessageQueuesRoundRobin swq pd publish_info (pd_max_attempt_times pd) of
        (swq', queues) \<Rightarrow> Some (swq', if queues = [] then Inl ServiceUnavailable else Inr queues))"

text \<open>What an asynchronous send does at once: the failures it reports, and the publish information it
  continues with or the closure it leaves behind.\<close>

definition sendAsync ::
  "ProducerImpl \<Rightarrow> MQMessage \<Rightarrow> nat \<Rightarrow> ErrorCode list \<times> (TopicPublishInfo + route_callback)" where
  "sendAsync pd message cb =
     ((if failed (ensureRunning pd) then [ensureRunning pd] else []),
      (case asyncPublishInfo_lookup pd (getTopic message) of
         Some info \<Rightarrow> Inl info
       | None \<Rightarrow> Inr (getTopic message, SendLater (copy_MQMessage message) cb)))"

section \<open>Sending with retries\<close>

record RetrySendCallback =
  rt_message :: MQMessage
  rt_attempt_times :: i32
  rt_max_attempt_times :: i32
  rt_candidates :: "MQMessageQueue list"

definition rt_messageQueue :: "RetrySendCallback \<Rightarrow> MQMessageQueue" where
  "rt_messageQueue rt = rt_candidates rt ! (nat (rt_attempt_times rt) mod length (rt_candidates rt))"

text \<open>A remote call is under way with the callback, or the callback of the user has been told, or the
  access key for the trace span was taken from a missing provider.\<close>

datatype send_progress =
    Calling RetrySendCallback string metadata rmq_Message
  | ToldSuccess SendResult
  | ToldFailure ErrorCode
  | Crashed

definition send_request :: "send_env \<Rightarrow> ProducerImpl \<Rightarrow> RetrySendCallback \<Rightarrow> rmq_Message" where
  "send_request env pd rt =
     (let n = rt_attempt_times rt; m = rt_message rt
      in wrapSendMessageRequest (se_codec env) (cc_resource_namespace (cl_config pd))
           (cc_group_name (cl_config pd)) (pd_compress_body_threshold pd) (se_hostname env) (se_now env n)
           (se_next_id env n) (se_properties env (mi_user_attribute_map (msg_impl m))) m (rt_messageQueue rt))"

text \<open>\<open>sendImpl\<close> and \<open>RetrySendCallback::onFailure\<close> call each other while the chosen queue has no
  address; \<open>alive\<close> tells whether the producer still exists, which it does inside its own method.\<close>

function (sequential) sendImpl :: "send_env \<Rightarrow> ProducerImpl \<Rightarrow> RetrySendCallback \<Rightarrow> send_progress"
  and retry_onFailure :: "send_env \<Rightarrow> ProducerImpl \<Rightarrow> bool \<Rightarrow> RetrySendCallback \<Rightarrow> ErrorCode \<Rightarrow> send_progress" where
  "sendImpl env pd rt =
     (let target = mq_service_address (rt_messageQueue rt)
      in if target = [] then retry_onFailure env pd True rt BadGateway
         else if access_key (cl_config pd) = None then Crashed
         else Calling (rt\<lparr>rt_message := update_attrs (\<lambda>a. a\<lparr>sa_trace_context := se_trace env (rt_attempt_times rt)\<rparr>)
                  (rt_message rt)\<rparr>) target
                (sign (se_hmac env) (se_date env (rt_attempt_times rt)) (cl_config pd) []) (send_request env pd rt))"
| "retry_onFailure env pd alive rt ec =
     (let rt' = rt\<lparr>rt_attempt_times := rt_attempt_times rt + 1\<rparr>
      in if rt_attempt_times rt' \<ge> rt_max_attempt_times rt then ToldFailure ec
         else if \<not> alive then ToldFailure ec
         else if rt_candidates rt = [] then ToldFailure ec
         else sendImpl env pd rt')"
  by pat_completeness auto
termination
  by (relation "measure (\<lambda>x. case x of
        Inl (_, _, rt) \<Rightarrow> 2 * nat (rt_max_attempt_times rt - rt_attempt_times rt) + 1
      | Inr (_, _, _, rt, _) \<Rightarrow> 2 * nat (rt_max_attempt_times rt - rt_attempt_times rt))")
    auto

declare sendImpl.simps [simp del] retry_onFailure.simps [simp del]

definition retry_onSuccess :: "send_env \<Rightarrow> RetrySendCallback \<Rightarrow> SendResult \<Rightarrow> send_progress" where
  "retry_onSuccess env rt r = ToldSuccess (r\<lparr>sr_message_queue := rt_messageQueue rt,
     sr_trace_context := se_trace env (rt_attempt_times rt)\<rparr>)"

definition send0 ::
  "send_env \<Rightarrow> ProducerImpl \<Rightarrow> MQMessage \<Rightarrow> MQMessageQueue list \<Rightarrow> i32 \<Rightarrow> send_progress" where
  "send0 env pd message list max_attempt_times =
     (if \<not> validate message then ToldFailure BadRequest
      else if list = [] then ToldFailure NotFound
      else if max_attempt_times \<le> 0 then ToldFailure BadConfiguration
      else sendImpl env pd \<lparr>rt_message = copy_MQMessage message, rt_attempt_times = 0,
        rt_max_attempt_times = max_attempt_times, rt_candidates = list\<rparr>)"

text \<open>A remote call completes; None: the callback is not run, and never will be.\<close>

definition complete ::
  "send_env \<Rightarrow> ProducerImpl \<Rightarrow> bool \<Rightarrow> RetrySendCallback \<Rightarrow> (ErrorCode + SendResult) option \<Rightarrow> send_progress option" where
  "complete env pd alive rt answer = (case answer of
       None \<Rightarrow> None
     | Some (Inl ec) \<Rightarrow> Some (retry_onFailure env pd alive rt ec)
     | Some (Inr r) \<Rightarrow> Some (retry_onSuccess env rt r))"

text \<open>The whole send: the state of the manager, the status of the call and the response are those of
  the attempt with the given number. The first component lists the targets that were called.\<close>

record send_world =
  sw_manager :: "i32 \<Rightarrow> State option"
  sw_status_ok :: "i32 \<Rightarrow> bool"
  sw_response :: "i32 \<Rightarrow> SendMessageResponse"

definition answer_of :: "send_world \<Rightarrow> i32 \<Rightarrow> (ErrorCode + SendResult) option" where
  "answer_of sw n = send_completion (sw_manager sw n) (sw_status_ok sw n) (sw_response sw n)"

fun run_send ::
  "nat \<Rightarrow> send_env \<Rightarrow> ProducerImpl \<Rightarrow> send_world \<Rightarrow> send_progress \<Rightarrow> string list \<times> send_progress option" where
  "run_send 0 env pd sw p = ([], Some p)"
| "run_send (Suc fuel) env pd sw (Calling rt target md rq) =
     (case complete env pd True rt (answer_of sw (rt_attempt_times rt)) of
        None \<Rightarrow> ([target], None)
      | Some p \<Rightarrow> (case run_send fuel env pd sw p of (targets, r) \<Rightarrow> (target # targets, r)))"
| "run_send (Suc fuel) env pd sw p = ([], Some p)"

section \<open>Awaiting the result\<close>

record AwaitSendCallback =
  aw_completed :: bool
  aw_send_result :: SendResult
  aw_ec :: ErrorCode

definition make_AwaitSendCallback :: AwaitSendCallback where
  "make_AwaitSendCallback = \<lparr>aw_completed = False, aw_send_result = default_SendResult, aw_ec = Success\<rparr>"

definition await_onSuccess :: "AwaitSendCallback \<Rightarrow> SendResult \<Rightarrow> AwaitSendCallback" where
  "await_onSuccess aw r = aw\<lparr>aw_send_result := assign_SendResult (aw_send_result aw) r, aw_completed := True\<rparr>"

definition await_onFailure :: "AwaitSendCallback \<Rightarrow> ErrorCode \<Rightarrow> AwaitSendCallback" where
  "await_onFailure aw ec = aw\<lparr>aw_completed := True, aw_ec := ec\<rparr>"

text \<open>The result of a synchronous send whose callback was told the given outcome.\<close>

definition await_result :: "AwaitSendCallback \<Rightarrow> ErrorCode + SendResult" where
  "await_result aw = (if \<not> failed (aw_ec aw) then Inr (aw_send_result aw) else Inl (aw_ec aw))"

text \<open>A synchronous send from beginning to end: the targets it called, and what it returns, or None if
  it waits forever or crashes. At most \<open>max_attempt_times\<close> calls are made, which is the fuel.\<close>

definition send_sync ::
  "send_env \<Rightarrow> u32 \<Rightarrow> ProducerImpl \<Rightarrow> TopicPublishInfo option \<Rightarrow> ErrorCode \<times> TopicPublishInfo option \<Rightarrow> send_world \<Rightarrow>
   MQMessage \<Rightarrow> u32 \<times> string list \<times> (ErrorCode + SendResult) option" where
  "send_sync env swq pd info listed sw message =
     (case send_queues env swq pd info listed message of
        (swq', Inl ec) \<Rightarrow> (swq', [], Some (Inl ec))
      | (swq', Inr queues) \<Rightarrow>
          (case run_send (nat (pd_max_attempt_times pd)) env pd sw
                  (send0 env pd message queues (pd_max_attempt_times pd)) of
             (targets, Some (ToldSuccess r)) \<Rightarrow>
               (swq', targets, Some (await_result (await_onSuccess make_AwaitSendCallback r)))
           | (targets, Some (ToldFailure ec)) \<Rightarrow>
               (swq', targets, Some (await_result (await_onFailure make_AwaitSendCallback ec)))
           | (targets, _) \<Rightarrow> (swq', targets, None)))"

section \<open>Transactions\<close>

record TransactionImpl =
  tx_message_id :: string
  tx_transaction_id :: string
  tx_endpoint :: string
  tx_trace_context :: string

definition prepare_message :: "MQMessage \<Rightarrow> MQMessage" where
  "prepare_message m = update_attrs (\<lambda>a. a\<lparr>sa_message_type := TRANSACTION\<rparr>) m"

definition prepare :: "ErrorCode + SendResult \<Rightarrow> TransactionImpl option" where
  "prepare result = (case result of
       Inl ec \<Rightarrow> None
     | Inr r \<Rightarrow> Some \<lparr>tx_message_id = sr_message_id r, tx_transaction_id = sr_transaction_id r,
         tx_endpoint = mq_service_address (sr_message_queue r), tx_trace_context = sr_trace_context r\<rparr>)"

record EndTransactionRequest =
  et_message_id :: string
  et_transaction_id :: string
  et_resolution :: TransactionState

text \<open>Target, headers and request of the call that ends a transaction, which is traced with the access
  key. None: there is no provider of credentials.\<close>

definition endTransaction0 ::
  "(string \<Rightarrow> string \<Rightarrow> byte list) \<Rightarrow> string \<Rightarrow> ProducerImpl \<Rightarrow> string \<Rightarrow> string \<Rightarrow> string \<Rightarrow> TransactionState \<Rightarrow>
   (string \<times> metadata \<times> EndTransactionRequest) option" where
  "endTransaction0 hmac_sha1 date_time pd target message_id transaction_id resolution =
     (if access_key (cl_config pd) = None then None
      else Some (target, sign hmac_sha1 date_time (cl_config pd) [],
        \<lparr>et_message_id = message_id, et_transaction_id = transaction_id, et_resolution = resolution\<rparr>))"

text \<open>No call is made when the producer is gone, and the transaction reports a failure.\<close>

definition tx_end ::
  "(string \<Rightarrow> string \<Rightarrow> byte list) \<Rightarrow> string \<Rightarrow> ProducerImpl option \<Rightarrow> TransactionState \<Rightarrow> TransactionImpl \<Rightarrow>
   (string \<times> metadata \<times> EndTransactionRequest) option" where
  "tx_end hmac_sha1 date_time producer resolution tx = (case producer of
       None \<Rightarrow> None
     | Some pd \<Rightarrow> endTransaction0 hmac_sha1 date_time pd (tx_endpoint tx) (tx_message_id tx)
         (tx_transaction_id tx) resolution)"

definition resolveOrphanedTransactionalMessage ::
  "(string \<Rightarrow> string \<Rightarrow> byte list) \<Rightarrow> string \<Rightarrow> ProducerImpl \<Rightarrow> string \<Rightarrow> MQMessageExt \<Rightarrow>
   (string \<times> metadata \<times> EndTransactionRequest) option" where
  "resolveOrphanedTransactionalMessage hmac_sha1 date_time pd transaction_id message =
     (case pd_transaction_state_checker pd of
        None \<Rightarrow> None
      | Some checker \<Rightarrow> endTransaction0 hmac_sha1 date_time pd (targetEndpoint message)
          (getMsgId message) transaction_id (checker message))"

definition producer_prepareHeartbeatData :: "ProducerImpl \<Rightarrow> string \<times> Resource" where
  "producer_prepareHeartbeatData pd = (cl_client_id pd,
     \<lparr>rs_namespace = cc_resource_namespace (cl_config pd), rs_name = cc_group_name (cl_config pd)\<rparr>)"

section \<open>What a send promises\<close>

text \<open>The reference for a send with \<open>n\<close> attempts over the candidates \<open>qs\<close>, from attempt \<open>a\<close> on: the
  attempts go round robin over the candidates and stop at the first success; without one the last
  error is reported.\<close>

definition attempt_target :: "MQMessageQueue list \<Rightarrow> nat \<Rightarrow> string" where
  "attempt_target qs k = mq_service_address (qs ! (k mod length qs))"

definition send_spec ::
  "send_env \<Rightarrow> MQMessageQueue list \<Rightarrow> nat \<Rightarrow> (nat \<Rightarrow> ErrorCode + SendResult) \<Rightarrow> nat \<Rightarrow>
   string list \<times> send_progress option" where
  "send_spec env qs n answers a = (case find (\<lambda>k. \<not> isl (answers k)) [a..<n] of
       Some k \<Rightarrow> (map (attempt_target qs) [a..<Suc k],
         Some (ToldSuccess ((projr (answers k))\<lparr>sr_message_queue := qs ! (k mod length qs),
           sr_trace_context := se_trace env (int k)\<rparr>)))
     | None \<Rightarrow> (map (attempt_target qs) [a..<n], Some (ToldFailure (projl (answers (n - 1))))))"

section \<open>Publish information over time\<close>

text \<open>Threads look publish information up, ask for a route when there is none, and the route cache is
  refreshed. \<open>pw_asked\<close> lists the topics whose route will be handed to \<open>onPublishRoute\<close>.\<close>

record publish_world =
  pw_producer :: ProducerImpl
  pw_asked :: "string list"

inductive publish_step :: "publish_world \<Rightarrow> publish_world \<Rightarrow> bool" where
  publish_ask: "asyncPublishInfo_lookup (pw_producer w) topic = None \<Longrightarrow>
     publish_step w (w\<lparr>pw_asked := pw_asked w @ [topic]\<rparr>)"
| publish_route: "topic \<in> set (pw_asked w) \<Longrightarrow>
     onPublishRoute (pw_producer w) topic ec route = Some (pd, ec', info) \<Longrightarrow>
     publish_step w (w\<lparr>pw_producer := pd, pw_asked := remove1 topic (pw_asked w)\<rparr>)"
| publish_refresh: "publish_step w (w\<lparr>pw_producer := updateRouteCache (pw_producer w) topic ec route\<rparr>)"
| publish_isolate: "publish_step w (w\<lparr>pw_producer := isolateEndpoint (pw_producer w) target\<rparr>)"

inductive publish_steps :: "publish_world \<Rightarrow> publish_world \<Rightarrow> bool" where
  publish_none: "publish_steps w w"
| publish_more: "publish_steps w w' \<Longrightarrow> publish_step w' w'' \<Longrightarrow> publish_steps w w''"

section \<open>Lemmas: retries\<close>

lemma sendImpl_Calling:
  "\<lbrakk>mq_service_address (rt_messageQueue rt) \<noteq> []; access_key (cl_config pd) \<noteq> None\<rbrakk> \<Longrightarrow> \<exists>m md rq. sendImpl env pd rt =
     Calling (rt\<lparr>rt_message := m\<rparr>) (mq_service_address (rt_messageQueue rt)) md rq"
  by (auto simp: sendImpl.simps Let_def)

text \<open>Every call under way belongs to a callback with the same candidates and limit, an attempt below
  the limit and the address of the candidate of that attempt.\<close>

definition call_ok :: "MQMessageQueue list \<Rightarrow> i32 \<Rightarrow> i32 \<Rightarrow> send_progress \<Rightarrow> bool" where
  "call_ok qs mx a p = (case p of
       Calling rt target md rq \<Rightarrow> rt_candidates rt = qs \<and> rt_max_attempt_times rt = mx
         \<and> a \<le> rt_attempt_times rt \<and> rt_attempt_times rt < mx
         \<and> target = mq_service_address (rt_messageQueue rt) \<and> target \<noteq> []
     | _ \<Rightarrow> True)"

lemma call_ok_progress:
  "rt_candidates rt = qs \<Longrightarrow> rt_max_attempt_times rt = mx \<Longrightarrow> rt_attempt_times rt < mx \<Longrightarrow> a \<le> rt_attempt_times rt \<Longrightarrow>
     call_ok qs mx a (sendImpl env pd rt)"
  "rt_candidates rt = qs \<Longrightarrow> rt_max_attempt_times rt = mx \<Longrightarrow> a \<le> rt_attempt_times rt + 1 \<Longrightarrow>
     call_ok qs mx a (retry_onFailure env pd alive rt ec)"
proof (induction env pd rt and env pd alive rt ec arbitrary: a and a rule: sendImpl_retry_onFailure.induct)
  case (1 env pd rt)
  then show ?case
    by (auto simp: sendImpl.simps Let_def call_ok_def rt_messageQueue_def)
next
  case (2 env pd alive rt ec)
  then show ?case by (auto simp: retry_onFailure.simps Let_def call_ok_def[where p = "ToldFailure _"])
qed

lemma call_ok_complete:
  "call_ok qs mx a (Calling rt target md rq) \<Longrightarrow> complete env pd True rt answer = Some p \<Longrightarrow>
   call_ok qs mx (rt_attempt_times rt + 1) p"
  by (auto simp: complete_def retry_onSuccess_def call_ok_def[where p = "ToldSuccess _"]
      call_ok_def[where p = "Calling _ _ _ _"] intro: call_ok_progress split: option.splits sum.splits)

lemma call_ok_send0:
  "call_ok qs mx 0 (send0 env pd m qs mx)"
  by (auto simp: send0_def call_ok_def[where p = "ToldFailure _"] intro: call_ok_progress)

lemma run_send_facts:
  assumes "call_ok qs mx a p" "mx - a \<le> int fuel" "qs \<noteq> []"
  shows "int (length (fst (run_send fuel env pd sw p))) \<le> max 0 (mx - a)
    \<and> set (fst (run_send fuel env pd sw p)) \<subseteq> mq_service_address ` set qs
    \<and> (\<forall>rt target md rq. snd (run_send fuel env pd sw p) \<noteq> Some (Calling rt target md rq))"
  using assms
proof (induction fuel env pd sw p arbitrary: a rule: run_send.induct)
  case (1 env pd sw p)
  then show ?case by (cases p) (auto simp: call_ok_def)
next
  case (2 fuel env pd sw rt target md rq)
  have ok: "a \<le> rt_attempt_times rt" "rt_attempt_times rt < mx" "target \<in> mq_service_address ` set qs"
    using 2(2,4) by (auto simp: call_ok_def rt_messageQueue_def)
  show ?case
  proof (cases "complete env pd True rt (answer_of sw (rt_attempt_times rt))")
    case None
    then show ?thesis using ok by simp
  next
    case (Some p)
    have "mx - (rt_attempt_times rt + 1) \<le> int fuel" using 2(3) ok by simp
    from 2(1)[OF Some call_ok_complete[OF 2(2) Some] this 2(4)] show ?thesis
      using Some ok by (simp add: split_beta)
  qed
qed auto

lemma run_send0_facts:
  assumes "qs \<noteq> []"
  shows "length (fst (run_send (nat mx) env pd sw (send0 env pd m qs mx))) \<le> nat mx
    \<and> set (fst (run_send (nat mx) env pd sw (send0 env pd m qs mx))) \<subseteq> mq_service_address ` set qs
    \<and> (\<forall>rt target md rq. snd (run_send (nat mx) env pd sw (send0 env pd m qs mx)) \<noteq> Some (Calling rt target md rq))"
proof -
  have "mx - 0 \<le> int (nat mx)" by simp
  from run_send_facts[OF call_ok_send0[of qs mx env pd m] this assms, of env pd sw] show ?thesis
    by (auto simp: max_def split: if_splits)
qed

text \<open>One attempt with an answer.\<close>

lemma complete_failure:
  assumes "rt_attempt_times rt + 1 < rt_max_attempt_times rt" "rt_candidates rt \<noteq> []"
    "answer = Some (Inl ec)"
  shows "complete env pd True rt answer = Some (sendImpl env pd (rt\<lparr>rt_attempt_times := rt_attempt_times rt + 1\<rparr>))"
  using assms by (simp add: complete_def retry_onFailure.simps Let_def)

lemma complete_last_failure:
  "rt_attempt_times rt + 1 \<ge> rt_max_attempt_times rt \<Longrightarrow>
   complete env pd True rt (Some (Inl ec)) = Some (ToldFailure ec)"
  by (simp add: complete_def retry_onFailure.simps Let_def)

lemma run_send_told [simp]:
  "run_send fuel env pd sw (ToldSuccess r) = ([], Some (ToldSuccess r))"
  "run_send fuel env pd sw (ToldFailure ec) = ([], Some (ToldFailure ec))"
  by (cases fuel; simp)+

lemma send_spec_success:
  "a < n \<Longrightarrow> answers a = Inr r \<Longrightarrow> send_spec env qs n answers a =
     ([attempt_target qs a], Some (ToldSuccess (r\<lparr>sr_message_queue := qs ! (a mod length qs),
        sr_trace_context := se_trace env (int a)\<rparr>)))"
  by (simp add: send_spec_def upt_conv_Cons)

lemma send_spec_failure:
  assumes "a < n" "answers a = Inl ec"
  shows "send_spec env qs n answers a =
     (if Suc a = n then ([attempt_target qs a], Some (ToldFailure ec))
      else (attempt_target qs a # fst (send_spec env qs n answers (Suc a)),
            snd (send_spec env qs n answers (Suc a))))"
proof (cases "find (\<lambda>k. \<not> isl (answers k)) [Suc a..<n]")
  case None
  then show ?thesis using assms by (auto simp: send_spec_def upt_conv_Cons[of a n])
next
  case (Some k)
  then have "Suc a \<le> k" "k < n" by (auto simp: find_Some_iff)
  then show ?thesis using assms Some by (simp add: send_spec_def upt_conv_Cons[of a n] upt_conv_Cons[of a k])
qed

lemma run_send_spec:
  assumes "qs \<noteq> []" "\<forall>q\<in>set qs. mq_service_address q \<noteq> []"
    and "\<forall>k<n. answer_of sw (int k) = Some (answers k)" "access_key (cl_config pd) \<noteq> None"
    and "a < n" "n \<le> a + fuel"
    and "rt_candidates rt = qs" "rt_attempt_times rt = int a" "rt_max_attempt_times rt = int n"
  shows "run_send fuel env pd sw (sendImpl env pd rt) = send_spec env qs n answers a"
  using assms(5-)
proof (induction "n - a" arbitrary: a fuel rt)
  case (Suc d)
  have tgt: "mq_service_address (rt_messageQueue rt) = attempt_target qs a" "rt_messageQueue rt = qs ! (a mod length qs)"
    using Suc.prems by (simp_all add: rt_messageQueue_def attempt_target_def)
  moreover have "attempt_target qs a \<noteq> []" using assms(1,2) by (simp add: attempt_target_def)
  ultimately obtain m md rq where call: "sendImpl env pd rt = Calling (rt\<lparr>rt_message := m\<rparr>) (attempt_target qs a) md rq"
    using sendImpl_Calling[of rt pd env] assms(4) by auto
  obtain f where f: "fuel = Suc f" using Suc.prems by (cases fuel) auto
  have ans: "answer_of sw (int a) = Some (answers a)" using assms(3) Suc.prems by simp
  show ?case
  proof (cases "answers a")
    case (Inr r)
    then show ?thesis using ans Suc.prems tgt
      by (simp add: call f complete_def retry_onSuccess_def send_spec_success rt_messageQueue_def)
  next
    case (Inl ec)
    show ?thesis
    proof (cases "Suc a = n")
      case True
      then show ?thesis using ans Suc.prems Inl
        by (simp add: call f complete_last_failure send_spec_failure[of a n answers ec, OF Suc.prems(1) Inl])
    next
      case False
      let ?rt = "rt\<lparr>rt_message := m, rt_attempt_times := int a + 1\<rparr>"
      have "run_send f env pd sw (sendImpl env pd ?rt) = send_spec env qs n answers (Suc a)"
        using Suc.hyps(2) Suc.prems False f by (intro Suc.hyps(1)) auto
      then show ?thesis using ans Suc.prems False Inl assms(1)
        by (simp add: call f complete_failure send_spec_failure[of a n answers ec, OF Suc.prems(1) Inl] split_beta)
    qed
  qed
qed simp

text \<open>Without credentials no call is made.\<close>

lemma no_call_without_credentials:
  "access_key (cl_config pd) = None \<Longrightarrow> \<nexists>rt' target md rq. sendImpl env pd rt = Calling rt' target md rq"
  "access_key (cl_config pd) = None \<Longrightarrow> \<nexists>rt' target md rq. retry_onFailure env pd alive rt ec = Calling rt' target md rq"
proof (induction env pd rt and env pd alive rt ec rule: sendImpl_retry_onFailure.induct)
  case (1 env pd rt)
  then show ?case by (simp add: sendImpl.simps Let_def)
next
  case (2 env pd alive rt ec)
  then show ?case by (simp add: retry_onFailure.simps Let_def)
qed

lemma run_send_no_credentials:
  "access_key (cl_config pd) = None \<Longrightarrow> fst (run_send fuel env pd sw (send0 env pd m qs mx)) = []"
  using no_call_without_credentials(1)[of pd env] by (cases fuel; cases "send0 env pd m qs mx") (auto simp: send0_def split: if_splits)

lemma retry_not_success:
  "sendImpl env pd rt \<noteq> ToldSuccess r" "retry_onFailure env pd alive rt ec \<noteq> ToldSuccess r"
proof (induction env pd rt and env pd alive rt ec rule: sendImpl_retry_onFailure.induct)
  case (1 env pd rt)
  then show ?case by (simp add: sendImpl.simps Let_def)
next
  case (2 env pd alive rt ec)
  then show ?case by (simp add: retry_onFailure.simps[of env pd alive rt ec] Let_def)
qed

lemma send0_not_success: "send0 env pd m qs mx \<noteq> ToldSuccess r"
  by (simp add: send0_def retry_not_success)

text \<open>A reported success is the answer to the last call that was made.\<close>

lemma run_send_success:
  assumes "run_send fuel env pd sw p = (ts, Some (ToldSuccess r))" "call_ok qs mx a p" "p \<noteq> ToldSuccess r"
  shows "ts \<noteq> [] \<and> mq_service_address (sr_message_queue r) = List.last ts \<and>
    (\<exists>k r0. answer_of sw k = Some (Inr r0) \<and> sr_message_id r = sr_message_id r0 \<and>
       sr_transaction_id r = sr_transaction_id r0)"
  using assms
proof (induction fuel env pd sw p arbitrary: a ts rule: run_send.induct)
  case (2 fuel env pd sw rt target md rq)
  obtain p where p: "complete env pd True rt (answer_of sw (rt_attempt_times rt)) = Some p"
    using 2(2) by (cases "complete env pd True rt (answer_of sw (rt_attempt_times rt))") auto
  obtain ts' where ts': "run_send fuel env pd sw p = (ts', Some (ToldSuccess r))" "ts = target # ts'"
    using 2(2) p by (auto simp: split_beta) (metis prod.collapse)
  show ?case
  proof (cases "p = ToldSuccess r")
    case True
    then obtain r0 where "answer_of sw (rt_attempt_times rt) = Some (Inr r0)"
      "r = r0\<lparr>sr_message_queue := rt_messageQueue rt, sr_trace_context := se_trace env (rt_attempt_times rt)\<rparr>"
      using p by (auto simp: complete_def retry_onSuccess_def retry_not_success split: option.splits sum.splits)
    then show ?thesis using ts' True 2(3) by (auto simp: call_ok_def)
  next
    case False
    then show ?thesis using 2(1)[OF p ts'(1) call_ok_complete[OF 2(3) p]] ts'(2) by simp
  qed
qed auto

lemma retry_failure:
  "sendImpl env pd rt = ToldFailure e \<Longrightarrow> e = BadGateway"
  "retry_onFailure env pd alive rt ec = ToldFailure e \<Longrightarrow> e = ec \<or> e = BadGateway"
proof (induction env pd rt and env pd alive rt ec rule: sendImpl_retry_onFailure.induct)
  case (1 env pd rt)
  then show ?case by (simp add: sendImpl.simps Let_def split: if_splits)
next
  case (2 env pd alive rt ec)
  then show ?case by (simp add: retry_onFailure.simps[of env pd alive rt ec] Let_def split: if_splits)
qed

lemma answer_failure: "answer_of sw k = Some (Inl ec) \<Longrightarrow> ec \<noteq> Success"
  by (auto simp: answer_of_def send_completion_def split: option.splits if_splits Code.splits)

lemma send0_failure: "send0 env pd m qs mx \<noteq> ToldFailure Success"
  by (auto simp: send0_def dest: retry_failure)

lemma run_send_failure:
  "run_send fuel env pd sw p = (ts, Some (ToldFailure e)) \<Longrightarrow> p \<noteq> ToldFailure Success \<Longrightarrow> e \<noteq> Success"
proof (induction fuel env pd sw p arbitrary: ts rule: run_send.induct)
  case (2 fuel env pd sw rt target md rq)
  obtain p where p: "complete env pd True rt (answer_of sw (rt_attempt_times rt)) = Some p"
    using 2(2) by (cases "complete env pd True rt (answer_of sw (rt_attempt_times rt))") auto
  have "p \<noteq> ToldFailure Success" using p
    by (auto simp: complete_def retry_onSuccess_def dest: answer_failure retry_failure(2) split: option.splits sum.splits)
  then show ?case using 2(1)[OF p] 2(2) p by (auto simp: split_beta) (metis prod.collapse)
qed auto

lemma answer_success:
  "answer_of sw k = Some (Inr r) \<Longrightarrow> sr_message_id r = sm_message_id (sw_response sw k)
     \<and> sr_transaction_id r = sm_transaction_id (sw_response sw k)"
  by (auto simp: answer_of_def send_completion_def split: option.splits if_splits Code.splits)

section \<open>Lemmas: choosing queues\<close>

lemma takeQueues_loop_prefix:
  "takeQueues_loop n i away cnt ps cs = (b, qs) \<Longrightarrow> \<exists>rest. qs = cs @ rest"
proof (induction n i away cnt ps cs arbitrary: b qs rule: takeQueues_loop.induct)
  case (2 n i away cnt ps cs)
  then show ?case by (fastforce simp: Let_def split: if_splits)
qed simp

lemma takeMessageQueuesRoundRobin_hd:
  assumes "ps = pi_partition_list info" "ps \<noteq> []"
    and "\<forall>p\<in>set ps. Broker_serviceAddress (pt_broker p) \<notin> set (cl_isolated_endpoints pd)"
  shows "\<exists>rest. takeMessageQueuesRoundRobin c pd info number =
           (c + 1, asMessageQueue (ps ! (unat (c + 1) mod length ps)) # rest)"
proof -
  let ?q = "asMessageQueue (ps ! (unat (c + 1) mod length ps))"
  obtain n where n: "length ps = Suc n" using assms(2) by (cases ps) auto
  have "ps ! (unat (c + 1) mod length ps) \<in> set ps" using assms(2) by simp
  then have free: "mq_service_address ?q \<notin> set (cl_isolated_endpoints pd)"
    using assms(3) by (simp add: asMessageQueue_def)
  obtain b qs where run: "takeQueues_loop (Suc n) (c + 1) (set (cl_isolated_endpoints pd))
      (unat (word_of_int number :: u32)) ps [] = (b, qs)" by fastforce
  have "\<exists>rest. qs = [?q] @ rest"
    using run free by (auto simp: Let_def dest!: takeQueues_loop_prefix split: if_splits)
  then show ?thesis using assms(1,2) n run
    by (auto simp: takeMessageQueuesRoundRobin_def takeMessageQueues_def Let_def simp del: takeQueues_loop.simps)
qed

section \<open>Lemmas: publish information over time\<close>

lemma updateRouteCache_publish [simp]:
  "pd_topic_publish_info_table (updateRouteCache pd t ec r) = pd_topic_publish_info_table pd"
  by (auto simp: updateRouteCache_def split: option.splits)

lemma publish_frozen_step:
  assumes "publish_step w w'" "asyncPublishInfo_lookup (pw_producer w) t = Some info" "t \<notin> set (pw_asked w)"
  shows "asyncPublishInfo_lookup (pw_producer w') t = Some info \<and> t \<notin> set (pw_asked w')"
  using assms
proof cases
  case (publish_route topic ec route pd ec' info')
  then have ne: "t \<noteq> topic" using assms(3) by auto
  have "pd_topic_publish_info_table pd = pd_topic_publish_info_table (pw_producer w)
      \<or> (\<exists>i. pd_topic_publish_info_table pd = hm_assign id topic i (pd_topic_publish_info_table (pw_producer w)))"
    using publish_route(3) by (auto simp: onPublishRoute_def split: if_splits option.splits)
  then have "hm_find id (pd_topic_publish_info_table pd) t = hm_find id (pd_topic_publish_info_table (pw_producer w)) t"
    using ne by (auto simp: hm.find_assign)
  moreover have "t \<notin> set (remove1 topic (pw_asked w))" using assms(3) set_remove1_subset by fastforce
  ultimately show ?thesis using publish_route(1) assms(2) by (simp add: asyncPublishInfo_lookup_def)
qed (use assms in \<open>auto simp: asyncPublishInfo_lookup_def isolateEndpoint_def\<close>)

lemma publish_frozen_steps:
  "publish_steps w w' \<Longrightarrow> asyncPublishInfo_lookup (pw_producer w) t = Some info \<Longrightarrow> t \<notin> set (pw_asked w) \<Longrightarrow>
   asyncPublishInfo_lookup (pw_producer w') t = Some info \<and> t \<notin> set (pw_asked w')"
  by (induction rule: publish_steps.induct) (auto dest: publish_frozen_step)

section \<open>A sample producer\<close>

definition sample_send_env :: send_env where
  "sample_send_env = \<lparr>se_hash = (\<lambda>_. 5), se_codec = sample_codec, se_hmac = (\<lambda>_ _. []), se_date = (\<lambda>_. ''t''),
     se_hostname = ''h'', se_now = (\<lambda>n. n), se_next_id = (\<lambda>n. to_string_int n), se_properties = (\<lambda>_. []),
     se_trace = (\<lambda>n. ''trace'')\<rparr>"

definition sample_producer :: ProducerImpl where
  "sample_producer = (make_ProducerImpl (sample_config ''g'') ''c'')
     \<lparr>cl_state := STARTED, pd_topic_publish_info_table := [(''T'', sample_info)]\<rparr>"

definition sample_grouped :: MQMessage where
  "sample_grouped = (make_MQMessage IDENTITY FIFO 0 ''h'' ''id0'' ''TopicTest'' ''TagA'' [] ''body'')
     \<lparr>msg_message_group := ''orders''\<rparr>"

text \<open>The first attempt times out, the second one succeeds.\<close>

definition sample_send_world :: send_world where
  "sample_send_world = \<lparr>sw_manager = (\<lambda>_. Some STARTED), sw_status_ok = (\<lambda>n. n = 1),
     sw_response = (\<lambda>_. \<lparr>sm_code = Some Code_OK, sm_message_id = ''m'', sm_transaction_id = ''x''\<rparr>)\<rparr>"

definition sample_targets :: "MQMessageQueue list" where
  "sample_targets = map asMessageQueue (pi_partition_list sample_info)"

lemma sample_targets_facts:
  "sample_targets \<noteq> []" "\<forall>q\<in>set sample_targets. mq_service_address q \<noteq> []"
  by (simp_all add: sample_targets_def sample_info_list asMessageQueue_def sample_partition_def
      Broker_serviceAddress_def address_def sample_broker_def make_ServiceAddress_def)

lemma sample_answers:
  "answer_of sample_send_world n = Some (if n = 1 then Inr (default_SendResult\<lparr>sr_message_id := ''m'',
     sr_transaction_id := ''x''\<rparr>) else Inl RequestTimeout)"
  by (simp add: answer_of_def sample_send_world_def send_completion_def default_SendResult_def)

lemma sample_validate: "validate sample_grouped"
  by (simp add: validate_iff sample_grouped_def make_MQMessage_def getTopic_def getBody_def bodyLength_def
      TOPIC_REGEX_def topic_char_def char_in_def starts_with_def)

lemma sample_producer_key [simp]: "access_key (cl_config sample_producer) = Some ''k''"
  by (simp add: sample_producer_def make_ProducerImpl_def ClientImpl.extend_def make_ClientImpl_def)

section \<open>Properties\<close>

text \<open>C2. A send calls the brokers exactly as its specification says: the attempts go round robin over
  the candidates, the first success is reported with the queue it came from, and after the last
  attempt the last error is reported. Fuel for the allowed number of attempts is enough. The producer
  has credentials.\<close>

theorem send_retries_spec:
  assumes "validate m" "qs \<noteq> []" "0 < n" "\<forall>q\<in>set qs. mq_service_address q \<noteq> []"
    and "\<forall>k<n. answer_of sw (int k) = Some (answers k)" "n \<le> fuel" "access_key (cl_config pd) \<noteq> None"
  shows "run_send fuel env pd sw (send0 env pd m qs (int n)) = send_spec env qs n answers 0"
proof -
  have "send0 env pd m qs (int n) = sendImpl env pd \<lparr>rt_message = copy_MQMessage m, rt_attempt_times = 0,
      rt_max_attempt_times = int n, rt_candidates = qs\<rparr>"
    using assms(1-3) by (simp add: send0_def)
  then show ?thesis using run_send_spec[OF assms(2,4,5,7,3)] assms(6) by simp
qed

theorem send_retries_spec_witness:
  "fst (run_send 3 sample_send_env sample_producer sample_send_world
     (send0 sample_send_env sample_producer sample_grouped sample_targets 3)) = map mq_service_address sample_targets"
proof -
  define answers where "answers = (\<lambda>k. the (answer_of sample_send_world (int k)))"
  have "run_send 3 sample_send_env sample_producer sample_send_world
      (send0 sample_send_env sample_producer sample_grouped sample_targets (int 3))
      = send_spec sample_send_env sample_targets 3 answers 0"
    by (rule send_retries_spec) (simp_all add: sample_validate sample_targets_facts sample_answers answers_def)
  moreover have "fst (send_spec sample_send_env sample_targets 3 answers 0) = map mq_service_address sample_targets"
    by (simp add: send_spec_def answers_def sample_answers attempt_target_def upt_rec sample_targets_def sample_info_list)
  ultimately show ?thesis by simp
qed

text \<open>C23. Whatever the brokers answer and wherever an address is missing, a send makes at most
  \<open>max_attempt_times\<close> calls, all to candidates, and then no call is under way: the callback has been
  told or will never be.\<close>

theorem send_terminates:
  assumes "run_send (nat mx) env pd sw (send0 env pd m qs mx) = (targets, outcome)" "qs \<noteq> []"
  shows "length targets \<le> nat mx \<and> set targets \<subseteq> mq_service_address ` set qs
    \<and> (\<forall>rt target md rq. outcome \<noteq> Some (Calling rt target md rq))"
  using run_send0_facts[OF assms(2), of mx env pd sw m] assms(1) by simp

theorem send_terminates_witness:
  "length (fst (run_send 3 sample_send_env sample_producer sample_send_world
     (send0 sample_send_env sample_producer sample_grouped sample_targets 3))) \<le> 3"
proof -
  obtain targets outcome where "run_send (nat 3) sample_send_env sample_producer sample_send_world
     (send0 sample_send_env sample_producer sample_grouped sample_targets 3) = (targets, outcome)" by fastforce
  from send_terminates[OF this sample_targets_facts(1)] this show ?thesis by simp
qed

text \<open>C24. All synchronous sends of one message group, with all their retries, go to one message queue as
  long as the publish information stays the same.\<close>

theorem group_goes_to_one_queue:
  assumes "getMessageQueueList info \<noteq> []" "g \<noteq> []"
  shows "\<exists>q\<in>set (getMessageQueueList info). \<forall>swq pd m i sw mx.
    isRunning pd \<and> msg_message_group m = g \<longrightarrow>
      send_queues env swq pd (Some i) (Success, Some info) m = (swq, Inr [q])
      \<and> set (fst (run_send (nat mx) env pd sw (send0 env pd m [q] mx))) \<subseteq> {mq_service_address q}"
proof (intro bexI[of _ "queue_of_group (se_hash env) g (getMessageQueueList info)"] allI impI conjI)
  show "queue_of_group (se_hash env) g (getMessageQueueList info) \<in> set (getMessageQueueList info)"
    using assms(1) by (simp add: queue_of_group_def)
next
  fix swq pd i sw mx and m :: MQMessage
  assume "isRunning pd \<and> msg_message_group m = g"
  then show "send_queues env swq pd (Some i) (Success, Some info) m
      = (swq, Inr [queue_of_group (se_hash env) g (getMessageQueueList info)])"
    using assms by (simp add: send_queues_def ensureRunning_def listMessageQueue_def)
  show "set (fst (run_send (nat mx) env pd sw (send0 env pd m
      [queue_of_group (se_hash env) g (getMessageQueueList info)] mx)))
      \<subseteq> {mq_service_address (queue_of_group (se_hash env) g (getMessageQueueList info))}"
    using run_send0_facts[of "[queue_of_group (se_hash env) g (getMessageQueueList info)]" mx env pd sw m] by simp
qed

theorem group_goes_to_one_queue_witness:
  "\<exists>q. send_queues sample_send_env 7 sample_producer (Some sample_info) (Success, Some sample_info) sample_grouped
     = (7, Inr [q])"
proof -
  have "getMessageQueueList sample_info \<noteq> []"
    by (simp add: getMessageQueueList_def sample_info_list sample_partition_def asMessageQueue_def
        Broker_serviceAddress_def address_def sample_broker_def make_ServiceAddress_def)
  from group_goes_to_one_queue[OF this, of "''orders''" sample_send_env] show ?thesis
    by (auto simp: isRunning_def sample_producer_def sample_grouped_def)
qed

text \<open>Asynchronous sends do not keep the messages of a group together: the closure copies the
  message without its group and queue, so two consecutive sends of one thread start at two
  different queues, whatever group the messages name.\<close>

theorem async_sends_scatter_group:
  assumes "ps = pi_partition_list info" "distinct (map asMessageQueue ps)" "2 \<le> length ps"
    and "\<forall>p\<in>set ps. Broker_serviceAddress (pt_broker p) \<notin> set (cl_isolated_endpoints pd)"
    and "unat c + 2 < 4294967296"
  shows "\<exists>q r q' r'. sendAsync_queues env c pd Success info (copy_MQMessage m) = Some (c + 1, Inr (q # r))
    \<and> sendAsync_queues env (c + 1) pd Success info (copy_MQMessage m') = Some (c + 2, Inr (q' # r')) \<and> q \<noteq> q'"
proof -
  have ne: "ps \<noteq> []" using assms(3) by auto
  obtain r r' where r: "takeMessageQueuesRoundRobin c pd info (pd_max_attempt_times pd)
      = (c + 1, asMessageQueue (ps ! (unat (c + 1) mod length ps)) # r)"
    "takeMessageQueuesRoundRobin (c + 1) pd info (pd_max_attempt_times pd)
      = (c + 1 + 1, asMessageQueue (ps ! (unat (c + 1 + 1) mod length ps)) # r')"
    using takeMessageQueuesRoundRobin_hd[OF assms(1) ne assms(4)] by blast
  have step: "unat (c + 1) = unat c + 1" "unat (c + 1 + 1) = unat c + 2"
    using assms(5) unat_u32_add[of c 1] unat_u32_add[of c 2] by (simp_all add: add.commute)
  let ?i = "(unat c + 1) mod length ps" and ?j = "(unat c + 2) mod length ps"
  have "?i \<noteq> ?j" using assms(3) mod_Suc[of "unat c + 1" "length ps"] by auto
  moreover have "?i < length ps" "?j < length ps" using ne by simp_all
  ultimately have "asMessageQueue (ps ! ?i) \<noteq> asMessageQueue (ps ! ?j)"
    using nth_eq_iff_index_eq[OF assms(2), of ?i ?j] by simp
  then have "asMessageQueue (ps ! (unat (c + 1) mod length ps)) \<noteq> asMessageQueue (ps ! (unat (c + 1 + 1) mod length ps))"
    by (simp only: step not_False_eq_True)
  then show ?thesis using r
    by (simp add: sendAsync_queues_def copy_MQMessage_def mq_bool_def make_MQMessageQueue_def add.assoc)
qed

theorem async_sends_scatter_group_witness:
  "\<exists>q r q' r'. sendAsync_queues sample_send_env 7 sample_producer Success sample_info (copy_MQMessage sample_grouped)
      = Some (8, Inr (q # r))
    \<and> sendAsync_queues sample_send_env 8 sample_producer Success sample_info (copy_MQMessage sample_grouped)
      = Some (9, Inr (q' # r')) \<and> q \<noteq> q'"
  using async_sends_scatter_group[OF refl, of sample_info sample_producer 7 sample_send_env sample_grouped sample_grouped]
  by (simp add: sample_info_list asMessageQueue_def sample_partition_def sample_broker_def sample_producer_def
      make_ProducerImpl_def make_ClientImpl_def make_MQMessageQueue_def ClientImpl.extend_def)

text \<open>Once a topic has publish information and no request for it is pending, that information never
  changes again, however often the route of the topic is refreshed.\<close>

theorem publish_info_never_refreshed:
  assumes "publish_steps w w'" "asyncPublishInfo_lookup (pw_producer w) topic = Some info" "topic \<notin> set (pw_asked w)"
  shows "asyncPublishInfo_lookup (pw_producer w') topic = Some info"
  using publish_frozen_steps[OF assms] by simp

theorem publish_info_never_refreshed_witness:
  "asyncPublishInfo_lookup (updateRouteCache sample_producer ''T'' Success (Some (sample_route
     \<lparr>rt_partitions := [sample_partition ''c'' 0 READ_WRITE]\<rparr>))) ''T'' = Some sample_info"
proof -
  let ?w = "\<lparr>pw_producer = sample_producer, pw_asked = []\<rparr>"
  have "publish_steps ?w (?w\<lparr>pw_producer := updateRouteCache (pw_producer ?w) ''T'' Success (Some (sample_route
     \<lparr>rt_partitions := [sample_partition ''c'' 0 READ_WRITE]\<rparr>))\<rparr>)"
    by (rule publish_more[OF publish_none publish_refresh])
  from publish_info_never_refreshed[OF this, of "''T''" sample_info] show ?thesis
    by (simp add: asyncPublishInfo_lookup_def sample_producer_def)
qed



text \<open>A producer without a provider of credentials crashes on its first send and when it ends a
  transaction: requests are signed only if there are credentials, but the trace span of a send takes the
  access key from the missing provider.\<close>

theorem send_without_credentials_crashes:
  assumes "access_key (cl_config pd) = None" "validate m" "qs \<noteq> []" "0 < n" "\<forall>q\<in>set qs. mq_service_address q \<noteq> []"
  shows "send0 env pd m qs n = Crashed \<and> tx_end hm dt (Some pd) resolution tx = None"
proof -
  have "mq_service_address (qs ! 0) \<noteq> []" using assms(3,5) by simp
  then show ?thesis using assms
    by (simp add: send0_def sendImpl.simps rt_messageQueue_def Let_def tx_end_def endTransaction0_def)
qed

theorem send_without_credentials_crashes_witness:
  "send0 sample_send_env (make_ProducerImpl (make_ClientConfig ''g'') ''c'') sample_grouped sample_targets 3 = Crashed"
  using send_without_credentials_crashes[of "make_ProducerImpl (make_ClientConfig ''g'') ''c''" sample_grouped sample_targets 3]
  by (simp add: sample_validate sample_targets_facts access_key_def make_ProducerImpl_def ClientImpl.extend_def
      make_ClientImpl_def make_ClientConfig_def)

end
