(* ===== verification/Waiting.thy ===== *)
theory Waiting
  imports Producer
begin

text \<open>
  How threads wait for a callback: \<open>AwaitSendCallback\<close> in \<open>rocketmq/SendCallbacks.cpp\<close>, and the
  local mutex and condition variable of \<open>getPublishInfo\<close>, \<open>listMessageQueue\<close> and
  \<open>endTransaction0\<close> in \<open>rocketmq/ProducerImpl.cpp\<close>; and \<open>CountdownLatch\<close>. A waiting thread and a
  callback run their statements in any interleaving over the data they share, a mutex and a
  condition variable; memory is sequentially consistent. \<open>Wait\<close> releases the mutex and blocks until
  it is signalled or wakes up spuriously, then takes the mutex again.
\<close>

section \<open>A waiting thread and a callback\<close>

datatype 's waiter_instr = WLock | WUnlock | WWait | WBranch "'s \<Rightarrow> bool" nat | WGoto nat | WRead

datatype 's callback_instr = CLock | CUnlock | CSignalAll | CDo "'s \<Rightarrow> 's"

datatype owner = Free | HeldByWaiter | HeldByCallback

datatype blocked = Runs | Waits | Woken

record 's machine =
  ma_data :: 's
  ma_owner :: owner
  ma_blocked :: blocked
  ma_waiter_pc :: nat
  ma_callback_pc :: nat
  ma_result :: "'s option"

definition machine_start :: "'s \<Rightarrow> 's machine" where
  "machine_start s = \<lparr>ma_data = s, ma_owner = Free, ma_blocked = Runs, ma_waiter_pc = 0, ma_callback_pc = 0,
     ma_result = None\<rparr>"

text \<open>One statement of the waiting thread; None if it is blocked or has returned. The statement
  \<open>WRead\<close> reads the result.\<close>

definition waiter_step :: "'s waiter_instr list \<Rightarrow> 's machine \<Rightarrow> 's machine option" where
  "waiter_step prog m =
     (if length prog \<le> ma_waiter_pc m then None
      else let pc = ma_waiter_pc m; m' = m\<lparr>ma_waiter_pc := pc + 1\<rparr>
      in case prog ! pc of
           WLock \<Rightarrow> if ma_owner m = Free then Some (m'\<lparr>ma_owner := HeldByWaiter\<rparr>) else None
         | WUnlock \<Rightarrow> Some (m'\<lparr>ma_owner := Free\<rparr>)
         | WWait \<Rightarrow> (case ma_blocked m of
               Runs \<Rightarrow> Some (m\<lparr>ma_blocked := Waits, ma_owner := Free\<rparr>)
             | Waits \<Rightarrow> None
             | Woken \<Rightarrow> if ma_owner m = Free then Some (m'\<lparr>ma_blocked := Runs, ma_owner := HeldByWaiter\<rparr>) else None)
         | WBranch c target \<Rightarrow> Some (if c (ma_data m) then m\<lparr>ma_waiter_pc := target\<rparr> else m')
         | WGoto target \<Rightarrow> Some (m\<lparr>ma_waiter_pc := target\<rparr>)
         | WRead \<Rightarrow> Some (m'\<lparr>ma_result := Some (ma_data m)\<rparr>))"

definition callback_step :: "'s callback_instr list \<Rightarrow> 's machine \<Rightarrow> 's machine option" where
  "callback_step prog m =
     (if length prog \<le> ma_callback_pc m then None
      else let pc = ma_callback_pc m; m' = m\<lparr>ma_callback_pc := pc + 1\<rparr>
      in case prog ! pc of
           CLock \<Rightarrow> if ma_owner m = Free then Some (m'\<lparr>ma_owner := HeldByCallback\<rparr>) else None
         | CUnlock \<Rightarrow> Some (m'\<lparr>ma_owner := Free\<rparr>)
         | CSignalAll \<Rightarrow> Some (if ma_blocked m = Waits then m'\<lparr>ma_blocked := Woken\<rparr> else m')
         | CDo f \<Rightarrow> Some (m'\<lparr>ma_data := f (ma_data m)\<rparr>))"

inductive machine_reach :: "'s waiter_instr list \<Rightarrow> 's callback_instr list \<Rightarrow> 's \<Rightarrow> 's machine \<Rightarrow> bool"
  for wp cp s where
  machine_begin: "machine_reach wp cp s (machine_start s)"
| machine_waiter: "machine_reach wp cp s m \<Longrightarrow> waiter_step wp m = Some m' \<Longrightarrow> machine_reach wp cp s m'"
| machine_callback: "machine_reach wp cp s m \<Longrightarrow> callback_step cp m = Some m' \<Longrightarrow> machine_reach wp cp s m'"
| machine_spurious: "machine_reach wp cp s m \<Longrightarrow> ma_blocked m = Waits \<Longrightarrow>
     machine_reach wp cp s (m\<lparr>ma_blocked := Woken\<rparr>)"

text \<open>No thread can go on; only a spurious wake-up would help.\<close>

definition stuck :: "'s waiter_instr list \<Rightarrow> 's callback_instr list \<Rightarrow> 's machine \<Rightarrow> bool" where
  "stuck wp cp m \<longleftrightarrow> waiter_step wp m = None \<and> callback_step cp m = None"

text \<open>The run of a schedule: True lets the waiting thread make a step, False the callback.\<close>

fun machine_run ::
  "'s waiter_instr list \<Rightarrow> 's callback_instr list \<Rightarrow> bool list \<Rightarrow> 's machine \<Rightarrow> 's machine option" where
  "machine_run wp cp [] m = Some m"
| "machine_run wp cp (b # bs) m =
     (case (if b then waiter_step wp m else callback_step cp m) of
        None \<Rightarrow> None
      | Some m' \<Rightarrow> machine_run wp cp bs m')"

section \<open>The code that waits\<close>

definition await_program :: "AwaitSendCallback waiter_instr list" where
  "await_program = [WLock, WBranch aw_completed 4, WWait, WGoto 1, WUnlock, WRead]"

definition onSuccess_program :: "SendResult \<Rightarrow> AwaitSendCallback callback_instr list" where
  "onSuccess_program r =
     [CDo (\<lambda>aw. aw\<lparr>aw_send_result := assign_SendResult (aw_send_result aw) r\<rparr>),
      CDo (\<lambda>aw. aw\<lparr>aw_completed := True\<rparr>), CLock, CSignalAll, CUnlock]"

definition onFailure_program :: "ErrorCode \<Rightarrow> AwaitSendCallback callback_instr list" where
  "onFailure_program ec =
     [CDo (\<lambda>aw. aw\<lparr>aw_completed := True\<rparr>), CDo (\<lambda>aw. aw\<lparr>aw_ec := ec\<rparr>), CLock, CSignalAll, CUnlock]"

text \<open>The locals of \<open>getPublishInfo\<close>; those of \<open>listMessageQueue\<close> are the same.\<close>

record publish_locals =
  pl_complete :: bool
  pl_answer :: "ErrorCode \<times> TopicPublishInfo option"

definition getPublishInfo_program :: "publish_locals waiter_instr list" where
  "getPublishInfo_program = [WBranch pl_complete 5, WLock, WWait, WUnlock, WGoto 0, WRead]"

definition getPublishInfo_callback :: "ErrorCode \<Rightarrow> TopicPublishInfo option \<Rightarrow> publish_locals callback_instr list" where
  "getPublishInfo_callback ec ptr =
     [CLock, CDo (\<lambda>l. l\<lparr>pl_answer := (ec, ptr)\<rparr>), CDo (\<lambda>l. l\<lparr>pl_complete := True\<rparr>), CSignalAll, CUnlock]"

text \<open>The locals of \<open>endTransaction0\<close>.\<close>

record transaction_locals =
  tl_completed :: bool
  tl_success :: bool

definition endTransaction0_program :: "transaction_locals waiter_instr list" where
  "endTransaction0_program = [WLock, WWait, WUnlock, WRead]"

definition endTransaction0_callback :: "ErrorCode \<Rightarrow> transaction_locals callback_instr list" where
  "endTransaction0_callback ec =
     [CDo (\<lambda>l. l\<lparr>tl_completed := True\<rparr>), CDo (\<lambda>l. l\<lparr>tl_success := \<not> failed ec\<rparr>), CLock, CSignalAll, CUnlock]"

text \<open>\<open>PushConsumerImpl::fetchRoutes\<close>, which the start of a push consumer calls, and the callback of the
  last topic.\<close>

record fetch_locals =
  fl_countdown :: nat
  fl_acquired :: i32

definition fetchRoutes_program :: "fetch_locals waiter_instr list" where
  "fetchRoutes_program = [WBranch (\<lambda>l. fl_countdown l = 0) 5, WLock, WWait, WUnlock, WGoto 0, WRead]"

definition fetchRoutes_callback :: "ErrorCode \<Rightarrow> fetch_locals callback_instr list" where
  "fetchRoutes_callback ec =
     [CLock, CDo (\<lambda>l. l\<lparr>fl_countdown := fl_countdown l - 1\<rparr>), CSignalAll,
      CDo (\<lambda>l. if failed ec then l else l\<lparr>fl_acquired := fl_acquired l + 1\<rparr>), CUnlock]"

text \<open>\<open>OtlpExporterHandler::start\<close> waits for its polling thread, which signals when it begins; the flag
  is a ghost that records that the thread runs.\<close>

record handler_locals =
  hl_polling :: bool

definition handler_start_program :: "handler_locals waiter_instr list" where
  "handler_start_program = [WLock, WWait, WUnlock, WRead]"

definition handler_poll_program :: "handler_locals callback_instr list" where
  "handler_poll_program = [CDo (\<lambda>l. l\<lparr>hl_polling := True\<rparr>), CLock, CSignalAll, CUnlock]"

section \<open>The latch\<close>

record CountdownLatch =
  cd_count :: i32

text \<open>Whether \<open>await\<close> returns, and whether \<open>countdown\<close> signals the threads that wait.\<close>

definition latch_open :: "CountdownLatch \<Rightarrow> bool" where
  "latch_open l = (cd_count l \<le> 0)"

definition countdown :: "CountdownLatch \<Rightarrow> CountdownLatch \<times> bool" where
  "countdown l = (let l' = l\<lparr>cd_count := cd_count l - 1\<rparr> in (l', cd_count l' \<le> 0))"

definition increaseCount :: "CountdownLatch \<Rightarrow> CountdownLatch" where
  "increaseCount l = l\<lparr>cd_count := cd_count l + 1\<rparr>"

section \<open>Lemmas\<close>

lemmas program_defs = await_program_def onSuccess_program_def onFailure_program_def
  getPublishInfo_program_def getPublishInfo_callback_def endTransaction0_program_def endTransaction0_callback_def
  handler_start_program_def handler_poll_program_def fetchRoutes_program_def fetchRoutes_callback_def

text \<open>The countdown that opens the latch signals, so no thread keeps waiting on an open latch.\<close>

lemma countdown_signals: "countdown l = (l', s) \<Longrightarrow> s \<longleftrightarrow> latch_open l'"
  by (auto simp: countdown_def latch_open_def Let_def)

subsection \<open>Awaiting a success\<close>

definition awaiting_data :: "SendResult \<Rightarrow> nat \<Rightarrow> AwaitSendCallback" where
  "awaiting_data r pc = \<lparr>aw_completed = (2 \<le> pc),
     aw_send_result = (if 1 \<le> pc then assign_SendResult default_SendResult r else default_SendResult),
     aw_ec = Success\<rparr>"

text \<open>Program counters, state of the waiting thread and owner of the mutex, as they occur.\<close>

definition awaiting_controls :: "(nat \<times> nat \<times> blocked \<times> owner) list" where
  "awaiting_controls =
     [(0, 0, Runs, Free), (0, 1, Runs, Free), (0, 2, Runs, Free), (0, 3, Runs, HeldByCallback),
      (0, 4, Runs, HeldByCallback), (0, 5, Runs, Free),
      (1, 0, Runs, HeldByWaiter), (1, 1, Runs, HeldByWaiter), (1, 2, Runs, HeldByWaiter), (1, 5, Runs, HeldByWaiter),
      (2, 0, Runs, HeldByWaiter), (2, 1, Runs, HeldByWaiter), (2, 2, Runs, HeldByWaiter),
      (2, 0, Waits, Free), (2, 1, Waits, Free), (2, 2, Waits, Free), (2, 3, Waits, HeldByCallback),
      (2, 0, Woken, Free), (2, 1, Woken, Free), (2, 2, Woken, Free), (2, 3, Woken, HeldByCallback),
      (2, 4, Woken, HeldByCallback), (2, 5, Woken, Free),
      (3, 0, Runs, HeldByWaiter), (3, 1, Runs, HeldByWaiter), (3, 2, Runs, HeldByWaiter), (3, 5, Runs, HeldByWaiter),
      (4, 2, Runs, HeldByWaiter), (4, 5, Runs, HeldByWaiter),
      (5, 2, Runs, Free), (5, 3, Runs, HeldByCallback), (5, 4, Runs, HeldByCallback), (5, 5, Runs, Free),
      (6, 2, Runs, Free), (6, 3, Runs, HeldByCallback), (6, 4, Runs, HeldByCallback), (6, 5, Runs, Free)]"

definition awaiting_ok :: "SendResult \<Rightarrow> AwaitSendCallback machine \<Rightarrow> bool" where
  "awaiting_ok r m \<longleftrightarrow>
     (ma_waiter_pc m, ma_callback_pc m, ma_blocked m, ma_owner m) \<in> set awaiting_controls
     \<and> ma_data m = awaiting_data r (ma_callback_pc m)
     \<and> ma_result m = (if ma_waiter_pc m = 6 then Some (awaiting_data r 2) else None)"

lemmas awaiting_cases = awaiting_ok_def[THEN iffD1, unfolded awaiting_controls_def list.set insert_iff prod.inject empty_iff]

lemma awaiting_ok_waiter:
  assumes "awaiting_ok r m"
  shows "case waiter_step await_program m of None \<Rightarrow> True | Some m' \<Rightarrow> awaiting_ok r m'"
  using awaiting_cases[OF assms]
  by (elim conjE disjE FalseE)
    (simp_all add: awaiting_ok_def awaiting_controls_def waiter_step_def await_program_def awaiting_data_def)

lemma awaiting_ok_callback:
  assumes "awaiting_ok r m"
  shows "case callback_step (onSuccess_program r) m of None \<Rightarrow> True | Some m' \<Rightarrow> awaiting_ok r m'"
  using awaiting_cases[OF assms]
  by (elim conjE disjE FalseE)
    (simp_all add: awaiting_ok_def awaiting_controls_def callback_step_def onSuccess_program_def awaiting_data_def)

lemma awaiting_ok_reach:
  "machine_reach await_program (onSuccess_program r) make_AwaitSendCallback m \<Longrightarrow> awaiting_ok r m"
proof (induction rule: machine_reach.induct)
  case machine_begin
  then show ?case
    by (simp add: awaiting_ok_def awaiting_controls_def machine_start_def awaiting_data_def make_AwaitSendCallback_def)
next
  case (machine_spurious m)
  then show ?case by (auto simp: awaiting_ok_def awaiting_controls_def)
next
  case (machine_waiter m m')
  then show ?case using awaiting_ok_waiter[of r m] by simp
next
  case (machine_callback m m')
  then show ?case using awaiting_ok_callback[of r m] by simp
qed

subsection \<open>Schedules\<close>

lemma machine_run_reach:
  "machine_run wp cp bs m = Some m' \<Longrightarrow> machine_reach wp cp s m \<Longrightarrow> machine_reach wp cp s m'"
  by (induction bs arbitrary: m)
    (auto split: option.splits if_splits intro: machine_waiter machine_callback)

lemma machine_run_start:
  "machine_run wp cp bs (machine_start s) = Some m \<Longrightarrow> machine_reach wp cp s m"
  by (rule machine_run_reach[OF _ machine_begin])

text \<open>The callback runs to its end between the test of the waiting thread and its \<open>Wait\<close>.\<close>

lemma getPublishInfo_schedule:
  "machine_run getPublishInfo_program (getPublishInfo_callback ec ptr)
     [True, False, False, False, False, False, True, True] (machine_start \<lparr>pl_complete = False, pl_answer = a\<rparr>)
   = Some \<lparr>ma_data = \<lparr>pl_complete = True, pl_answer = (ec, ptr)\<rparr>, ma_owner = Free, ma_blocked = Waits,
       ma_waiter_pc = 2, ma_callback_pc = 5, ma_result = None\<rparr>"
  by (simp add: program_defs machine_start_def waiter_step_def callback_step_def)

lemma endTransaction0_schedule:
  "machine_run endTransaction0_program (endTransaction0_callback ec)
     [False, False, False, False, False, True, True] (machine_start \<lparr>tl_completed = False, tl_success = False\<rparr>)
   = Some \<lparr>ma_data = \<lparr>tl_completed = True, tl_success = (ec = Success)\<rparr>, ma_owner = Free, ma_blocked = Waits,
       ma_waiter_pc = 1, ma_callback_pc = 5, ma_result = None\<rparr>"
  by (simp add: program_defs machine_start_def waiter_step_def callback_step_def)

lemma fetchRoutes_schedule:
  "machine_run fetchRoutes_program (fetchRoutes_callback ec) [True, False, False, False, False, False, True, True]
     (machine_start \<lparr>fl_countdown = 1, fl_acquired = n\<rparr>)
   = Some \<lparr>ma_data = \<lparr>fl_countdown = 0, fl_acquired = (if failed ec then n else n + 1)\<rparr>, ma_owner = Free, ma_blocked = Waits,
       ma_waiter_pc = 2, ma_callback_pc = 5, ma_result = None\<rparr>"
  by (simp add: program_defs machine_start_def waiter_step_def callback_step_def)

lemma handler_schedule:
  "machine_run handler_start_program handler_poll_program [False, False, False, False, True, True]
     (machine_start \<lparr>hl_polling = False\<rparr>)
   = Some \<lparr>ma_data = \<lparr>hl_polling = True\<rparr>, ma_owner = Free, ma_blocked = Waits, ma_waiter_pc = 1, ma_callback_pc = 4,
       ma_result = None\<rparr>"
  by (simp add: program_defs machine_start_def waiter_step_def callback_step_def)

lemma onFailure_schedule:
  "machine_run await_program (onFailure_program ec) [False, True, True, True, True] (machine_start make_AwaitSendCallback)
   = Some \<lparr>ma_data = make_AwaitSendCallback\<lparr>aw_completed := True\<rparr>, ma_owner = Free, ma_blocked = Runs,
       ma_waiter_pc = 6, ma_callback_pc = 1, ma_result = Some (make_AwaitSendCallback\<lparr>aw_completed := True\<rparr>)\<rparr>"
  by (simp add: program_defs machine_start_def waiter_step_def callback_step_def make_AwaitSendCallback_def)

section \<open>Properties\<close>



text \<open>A failed send can be reported as a success: the callback marks itself completed before it
  stores the error, so the awaiting thread may return in between, with an empty result and no error,
  while the callback is still going to use the object.\<close>

theorem await_failure_reported_as_success:
  "\<exists>m s. machine_reach await_program (onFailure_program ec) make_AwaitSendCallback m
     \<and> ma_result m = Some s \<and> await_result s = Inr default_SendResult
     \<and> callback_step (onFailure_program ec) m \<noteq> None"
proof -
  let ?s = "make_AwaitSendCallback\<lparr>aw_completed := True\<rparr>"
  let ?m = "\<lparr>ma_data = ?s, ma_owner = Free, ma_blocked = Runs, ma_waiter_pc = 6, ma_callback_pc = 1, ma_result = Some ?s\<rparr>"
  have "machine_reach await_program (onFailure_program ec) make_AwaitSendCallback ?m"
    by (rule machine_run_start[OF onFailure_schedule])
  moreover have "await_result ?s = Inr default_SendResult"
    by (simp add: await_result_def make_AwaitSendCallback_def)
  moreover have "ma_result ?m = Some ?s" "callback_step (onFailure_program ec) ?m \<noteq> None"
    by (simp_all add: callback_step_def onFailure_program_def)
  ultimately show ?thesis by blast
qed

text \<open>C38. Four blocking calls can lose their wake-up: \<open>getPublishInfo\<close> and \<open>fetchRoutes\<close>, which the start of
  a push consumer calls, test their flag without the mutex, and \<open>endTransaction0\<close> and the start of the
  span exporter test nothing; each can be stuck although the other thread has run to its end.\<close>

theorem blocking_calls_lose_wakeup:
  "(\<exists>m. machine_reach getPublishInfo_program (getPublishInfo_callback ec ptr) \<lparr>pl_complete = False, pl_answer = a\<rparr> m
      \<and> pl_complete (ma_data m) \<and> stuck getPublishInfo_program (getPublishInfo_callback ec ptr) m \<and> ma_result m = None)
   \<and> (\<exists>m. machine_reach fetchRoutes_program (fetchRoutes_callback ec) \<lparr>fl_countdown = 1, fl_acquired = n\<rparr> m
      \<and> fl_countdown (ma_data m) = 0 \<and> stuck fetchRoutes_program (fetchRoutes_callback ec) m \<and> ma_result m = None)
   \<and> (\<exists>m. machine_reach endTransaction0_program (endTransaction0_callback ec) \<lparr>tl_completed = False, tl_success = False\<rparr> m
      \<and> tl_completed (ma_data m) \<and> stuck endTransaction0_program (endTransaction0_callback ec) m \<and> ma_result m = None)
   \<and> (\<exists>m. machine_reach handler_start_program handler_poll_program \<lparr>hl_polling = False\<rparr> m
      \<and> hl_polling (ma_data m) \<and> stuck handler_start_program handler_poll_program m \<and> ma_result m = None)"
  by (intro conjI exI, rule machine_run_start[OF getPublishInfo_schedule], simp,
      simp add: stuck_def waiter_step_def callback_step_def program_defs, simp,
      rule machine_run_start[OF fetchRoutes_schedule], simp,
      simp add: stuck_def waiter_step_def callback_step_def program_defs, simp,
      rule machine_run_start[OF endTransaction0_schedule], simp,
      simp add: stuck_def waiter_step_def callback_step_def program_defs, simp,
      rule machine_run_start[OF handler_schedule], simp,
      simp add: stuck_def waiter_step_def callback_step_def program_defs, simp)

end
