(* ===== verification/Pull_Consumer.thy ===== *)
theory Pull_Consumer
  imports Push_Consumer Waiting
begin

text \<open>
  The consumer that the application drives itself (\<open>rocketmq/PullConsumerImpl.cpp\<close>), and the
  callback that makes a pull block (\<open>rocketmq/AwaitPullCallback.cpp\<close>). Durations and times of a
  query are in nanoseconds. The broker's answer is an argument.
\<close>

section \<open>State and life cycle\<close>

datatype queues_outcome = Queues "MQMessageQueue list" | QueuesFailed ErrorCode

record PullConsumerImpl = "string ClientImpl" +
  pu_message_model :: MessageModel

definition make_PullConsumerImpl :: "ClientConfig \<Rightarrow> string \<Rightarrow> PullConsumerImpl" where
  "make_PullConsumerImpl config client_id =
     ClientImpl.extend (make_ClientImpl config client_id) \<lparr>pu_message_model = CLUSTERING\<rparr>"

definition pull_start ::
  "u32 \<Rightarrow> PullConsumerImpl \<Rightarrow> (PullConsumerImpl \<times> push_action list) option" where
  "pull_start handle pu = map_option (\<lambda>(pu1, acts).
     (pu1, map ClientAction acts @ (if STARTED \<noteq> cl_state pu1 then [] else [AddClientObserver]))) (client_start handle pu)"

definition pull_shutdown :: "PullConsumerImpl \<Rightarrow> (PullConsumerImpl \<times> client_action list) option" where
  "pull_shutdown pu = map_option (\<lambda>(pu1, acts).
     (pu1\<lparr>cl_state := fst (compare_exchange (cl_state pu1) STOPPING STOPPED)\<rparr>, acts)) (client_shutdown pu)"

section \<open>Queues of a topic\<close>

definition route_queues :: "TopicRouteData \<Rightarrow> MQMessageQueue list" where
  "route_queues route = map asMessageQueue (rt_partitions route)"

text \<open>What the promise is set to at once, if the route is cached \<dots>\<close>

definition queuesFor :: "PullConsumerImpl \<Rightarrow> string \<Rightarrow> queues_outcome option" where
  "queuesFor pu topic = map_option (Queues \<circ> route_queues) (hm_find id (cl_topic_route_table pu) topic)"

text \<open>\<dots> and otherwise by the callback handed to \<open>getRouteFor\<close>; None: a null route is dereferenced.\<close>

definition queuesFor_callback :: "ErrorCode \<Rightarrow> TopicRouteData option \<Rightarrow> queues_outcome option" where
  "queuesFor_callback ec route =
     (if failed ec then Some (QueuesFailed ec) else map_option (Queues \<circ> route_queues) route)"

section \<open>Offsets\<close>

datatype QueryOffsetPolicy = BEGINNING | END | TIME_POINT

record OffsetQuery =
  oq_message_queue :: MQMessageQueue
  oq_policy :: QueryOffsetPolicy
  oq_time_point :: time_point

text \<open>\<open>ToInt64Seconds\<close> rounds towards zero; the rest goes to the nanoseconds.\<close>

definition to_seconds :: "duration \<Rightarrow> i64" where
  "to_seconds d = (if d < 0 then - (- d div 1000000000) else d div 1000000000)"

definition seconds_nanos :: "duration \<Rightarrow> i64 \<times> i64" where
  "seconds_nanos d = (to_seconds d, d - to_seconds d * 1000000000)"

record OffsetRequest =
  of_policy :: QueryOffsetPolicy
  of_time_point :: "(i64 \<times> i64) option"
  of_partition_topic :: Resource
  of_partition_id :: i32

definition queryOffset_request :: "PullConsumerImpl \<Rightarrow> OffsetQuery \<Rightarrow> OffsetRequest" where
  "queryOffset_request pu query =
     \<lparr>of_policy = oq_policy query,
      of_time_point = (case oq_policy query of TIME_POINT \<Rightarrow> Some (seconds_nanos (oq_time_point query)) | _ \<Rightarrow> None),
      of_partition_topic = \<lparr>rs_namespace = cc_resource_namespace (cl_config pu), rs_name = mq_topic (oq_message_queue query)\<rparr>,
      of_partition_id = mq_queue_id (oq_message_queue query)\<rparr>"

definition queryOffset :: "environment \<Rightarrow> PullConsumerImpl \<Rightarrow> OffsetQuery \<Rightarrow> string \<times> metadata \<times> OffsetRequest \<times> duration" where
  "queryOffset env pu query =
     (mq_service_address (oq_message_queue query), sign (ev_hmac env) (ev_date env) (cl_config pu) [],
      queryOffset_request pu query, cc_io_timeout (cl_config pu))"

text \<open>What the promise is set to when the client manager answers.\<close>

definition queryOffset_callback :: "bool \<Rightarrow> Code option \<Rightarrow> i64 \<Rightarrow> ErrorCode + i64" where
  "queryOffset_callback status_ok code offset =
     (let ec = queryOffset_error status_ok code in if failed ec then Inl ec else Inr offset)"

section \<open>Pulling\<close>

record PullMessageQuery =
  pm_message_queue :: MQMessageQueue
  pm_offset :: i64
  pm_batch_size :: i32
  pm_await_time :: duration
  pm_timeout :: duration

record PullConsumerRequest =
  pk_offset :: i64
  pk_await_time :: "i64 \<times> i64"
  pk_group :: Resource
  pk_partition_topic :: Resource
  pk_partition_id :: i32
  pk_client_id :: string

text \<open>The batch size and the timeout of the query do not reach the request.\<close>

definition pull_request :: "PullConsumerImpl \<Rightarrow> PullMessageQuery \<Rightarrow> PullConsumerRequest" where
  "pull_request pu query =
     \<lparr>pk_offset = pm_offset query, pk_await_time = seconds_nanos (pm_await_time query),
      pk_group = \<lparr>rs_namespace = cc_resource_namespace (cl_config pu), rs_name = cc_group_name (cl_config pu)\<rparr>,
      pk_partition_topic = \<lparr>rs_namespace = cc_resource_namespace (cl_config pu), rs_name = mq_topic (pm_message_queue query)\<rparr>,
      pk_partition_id = mq_queue_id (pm_message_queue query),
      pk_client_id = cl_client_id pu\<rparr>"

text \<open>None: the queue has no service address, which is asserted.\<close>

definition pull ::
  "environment \<Rightarrow> PullConsumerImpl \<Rightarrow> PullMessageQuery \<Rightarrow> (string \<times> metadata \<times> PullConsumerRequest \<times> duration) option" where
  "pull env pu query =
     (let target_host = mq_service_address (pm_message_queue query)
      in if target_host = [] then None
         else Some (target_host, sign (ev_hmac env) (ev_date env) (cl_config pu) [], pull_request pu query,
                cc_long_polling_timeout (cl_config pu)))"

record PullResponse = PullMessageResponse +
  pv_min_offset :: i64
  pv_max_offset :: i64

record PullResult =
  pt_min :: i64
  pt_max :: i64
  pt_next :: i64
  pt_messages :: "MQMessageExt list"

fun wrap_messages ::
  "codec \<Rightarrow> string \<Rightarrow> time_point \<Rightarrow> MQMessageExt \<Rightarrow> rmq_Message list \<Rightarrow> MQMessageExt list option" where
  "wrap_messages cd ns now blank [] = Some []"
| "wrap_messages cd ns now blank (item # items) = (case wrapMessage cd ns now item blank of
       None \<Rightarrow> None
     | Some (None, _) \<Rightarrow> wrap_messages cd ns now blank items
     | Some (Some m, _) \<Rightarrow> map_option (\<lambda>ms. m # ms) (wrap_messages cd ns now blank items))"

text \<open>What the user's callback is called with; None: decoding a message fails an assertion.\<close>

definition pull_completion ::
  "codec \<Rightarrow> string \<Rightarrow> time_point \<Rightarrow> MQMessageExt \<Rightarrow> bool \<Rightarrow> PullResponse \<Rightarrow> (ErrorCode + PullResult) option" where
  "pull_completion cd ns now blank status_ok response =
     (if \<not> status_ok then Some (Inl RequestTimeout)
      else case pv_code response of
        Some Code_OK \<Rightarrow> map_option (\<lambda>ms. Inr \<lparr>pt_min = pv_min_offset response, pt_max = pv_max_offset response,
            pt_next = pv_next_offset response, pt_messages = ms\<rparr>) (wrap_messages cd ns now blank (pv_messages response))
      | Some Code_PERMISSION_DENIED \<Rightarrow> Some (Inl Forbidden)
      | Some Code_UNAUTHENTICATED \<Rightarrow> Some (Inl Unauthorized)
      | Some Code_DEADLINE_EXCEEDED \<Rightarrow> Some (Inl GatewayTimeout)
      | Some Code_INVALID_ARGUMENT \<Rightarrow> Some (Inl BadRequest)
      | Some Code_INTERNAL \<Rightarrow> Some (Inl InternalServerError)
      | _ \<Rightarrow> Some (Inl NotImplemented))"

definition pull_prepareHeartbeatData :: "PullConsumerImpl \<Rightarrow> ConsumerHeartbeat" where
  "pull_prepareHeartbeatData pu =
     \<lparr>hb_client_id = cl_client_id pu, hb_fifo_flag = False,
      hb_group = \<lparr>rs_namespace = cc_resource_namespace (cl_config pu), rs_name = cc_group_name (cl_config pu)\<rparr>,
      hb_consume_model = pu_message_model pu, hb_subscriptions = []\<rparr>"

section \<open>The blocking pull\<close>

record AwaitPullCallback =
  ap_completed :: bool
  ap_ec :: ErrorCode
  ap_pull_result :: PullResult

definition make_AwaitPullCallback :: "PullResult \<Rightarrow> AwaitPullCallback" where
  "make_AwaitPullCallback pull_result = \<lparr>ap_completed = False, ap_ec = Success, ap_pull_result = pull_result\<rparr>"

definition pull_onSuccess :: "PullResult \<Rightarrow> AwaitPullCallback callback_instr list" where
  "pull_onSuccess r = [CLock, CDo (\<lambda>a. a\<lparr>ap_completed := True\<rparr>), CDo (\<lambda>a. a\<lparr>ap_pull_result := r\<rparr>), CSignalAll, CUnlock]"

definition pull_onFailure :: "ErrorCode \<Rightarrow> AwaitPullCallback callback_instr list" where
  "pull_onFailure ec = [CLock, CDo (\<lambda>a. a\<lparr>ap_completed := True\<rparr>), CDo (\<lambda>a. a\<lparr>ap_ec := ec\<rparr>), CSignalAll, CUnlock]"

definition pull_callback :: "ErrorCode + PullResult \<Rightarrow> AwaitPullCallback callback_instr list" where
  "pull_callback outcome = (case outcome of Inl ec \<Rightarrow> pull_onFailure ec | Inr r \<Rightarrow> pull_onSuccess r)"

definition pull_await :: "AwaitPullCallback waiter_instr list" where
  "pull_await = [WLock, WBranch ap_completed 4, WWait, WGoto 1, WRead, WUnlock]"

text \<open>What the blocking \<open>pull\<close> of the facade returns, with the result it filled in.\<close>

definition pull_returned :: "AwaitPullCallback \<Rightarrow> bool \<times> PullResult" where
  "pull_returned a = (\<not> failed (ap_ec a), ap_pull_result a)"

section \<open>Lemmas: awaiting a pull\<close>

definition settle :: "ErrorCode + PullResult \<Rightarrow> AwaitPullCallback \<Rightarrow> AwaitPullCallback" where
  "settle outcome a = (case outcome of Inl ec \<Rightarrow> a\<lparr>ap_ec := ec\<rparr> | Inr r \<Rightarrow> a\<lparr>ap_pull_result := r\<rparr>)"

lemma pull_callback_eq:
  "pull_callback outcome = [CLock, CDo (\<lambda>a. a\<lparr>ap_completed := True\<rparr>), CDo (settle outcome), CSignalAll, CUnlock]"
  by (cases outcome) (simp_all add: pull_callback_def pull_onSuccess_def pull_onFailure_def settle_def[abs_def])

lemma settle_completed [simp]: "ap_completed (settle outcome a) = ap_completed a"
  by (cases outcome) (simp_all add: settle_def)

definition pulling_data :: "ErrorCode + PullResult \<Rightarrow> PullResult \<Rightarrow> nat \<Rightarrow> AwaitPullCallback" where
  "pulling_data outcome r0 pc =
     (if pc \<le> 1 then make_AwaitPullCallback r0
      else if pc = 2 then (make_AwaitPullCallback r0)\<lparr>ap_completed := True\<rparr>
      else settle outcome ((make_AwaitPullCallback r0)\<lparr>ap_completed := True\<rparr>))"

definition pulling_controls :: "(nat \<times> nat \<times> blocked \<times> owner) list" where
  "pulling_controls =
     [(0, 0, Runs, Free), (1, 0, Runs, HeldByWaiter), (2, 0, Runs, HeldByWaiter), (2, 0, Waits, Free), (2, 0, Woken, Free),
      (3, 0, Runs, HeldByWaiter),
      (0, 1, Runs, HeldByCallback), (0, 2, Runs, HeldByCallback), (0, 3, Runs, HeldByCallback), (0, 4, Runs, HeldByCallback),
      (2, 1, Waits, HeldByCallback), (2, 2, Waits, HeldByCallback), (2, 3, Waits, HeldByCallback),
      (2, 1, Woken, HeldByCallback), (2, 2, Woken, HeldByCallback), (2, 3, Woken, HeldByCallback), (2, 4, Woken, HeldByCallback),
      (0, 5, Runs, Free), (1, 5, Runs, HeldByWaiter), (2, 5, Woken, Free), (3, 5, Runs, HeldByWaiter),
      (4, 5, Runs, HeldByWaiter), (5, 5, Runs, HeldByWaiter), (6, 5, Runs, Free)]"

definition pulling_ok :: "ErrorCode + PullResult \<Rightarrow> PullResult \<Rightarrow> AwaitPullCallback machine \<Rightarrow> bool" where
  "pulling_ok outcome r0 m \<longleftrightarrow>
     (ma_waiter_pc m, ma_callback_pc m, ma_blocked m, ma_owner m) \<in> set pulling_controls
     \<and> ma_data m = pulling_data outcome r0 (ma_callback_pc m)
     \<and> ma_result m = (if 5 \<le> ma_waiter_pc m then Some (pulling_data outcome r0 5) else None)"

lemmas pulling_cases = pulling_ok_def[THEN iffD1, unfolded pulling_controls_def list.set insert_iff prod.inject empty_iff]

lemma pulling_ok_waiter:
  assumes "pulling_ok outcome r0 m"
  shows "case waiter_step pull_await m of None \<Rightarrow> True | Some m' \<Rightarrow> pulling_ok outcome r0 m'"
  using pulling_cases[OF assms]
  by (elim conjE disjE FalseE)
    (simp_all add: pulling_ok_def pulling_controls_def waiter_step_def pull_await_def pulling_data_def make_AwaitPullCallback_def)

lemma pulling_ok_callback:
  assumes "pulling_ok outcome r0 m"
  shows "case callback_step (pull_callback outcome) m of None \<Rightarrow> True | Some m' \<Rightarrow> pulling_ok outcome r0 m'"
  using pulling_cases[OF assms]
  by (elim conjE disjE FalseE)
    (simp_all add: pulling_ok_def pulling_controls_def callback_step_def pull_callback_eq pulling_data_def)

lemma pulling_ok_reach:
  "machine_reach pull_await (pull_callback outcome) (make_AwaitPullCallback r0) m \<Longrightarrow> pulling_ok outcome r0 m"
proof (induction rule: machine_reach.induct)
  case machine_begin
  then show ?case by (simp add: pulling_ok_def pulling_controls_def machine_start_def pulling_data_def)
next
  case (machine_spurious m)
  then show ?case by (auto simp: pulling_ok_def pulling_controls_def)
next
  case (machine_waiter m m')
  then show ?case using pulling_ok_waiter[of outcome r0 m] by simp
next
  case (machine_callback m m')
  then show ?case using pulling_ok_callback[of outcome r0 m] by simp
qed

section \<open>Lemmas: durations and errors\<close>

text \<open>The two parts of a duration of a request add up to it, and the nanoseconds are less than a second.\<close>

lemma seconds_nanos_exact:
  "seconds_nanos d = (s, n) \<Longrightarrow> s * 1000000000 + n = d \<and> \<bar>n\<bar> < 1000000000 \<and> (0 \<le> d \<longrightarrow> 0 \<le> n)"
  by (auto simp: seconds_nanos_def to_seconds_def minus_mod_eq_mult_div[symmetric] split: if_splits)

lemma pull_completion_Inl:
  assumes "pull_completion cd ns now blank status_ok response = Some outcome"
  shows "(case outcome of Inl ec \<Rightarrow> failed ec \<and> \<not> (status_ok \<and> pv_code response = Some Code_OK)
    | Inr r \<Rightarrow> status_ok \<and> pv_code response = Some Code_OK \<and> pt_next r = pv_next_offset response)"
  using assms by (auto simp: pull_completion_def split: if_splits option.splits Code.splits)

section \<open>Properties\<close>

text \<open>C27. The blocking pull always returns, in every interleaving with the callback and with spurious
  wake-ups, and reports exactly the outcome of the call: True with the answer of the broker if the call
  succeeded, and False if it failed.\<close>

theorem blocking_pull_exact:
  assumes "pull_completion cd ns now blank status_ok response = Some outcome"
    and "machine_reach pull_await (pull_callback outcome) (make_AwaitPullCallback r0) m"
  shows "(stuck pull_await (pull_callback outcome) m \<longrightarrow> ma_result m \<noteq> None)
    \<and> (\<forall>a. ma_result m = Some a \<longrightarrow>
         fst (pull_returned a) = (status_ok \<and> pv_code response = Some Code_OK)
         \<and> snd (pull_returned a) = (case outcome of Inl ec \<Rightarrow> r0 | Inr r \<Rightarrow> r))"
proof -
  have ok: "pulling_ok outcome r0 m" using assms(2) by (rule pulling_ok_reach)
  have "stuck pull_await (pull_callback outcome) m \<longrightarrow> ma_result m \<noteq> None"
    using pulling_cases[OF ok]
    by (elim conjE disjE FalseE)
      (simp_all add: stuck_def waiter_step_def callback_step_def pull_await_def pull_callback_eq pulling_data_def)
  moreover have "a = pulling_data outcome r0 5" if "ma_result m = Some a" for a
    using that ok by (auto simp: pulling_ok_def split: if_splits)
  ultimately show ?thesis using pull_completion_Inl[OF assms(1)]
    by (auto simp: pulling_data_def pull_returned_def settle_def make_AwaitPullCallback_def split: sum.splits)
qed

theorem blocking_pull_exact_witness:
  "\<exists>m a. machine_run pull_await (pull_callback (Inl Forbidden))
      [True, True, True, False, False, False, False, False, True, True, True, True, True]
      (machine_start (make_AwaitPullCallback \<lparr>pt_min = 0, pt_max = 0, pt_next = 0, pt_messages = []\<rparr>)) = Some m
    \<and> ma_result m = Some a \<and> \<not> fst (pull_returned a)"
proof -
  let ?r0 = "\<lparr>pt_min = 0, pt_max = 0, pt_next = 0, pt_messages = []\<rparr>"
  let ?resp = "\<lparr>pv_code = Some Code_PERMISSION_DENIED, pv_messages = [], pv_next_offset = 0, pv_min_offset = 0, pv_max_offset = 0\<rparr>"
  obtain m where m: "machine_run pull_await (pull_callback (Inl Forbidden)) [True, True, True, False, False, False, False, False,
      True, True, True, True, True] (machine_start (make_AwaitPullCallback ?r0)) = Some m" and result: "ma_result m \<noteq> None"
    by (simp add: pull_await_def pull_callback_eq machine_start_def waiter_step_def callback_step_def make_AwaitPullCallback_def)
  have "pull_completion sample_codec ''ns'' 0 sample_blank True ?resp = Some (Inl Forbidden)"
    by (simp add: pull_completion_def)
  then show ?thesis using blocking_pull_exact[OF _ machine_run_start[OF m]] m result by fastforce
qed

end
