(* ===== verification/Scheduler.thy ===== *)
theory Scheduler
  imports Messages
begin

text \<open>
  The timers of a client (\<open>scheduler/SchedulerImpl\<close>). A task is an object owned by the task table; a
  timer only holds a weak pointer to it, so erasing the task from the table cancels it, unless an
  execution under way still holds it. Worker threads execute timers that have expired; an execution
  is two steps, up to the callback and after it, with anything in between. The specification is an
  agenda of jobs that knows neither pointers nor timers, and the scheduler refines it.
\<close>

section \<open>State\<close>

record 'f TimerTask =
  tt_callback :: 'f
  tt_interval :: duration
  tt_task_name :: string

text \<open>A timer that is armed or executing, with the weak pointer bound to its handler.\<close>

record Timer =
  tm_expiry :: time_point
  tm_task :: nat

text \<open>The objects made so far are indexed by their addresses. The counter \<open>task_id\<close> is a static
  variable, shared with the other schedulers of the process.\<close>

record 'f SchedulerImpl =
  sd_state :: State
  sd_context_stopped :: bool
  sd_tasks :: "(u32 \<times> nat) list"
  sd_objects :: "'f TimerTask list"
  sd_task_id :: u32
  sd_waits :: "Timer list"
  sd_executing :: "Timer list"

definition make_SchedulerImpl :: "'f SchedulerImpl" where
  "make_SchedulerImpl = \<lparr>sd_state = CREATED, sd_context_stopped = False, sd_tasks = [], sd_objects = [],
     sd_task_id = 0, sd_waits = [], sd_executing = []\<rparr>"

section \<open>Operations\<close>

text \<open>The first worker that runs makes the scheduler STARTED; without a worker \<open>start\<close> never returns.\<close>

definition scheduler_start :: "nat \<Rightarrow> 'f SchedulerImpl \<Rightarrow> 'f SchedulerImpl option" where
  "scheduler_start hardware_concurrency s =
     (case compare_exchange (sd_state s) CREATED STARTING of (v, ok) \<Rightarrow>
        if \<not> ok then Some s
        else if hardware_concurrency = 0 then None
        else Some (s\<lparr>sd_state := STARTED\<rparr>))"

definition schedule ::
  "'f SchedulerImpl \<Rightarrow> 'f \<Rightarrow> string \<Rightarrow> duration \<Rightarrow> duration \<Rightarrow> time_point \<Rightarrow> u32 \<times> 'f SchedulerImpl" where
  "schedule s functor task_name delay interval now =
     (let task = \<lparr>tt_callback = functor, tt_interval = interval, tt_task_name = task_name\<rparr>;
          p = length (sd_objects s);
          i = sd_task_id s + 1
      in (i, s\<lparr>sd_objects := sd_objects s @ [task], sd_task_id := i,
               sd_tasks := hm_emplace unat i p (sd_tasks s),
               sd_waits := sd_waits s @ [\<lparr>tm_expiry = now + delay, tm_task = p\<rparr>]\<rparr>))"

definition cancel_task :: "'f SchedulerImpl \<Rightarrow> u32 \<Rightarrow> 'f SchedulerImpl" where
  "cancel_task s i =
     (if \<not> hm_contains unat (sd_tasks s) i then s
      else s\<lparr>sd_tasks := hm_erase unat i (sd_tasks s)\<rparr>)"

text \<open>Locking a weak pointer: the object lives while the table or an execution owns it.\<close>

definition lock_task :: "'f SchedulerImpl \<Rightarrow> nat \<Rightarrow> 'f TimerTask option" where
  "lock_task s p =
     (if p \<in> set (map snd (sd_tasks s)) \<or> p \<in> set (map tm_task (sd_executing s))
      then Some (sd_objects s ! p) else None)"

text \<open>The handler of an expired timer up to the callback that it runs, if any \<dots>\<close>

definition execute_begin :: "'f SchedulerImpl \<Rightarrow> Timer \<Rightarrow> 'f SchedulerImpl \<times> 'f option" where
  "execute_begin s t =
     (let s1 = s\<lparr>sd_waits := remove1 t (sd_waits s)\<rparr>
      in case lock_task s (tm_task t) of
           None \<Rightarrow> (s1, None)
         | Some task \<Rightarrow> (s1\<lparr>sd_executing := sd_executing s @ [t]\<rparr>, Some (tt_callback task)))"

text \<open>\<dots> and after it: a periodic timer is armed again, relative to its last expiry.\<close>

definition execute_end :: "'f SchedulerImpl \<Rightarrow> Timer \<Rightarrow> 'f SchedulerImpl" where
  "execute_end s t =
     (let s1 = s\<lparr>sd_executing := remove1 t (sd_executing s)\<rparr>;
          interval = tt_interval (sd_objects s ! tm_task t)
      in if interval \<noteq> 0 then s1\<lparr>sd_waits := sd_waits s @ [t\<lparr>tm_expiry := tm_expiry t + interval\<rparr>]\<rparr>
         else s1)"

text \<open>\<open>shutdown\<close> clears the table, stops the context, and waits for the workers.\<close>

definition shutdown_clear :: "'f SchedulerImpl \<Rightarrow> 'f SchedulerImpl" where
  "shutdown_clear s =
     (case compare_exchange (sd_state s) STARTED STOPPING of (v, ok) \<Rightarrow>
        if ok then s\<lparr>sd_state := v, sd_tasks := []\<rparr> else s)"

definition shutdown_stop :: "'f SchedulerImpl \<Rightarrow> 'f SchedulerImpl" where
  "shutdown_stop s = s\<lparr>sd_context_stopped := True\<rparr>"

definition shutdown_join :: "'f SchedulerImpl \<Rightarrow> 'f SchedulerImpl option" where
  "shutdown_join s = (if sd_executing s = [] then Some (s\<lparr>sd_state := STOPPED\<rparr>) else None)"

section \<open>The thread pool\<close>

text \<open>\<open>base/ThreadPoolImpl\<close>: the tasks posted to its context and not yet run, and its threads.\<close>

record 'f ThreadPoolImpl =
  tp_state :: State
  tp_workers :: u16
  tp_threads :: nat
  tp_context :: "'f list"
  tp_stopped :: bool

definition make_ThreadPoolImpl :: "u16 \<Rightarrow> 'f ThreadPoolImpl" where
  "make_ThreadPoolImpl workers =
     \<lparr>tp_state = CREATED, tp_workers = workers, tp_threads = 0, tp_context = [], tp_stopped = False\<rparr>"

text \<open>None: without a worker \<open>start\<close> waits forever.\<close>

definition pool_start :: "'f ThreadPoolImpl \<Rightarrow> 'f ThreadPoolImpl option" where
  "pool_start tp =
     (let tp1 = tp\<lparr>tp_threads := tp_threads tp + unat (tp_workers tp)\<rparr>;
          tp2 = (if tp_workers tp = 0 then tp1
                 else tp1\<lparr>tp_state := fst (compare_exchange (tp_state tp) CREATED STARTED)\<rparr>)
      in if CREATED = tp_state tp2 then None else Some tp2)"

definition pool_shutdown :: "'f ThreadPoolImpl \<Rightarrow> 'f ThreadPoolImpl" where
  "pool_shutdown tp =
     (case compare_exchange (tp_state tp) STARTED STOPPING of (v, ok) \<Rightarrow>
        if ok then tp\<lparr>tp_state := STOPPED, tp_stopped := True\<rparr> else tp)"

definition pool_submit :: "'f ThreadPoolImpl \<Rightarrow> 'f \<Rightarrow> 'f ThreadPoolImpl" where
  "pool_submit tp task =
     (if STARTED = tp_state tp then tp\<lparr>tp_context := tp_context tp @ [task]\<rparr> else tp)"

text \<open>A thread of the pool takes the next task of the context.\<close>

definition pool_run :: "'f ThreadPoolImpl \<Rightarrow> ('f ThreadPoolImpl \<times> 'f) option" where
  "pool_run tp =
     (if tp_stopped tp \<or> tp_threads tp = 0 then None
      else case tp_context tp of [] \<Rightarrow> None | f # fs \<Rightarrow> Some (tp\<lparr>tp_context := fs\<rparr>, f))"

section \<open>Runs\<close>

datatype 'f sched_event =
    Schedule u32 'f time_point duration
  | Cancel u32
  | Fire "u32 option" 'f time_point
  | Clear

text \<open>The id a task is registered under.\<close>

definition id_of :: "'f SchedulerImpl \<Rightarrow> nat \<Rightarrow> u32 option" where
  "id_of s p = map_option fst (List.find (\<lambda>(i, q). q = p) (sd_tasks s))"

text \<open>A step, the number of ids it draws, and what can be observed of it. Workers only run while
  the context does.\<close>

inductive sched_step ::
  "'f SchedulerImpl \<Rightarrow> nat \<Rightarrow> 'f sched_event list \<Rightarrow> 'f SchedulerImpl \<Rightarrow> bool" where
  ss_start: "scheduler_start hardware_concurrency s = Some s' \<Longrightarrow> sched_step s 0 [] s'"
| ss_schedule: "schedule s f task_name delay interval now = (i, s') \<Longrightarrow>
     sched_step s 1 [Schedule i f (now + delay) interval] s'"
| ss_elsewhere: "sched_step s 1 [] (s\<lparr>sd_task_id := sd_task_id s + 1\<rparr>)"
| ss_cancel: "sched_step s 0 [Cancel i] (cancel_task s i)"
| ss_fire: "sd_state s \<in> {STARTED, STOPPING} \<Longrightarrow> \<not> sd_context_stopped s \<Longrightarrow> t \<in> set (sd_waits s) \<Longrightarrow>
     tm_expiry t \<le> now \<Longrightarrow> execute_begin s t = (s', Some f) \<Longrightarrow>
     sched_step s 0 [Fire (id_of s (tm_task t)) f now] s'"
| ss_drop: "sd_state s \<in> {STARTED, STOPPING} \<Longrightarrow> \<not> sd_context_stopped s \<Longrightarrow> t \<in> set (sd_waits s) \<Longrightarrow>
     tm_expiry t \<le> now \<Longrightarrow> execute_begin s t = (s', None) \<Longrightarrow> sched_step s 0 [] s'"
| ss_end: "t \<in> set (sd_executing s) \<Longrightarrow> sched_step s 0 [] (execute_end s t)"
| ss_clear: "sd_state s = STARTED \<Longrightarrow> sched_step s 0 [Clear] (shutdown_clear s)"
| ss_stop: "sd_state s = STOPPING \<Longrightarrow> sched_step s 0 [] (shutdown_stop s)"
| ss_join: "sd_state s = STOPPING \<Longrightarrow> sd_context_stopped s \<Longrightarrow> shutdown_join s = Some s' \<Longrightarrow>
     sched_step s 0 [] s'"

inductive sched_reach :: "nat \<Rightarrow> 'f SchedulerImpl \<Rightarrow> 'f sched_event list \<Rightarrow> bool" where
  sr_init: "sched_reach 0 make_SchedulerImpl []"
| sr_step: "sched_reach n s log \<Longrightarrow> sched_step s k es s' \<Longrightarrow> sched_reach (n + k) s' (log @ es)"

section \<open>The specification: an agenda\<close>

record 'f job =
  jb_callback :: 'f
  jb_due :: time_point
  jb_interval :: duration

definition next_turn :: "'f job \<Rightarrow> 'f job option" where
  "next_turn j = (if jb_interval j = 0 then None else Some (j\<lparr>jb_due := jb_due j + jb_interval j\<rparr>))"

inductive agenda_step :: "(u32 \<rightharpoonup> 'f job) \<Rightarrow> 'f sched_event \<Rightarrow> (u32 \<rightharpoonup> 'f job) \<Rightarrow> bool" where
  as_schedule: "A i = None \<Longrightarrow>
     agenda_step A (Schedule i f due interval) (A(i \<mapsto> \<lparr>jb_callback = f, jb_due = due, jb_interval = interval\<rparr>))"
| as_cancel: "agenda_step A (Cancel i) (A(i := None))"
| as_fire: "A i = Some j \<Longrightarrow> jb_due j \<le> now \<Longrightarrow>
     agenda_step A (Fire (Some i) (jb_callback j) now) (A(i := next_turn j))"
| as_clear: "agenda_step A Clear Map.empty"

inductive agenda_run :: "'f sched_event list \<Rightarrow> (u32 \<rightharpoonup> 'f job) \<Rightarrow> bool" where
  ar_init: "agenda_run [] Map.empty"
| ar_step: "agenda_run log A \<Longrightarrow> agenda_step A e A' \<Longrightarrow> agenda_run (log @ [e]) A'"

inductive_cases agenda_cancelE: "agenda_step A (Cancel i) A'"

section \<open>The agenda a scheduler stands for\<close>

definition timer_of :: "nat \<Rightarrow> Timer list \<Rightarrow> Timer option" where
  "timer_of p ts = List.find (\<lambda>t. tm_task t = p) ts"

definition job_of :: "'f TimerTask \<Rightarrow> Timer \<Rightarrow> 'f job" where
  "job_of task t = \<lparr>jb_callback = tt_callback task, jb_due = tm_expiry t, jb_interval = tt_interval task\<rparr>"

text \<open>The turn a task has next: its armed timer, or the one its execution under way will arm.\<close>

definition turn_after :: "'f TimerTask \<Rightarrow> Timer option \<Rightarrow> Timer option \<Rightarrow> 'f job option" where
  "turn_after task armed executing = (case armed of
       Some t \<Rightarrow> Some (job_of task t)
     | None \<Rightarrow> Option.bind executing (\<lambda>t. next_turn (job_of task t)))"

definition pending_job :: "'f SchedulerImpl \<Rightarrow> nat \<Rightarrow> 'f job option" where
  "pending_job s p =
     turn_after (sd_objects s ! p) (timer_of p (sd_waits s)) (timer_of p (sd_executing s))"

definition agenda_of :: "'f SchedulerImpl \<Rightarrow> u32 \<rightharpoonup> 'f job" where
  "agenda_of s = (\<lambda>i. Option.bind (hm_find unat (sd_tasks s) i) (pending_job s))"

definition sched_ok :: "nat \<Rightarrow> 'f SchedulerImpl \<Rightarrow> bool" where
  "sched_ok n s \<longleftrightarrow> unat (sd_task_id s) = n \<and> hm_inv unat (sd_tasks s) \<and> distinct (map snd (sd_tasks s))
     \<and> (\<forall>(i, p) \<in> set (sd_tasks s). unat i \<le> n \<and> p < length (sd_objects s))
     \<and> distinct (map tm_task (sd_waits s @ sd_executing s))
     \<and> (\<forall>t \<in> set (sd_waits s @ sd_executing s). tm_task t < length (sd_objects s))"

primrec scheduled :: "'f sched_event list \<Rightarrow> u32 list" where
  "scheduled [] = []"
| "scheduled (e # es) = (case e of Schedule i f due interval \<Rightarrow> [i] | _ \<Rightarrow> []) @ scheduled es"

section \<open>Lemmas on timers\<close>

lemma timer_of_append:
  "timer_of p (ts @ us) = (case timer_of p ts of None \<Rightarrow> timer_of p us | Some t \<Rightarrow> Some t)"
  by (induction ts) (simp_all add: timer_of_def)

lemma timer_of_single [simp]: "timer_of p [t] = (if tm_task t = p then Some t else None)"
  by (simp add: timer_of_def)

lemma timer_of_None: "timer_of p ts = None \<longleftrightarrow> p \<notin> tm_task ` set ts"
  by (auto simp: timer_of_def find_None_iff)

lemma timer_of_in: "distinct (map tm_task ts) \<Longrightarrow> t \<in> set ts \<Longrightarrow> timer_of (tm_task t) ts = Some t"
  by (induction ts) (auto simp: timer_of_def rev_image_eqI)

lemma timer_of_remove1:
  "distinct (map tm_task ts) \<Longrightarrow> t \<in> set ts \<Longrightarrow>
   timer_of p (remove1 t ts) = (if p = tm_task t then None else timer_of p ts)"
  by (induction ts) (auto simp: timer_of_def find_None_iff image_iff)

lemma id_of_in:
  assumes "distinct (map snd (sd_tasks s))" "(i, p) \<in> set (sd_tasks s)"
  shows "id_of s p = Some i"
proof -
  have "distinct (map snd m) \<Longrightarrow> (i, p) \<in> set m \<Longrightarrow> List.find (\<lambda>(i, q). q = p) m = Some (i, p)" for m :: "(u32 \<times> nat) list"
    by (induction m) (auto simp: rev_image_eqI)
  then show ?thesis using assms by (simp add: id_of_def)
qed

lemma unat_inject: "unat (i :: u32) = unat j \<longleftrightarrow> i = j"
  by (simp add: word_unat_eq_iff)

lemma hm_find_unat_in: "hm_find unat m i = Some p \<Longrightarrow> (i, p) \<in> set (m :: (u32 \<times> nat) list)"
  using hm_find_SomeD[of unat m i p] by (auto simp: unat_inject)

lemma agenda_of_eqI:
  assumes "sd_tasks s' = sd_tasks s"
    and "\<And>i p. (i, p) \<in> set (sd_tasks s) \<Longrightarrow> pending_job s' p = pending_job s p"
  shows "agenda_of s' = agenda_of s"
proof (rule ext)
  fix i
  show "agenda_of s' i = agenda_of s i" using assms(2)[OF hm_find_unat_in[of "sd_tasks s" i]]
    by (cases "hm_find unat (sd_tasks s) i") (simp_all add: agenda_of_def assms(1))
qed

section \<open>Every operation refines a step of the agenda\<close>

lemma schedule_refines:
  assumes "sched_ok n s" "n + 1 < 2 ^ 32" "schedule s f name delay interval now = (i, s')"
  shows "sched_ok (n + 1) s' \<and> agenda_of s i = None \<and> unat i = n + 1
    \<and> agenda_of s' = (agenda_of s)(i \<mapsto> \<lparr>jb_callback = f, jb_due = now + delay, jb_interval = interval\<rparr>)"
proof -
  let ?p = "length (sd_objects s)"
  let ?t = "\<lparr>tm_expiry = now + delay, tm_task = ?p\<rparr>"
  have i: "i = sd_task_id s + 1" using assms(3) by (simp add: schedule_def Let_def)
  have next_id: "unat i = n + 1" using assms(1,2) by (simp add: i sched_ok_def unat_word_ariths)
  then have new: "hm_find unat (sd_tasks s) i = None" using assms(1)
    by (fastforce simp: hm_find_None sched_ok_def)
  then have tasks: "sd_tasks s' = sd_tasks s @ [(i, ?p)]" using assms(3)
    by (auto simp: schedule_def Let_def hm_emplace_def hm_contains_def)
  have waits: "sd_waits s' = sd_waits s @ [?t]" "sd_executing s' = sd_executing s" "sd_task_id s' = i"
    and objs: "sd_objects s' = sd_objects s @ [\<lparr>tt_callback = f, tt_interval = interval, tt_task_name = name\<rparr>]"
    using assms(3) by (auto simp: schedule_def Let_def)
  have free: "?p \<notin> tm_task ` set (sd_waits s)" "?p \<notin> tm_task ` set (sd_executing s)" "?p \<notin> snd ` set (sd_tasks s)"
    using assms(1) by (auto simp: sched_ok_def)
  have "hm_inv unat (sd_tasks s')" using assms(1) new by (auto simp: tasks sched_ok_def hm_inv_def hm_find_None)
  then have "sched_ok (n + 1) s'" using assms(1) free next_id
    by (auto simp: sched_ok_def tasks waits objs less_Suc_eq)
  moreover have "agenda_of s' = (agenda_of s)(i \<mapsto> \<lparr>jb_callback = f, jb_due = now + delay, jb_interval = interval\<rparr>)"
  proof (rule ext)
    fix j
    have find: "hm_find unat (sd_tasks s') j = (if j = i then Some ?p else hm_find unat (sd_tasks s) j)"
      using new by (auto simp: tasks hm_find_append unat_inject split: option.splits)
    have old: "pending_job s' p = pending_job s p" if "(j, p) \<in> set (sd_tasks s)" for p
    proof -
      have "p < ?p" using that assms(1) by (auto simp: sched_ok_def)
      then show ?thesis by (simp add: pending_job_def timer_of_append waits objs nth_append turn_after_def split: option.splits)
    qed
    have "pending_job s' ?p = Some \<lparr>jb_callback = f, jb_due = now + delay, jb_interval = interval\<rparr>"
      using free timer_of_None[of ?p "sd_waits s"] by (simp add: pending_job_def timer_of_append waits objs job_of_def turn_after_def)
    then show "agenda_of s' j = ((agenda_of s)(i \<mapsto> \<lparr>jb_callback = f, jb_due = now + delay, jb_interval = interval\<rparr>)) j"
      using old[OF hm_find_unat_in] by (cases "hm_find unat (sd_tasks s) j") (auto simp: agenda_of_def find)
  qed
  ultimately show ?thesis using new next_id by (simp add: agenda_of_def)
qed

lemma cancel_refines:
  assumes "sched_ok n s"
  shows "sched_ok n (cancel_task s i)" "agenda_of (cancel_task s i) = (agenda_of s)(i := None)"
proof -
  have inv: "hm_inv unat (sd_tasks s)" using assms by (simp add: sched_ok_def)
  have "hm_inv unat (hm_erase unat i (sd_tasks s))" using hm.erase_invar[OF inv] .
  then show "sched_ok n (cancel_task s i)" using assms
    by (auto simp: cancel_task_def sched_ok_def hm_erase_def distinct_map_filter)
  have pj: "pending_job (cancel_task s i) = pending_job s"
    by (rule ext) (simp add: pending_job_def cancel_task_def)
  have "hm_find unat (sd_tasks (cancel_task s i)) j = (if j = i then None else hm_find unat (sd_tasks s) j)" for j
    using hm.find_erase[OF inv, of i j] by (auto simp: cancel_task_def hm_contains_def unat_inject)
  then show "agenda_of (cancel_task s i) = (agenda_of s)(i := None)"
    by (auto simp: agenda_of_def pj fun_eq_iff)
qed

text \<open>What the users of a pool rely on: a running pool takes every task and runs the tasks in order, a
  stopped one drops what it is given and runs nothing.\<close>

locale task_pool =
  fixes running :: "'p \<Rightarrow> bool" and waiting :: "'p \<Rightarrow> 'f list" and submit :: "'p \<Rightarrow> 'f \<Rightarrow> 'p"
    and take_task :: "'p \<Rightarrow> ('p \<times> 'f) option" and stop :: "'p \<Rightarrow> 'p"
  assumes submit_running: "running p \<Longrightarrow> running (submit p f) \<and> waiting (submit p f) = waiting p @ [f]"
    and take_running: "\<lbrakk>running p; take_task p = Some (p', f)\<rbrakk> \<Longrightarrow> running p' \<and> waiting p = f # waiting p'"
    and stop_stops: "running p \<Longrightarrow> \<not> running (stop p) \<and> take_task (stop p) = None"
    and submit_stopped: "running p \<Longrightarrow> submit (stop p) f = stop p"
begin

lemma submit_all:
  "running p \<Longrightarrow> running (fold (\<lambda>f q. submit q f) fs p) \<and> waiting (fold (\<lambda>f q. submit q f) fs p) = waiting p @ fs"
  by (induction fs arbitrary: p) (simp_all add: submit_running)

lemma submit_all_stopped: "running p \<Longrightarrow> fold (\<lambda>f q. submit q f) fs (stop p) = stop p"
  by (induction fs) (simp_all add: submit_stopped)

end

definition pool_running :: "'f ThreadPoolImpl \<Rightarrow> bool" where
  "pool_running tp = (STARTED = tp_state tp \<and> \<not> tp_stopped tp \<and> 0 < tp_threads tp)"

interpretation tp: task_pool pool_running tp_context pool_submit pool_run pool_shutdown
  by unfold_locales (auto simp: pool_running_def pool_submit_def pool_run_def pool_shutdown_def compare_exchange_def split: list.splits if_splits)

text \<open>What the clients of a scheduler rely on: as long as ids are left, a scheduled job gets a new id
  that is not zero, and cancelling removes it, and neither touches other jobs.\<close>

locale job_service =
  fixes ok :: "nat \<Rightarrow> 's \<Rightarrow> bool"
    and agenda :: "'s \<Rightarrow> u32 \<rightharpoonup> 'f job"
    and start_job :: "'s \<Rightarrow> 'f \<Rightarrow> string \<Rightarrow> duration \<Rightarrow> duration \<Rightarrow> time_point \<Rightarrow> u32 \<times> 's"
    and stop_job :: "'s \<Rightarrow> u32 \<Rightarrow> 's"
  assumes start_ok: "ok n s \<Longrightarrow> n + 1 < 2 ^ 32 \<Longrightarrow> start_job s f name delay interval now = (i, s') \<Longrightarrow>
      ok (n + 1) s' \<and> agenda s i = None \<and> unat i = n + 1
      \<and> agenda s' = (agenda s)(i \<mapsto> \<lparr>jb_callback = f, jb_due = now + delay, jb_interval = interval\<rparr>)"
    and stop_ok: "ok n s \<Longrightarrow> ok n (stop_job s i)"
    and stop_agenda: "ok n s \<Longrightarrow> agenda (stop_job s i) = (agenda s)(i := None)"
begin

lemma start_two:
  assumes "ok n s" "n + 2 < 2 ^ 32" "start_job s f a d e now = (i, s1)" "start_job s1 g b d' e' now = (j, s2)"
  shows "ok (n + 2) s2 \<and> i \<noteq> j \<and> i \<noteq> 0 \<and> j \<noteq> 0
    \<and> agenda s2 = (agenda s)(i \<mapsto> \<lparr>jb_callback = f, jb_due = now + d, jb_interval = e\<rparr>,
        j \<mapsto> \<lparr>jb_callback = g, jb_due = now + d', jb_interval = e'\<rparr>)"
proof -
  have one: "ok (n + 1) s1" "unat i = n + 1"
      "agenda s1 = (agenda s)(i \<mapsto> \<lparr>jb_callback = f, jb_due = now + d, jb_interval = e\<rparr>)"
    using start_ok[OF assms(1) _ assms(3)] assms(2) by simp_all
  have two: "ok (n + 1 + 1) s2" "unat j = n + 1 + 1"
      "agenda s2 = (agenda s1)(j \<mapsto> \<lparr>jb_callback = g, jb_due = now + d', jb_interval = e'\<rparr>)"
    using start_ok[OF one(1) _ assms(4)] assms(2) by simp_all
  have "i \<noteq> j" using one(2) two(2) by auto
  moreover have "i \<noteq> 0" "j \<noteq> 0" using one(2) two(2) by auto
  ultimately show ?thesis using two one(3) by simp
qed

lemma stop_two:
  "ok n s \<Longrightarrow> ok n (stop_job (stop_job s i) j) \<and> agenda (stop_job (stop_job s i) j) = (agenda s)(i := None, j := None)"
  using stop_ok[of n s i] stop_ok[of n "stop_job s i" j] stop_agenda[of n s i] stop_agenda[of n "stop_job s i" j] by simp

end

interpretation js: job_service sched_ok agenda_of schedule cancel_task
  by unfold_locales (rule schedule_refines cancel_refines; assumption)+

lemma remove_timer:
  assumes "distinct (map tm_task (ts @ us))" "t \<in> set ts"
  shows "distinct (map tm_task (remove1 t ts @ us))" "distinct (map tm_task (remove1 t ts @ us @ [t]))"
    "set (remove1 t ts @ us @ [t]) = set (ts @ us)"
proof -
  have "tm_task ` set (remove1 t ts) = tm_task ` set ts - {tm_task t}" "distinct (map tm_task (remove1 t ts))"
    using assms distinct_map_remove1[of tm_task ts t] distinct_map_remove1I[of tm_task ts t] by auto
  then show "distinct (map tm_task (remove1 t ts @ us))" "distinct (map tm_task (remove1 t ts @ us @ [t]))"
    using assms by auto
  have "distinct ts" using assms(1) by (auto simp: distinct_map)
  then show "set (remove1 t ts @ us @ [t]) = set (ts @ us)" using assms(2) by (auto simp: set_remove1_eq)
qed

lemma execute_begin_ok:
  assumes ok: "sched_ok n s" and t: "t \<in> set (sd_waits s)" and run: "execute_begin s t = (s', r)"
  shows "sched_ok n s'"
proof -
  note timers = remove_timer[of "sd_waits s" "sd_executing s" t]
  have s': "s' = (if r = None then s\<lparr>sd_waits := remove1 t (sd_waits s)\<rparr>
      else s\<lparr>sd_waits := remove1 t (sd_waits s), sd_executing := sd_executing s @ [t]\<rparr>)"
    using run by (auto simp: execute_begin_def Let_def split: option.splits)
  have bound: "\<forall>u \<in> set (remove1 t (sd_waits s) @ sd_executing s @ [t]). tm_task u < length (sd_objects s)"
    using ok timers(3) t by (simp add: sched_ok_def)
  show ?thesis
  proof (cases r)
    case None
    then show ?thesis using ok timers(1) t bound by (simp add: s' sched_ok_def)
  next
    case (Some f)
    then show ?thesis using ok timers(2) t bound by (simp add: s' sched_ok_def)
  qed
qed

lemma fire_refines:
  assumes ok: "sched_ok n s" and t: "t \<in> set (sd_waits s)" and run: "execute_begin s t = (s', Some f)"
  shows "\<exists>i j. id_of s (tm_task t) = Some i \<and> agenda_of s i = Some j \<and> jb_due j = tm_expiry t \<and> jb_callback j = f
    \<and> agenda_of s' = (agenda_of s)(i := next_turn j)"
proof -
  let ?p = "tm_task t"
  have dist: "distinct (map tm_task (sd_waits s))" "?p \<notin> tm_task ` set (sd_executing s)"
    using ok t by (auto simp: sched_ok_def)
  have s': "s' = s\<lparr>sd_waits := remove1 t (sd_waits s), sd_executing := sd_executing s @ [t]\<rparr>"
    and live: "?p \<in> snd ` set (sd_tasks s)" and f: "f = tt_callback (sd_objects s ! ?p)"
    using run dist(2) by (auto simp: execute_begin_def lock_task_def Let_def split: if_splits option.splits)
  obtain i where i: "(i, ?p) \<in> set (sd_tasks s)" using live by auto
  have find: "hm_find unat (sd_tasks s) i = Some ?p" using hm_inv_findI[OF _ i, of unat] ok by (simp add: sched_ok_def)
  let ?j = "job_of (sd_objects s ! ?p) t"
  have now: "pending_job s ?p = Some ?j" by (simp add: pending_job_def turn_after_def timer_of_in[OF dist(1) t])
  have none: "timer_of ?p (sd_executing s) = None" using dist(2) by (simp add: timer_of_None)
  have pj: "pending_job s' q = (if q = ?p then next_turn ?j else pending_job s q)" for q
    using none by (simp add: s' pending_job_def timer_of_append timer_of_remove1[OF dist(1) t] turn_after_def split: option.splits)
  have "agenda_of s' k = ((agenda_of s)(i := next_turn ?j)) k" for k
  proof (cases "hm_find unat (sd_tasks s) k")
    case None
    then show ?thesis using find by (auto simp: agenda_of_def s')
  next
    case (Some q)
    have "q = ?p \<longleftrightarrow> k = i" using id_of_in[OF _ hm_find_unat_in[OF Some]] id_of_in[OF _ i] ok find Some
      by (auto simp: sched_ok_def)
    then show ?thesis using pj[of q] Some by (simp add: agenda_of_def s')
  qed
  then show ?thesis using id_of_in[OF _ i] ok find now f
    by (intro exI[of _ i] exI[of _ ?j]) (auto simp: sched_ok_def agenda_of_def job_of_def)
qed

lemma drop_refines:
  assumes ok: "sched_ok n s" and t: "t \<in> set (sd_waits s)" and run: "execute_begin s t = (s', None)"
  shows "agenda_of s' = agenda_of s"
proof -
  have dist: "distinct (map tm_task (sd_waits s))" using ok by (simp add: sched_ok_def)
  have s': "s' = s\<lparr>sd_waits := remove1 t (sd_waits s)\<rparr>" and dead: "tm_task t \<notin> snd ` set (sd_tasks s)"
    using run by (auto simp: execute_begin_def lock_task_def Let_def split: if_splits option.splits)
  show ?thesis
  proof (rule agenda_of_eqI)
    fix i p
    assume "(i, p) \<in> set (sd_tasks s)"
    then have "p \<noteq> tm_task t" using dead by force
    then show "pending_job s' p = pending_job s p" by (simp add: s' pending_job_def timer_of_remove1[OF dist t])
  qed (simp add: s')
qed

lemma execute_end_refines:
  assumes ok: "sched_ok n s" and t: "t \<in> set (sd_executing s)"
  shows "sched_ok n (execute_end s t)" "agenda_of (execute_end s t) = agenda_of s"
proof -
  let ?p = "tm_task t"
  have dist: "distinct (map tm_task (sd_executing s))" "?p \<notin> tm_task ` set (sd_waits s)"
    using ok t by (auto simp: sched_ok_def)
  have all: "distinct (map tm_task (sd_executing s @ sd_waits s))" using ok by (auto simp: sched_ok_def)
  note timers = remove_timer[OF all t]
  have bound: "\<forall>u \<in> set (remove1 t (sd_executing s) @ sd_waits s @ [t]). tm_task u < length (sd_objects s)"
    unfolding timers(3) using ok by (auto simp: sched_ok_def)
  show "sched_ok n (execute_end s t)" using ok timers(1,2) bound
    by (simp add: sched_ok_def execute_end_def Let_def Int_commute Un_commute)
  have none: "timer_of ?p (sd_waits s) = None" using dist(2) by (simp add: timer_of_None)
  show "agenda_of (execute_end s t) = agenda_of s"
  proof (rule agenda_of_eqI)
    fix i p
    assume "(i, p) \<in> set (sd_tasks s)"
    show "pending_job (execute_end s t) p = pending_job s p"
      using none timer_of_in[OF dist(1) t]
      by (auto simp: pending_job_def execute_end_def Let_def timer_of_append timer_of_remove1[OF dist(1) t]
          turn_after_def next_turn_def job_of_def split: option.splits)
  qed (simp add: execute_end_def Let_def)
qed

lemma clear_refines:
  assumes "sched_ok n s" "sd_state s = STARTED"
  shows "sched_ok n (shutdown_clear s)" "agenda_of (shutdown_clear s) = Map.empty"
  using assms by (auto simp: sched_ok_def shutdown_clear_def compare_exchange_def agenda_of_def hm_inv_def)

lemma state_refines:
  assumes "sched_ok n s"
  shows "sched_ok n (s\<lparr>sd_state := v\<rparr>)" "agenda_of (s\<lparr>sd_state := v\<rparr>) = agenda_of s"
    "sched_ok n (s\<lparr>sd_context_stopped := b\<rparr>)" "agenda_of (s\<lparr>sd_context_stopped := b\<rparr>) = agenda_of s"
  using assms by (simp_all add: sched_ok_def agenda_of_def pending_job_def[abs_def])

lemma scheduler_start_frame:
  assumes "scheduler_start hc s = Some s'"
  shows "s' = s \<or> s' = s\<lparr>sd_state := STARTED\<rparr>"
  using assms by (auto simp: scheduler_start_def compare_exchange_def split: if_splits)

lemma elsewhere_refines:
  assumes "sched_ok n s" "n + 1 < 2 ^ 32"
  shows "sched_ok (n + 1) (s\<lparr>sd_task_id := sd_task_id s + 1\<rparr>)"
    "agenda_of (s\<lparr>sd_task_id := sd_task_id s + 1\<rparr>) = agenda_of s"
proof -
  have "unat (sd_task_id s + 1) = n + 1" using assms by (simp add: sched_ok_def unat_word_ariths)
  then show "sched_ok (n + 1) (s\<lparr>sd_task_id := sd_task_id s + 1\<rparr>)" using assms(1) by (auto simp: sched_ok_def)
qed (simp add: agenda_of_def pending_job_def[abs_def])

lemma sched_step_refines:
  assumes "sched_step s k es s'" "sched_ok n s" "n + k < 2 ^ 32" "agenda_run log (agenda_of s)"
  shows "sched_ok (n + k) s' \<and> agenda_run (log @ es) (agenda_of s')"
  using assms
proof cases
  case (ss_start hc)
  then show ?thesis using scheduler_start_frame[OF ss_start(3)] state_refines[OF assms(2)] assms(2,4) by auto
next
  case (ss_schedule f task_name delay interval now i)
  then show ?thesis using schedule_refines[OF assms(2) _ ss_schedule(3)] assms(3) ar_step[OF assms(4) as_schedule] by simp
next
  case ss_elsewhere
  then show ?thesis using elsewhere_refines[OF assms(2)] assms(3,4) by simp
next
  case (ss_cancel i)
  then show ?thesis using cancel_refines[OF assms(2), of i] ar_step[OF assms(4) as_cancel] by simp
next
  case (ss_fire t now f)
  obtain i j where fire: "id_of s (tm_task t) = Some i" "agenda_of s i = Some j" "jb_due j = tm_expiry t"
    "jb_callback j = f" "agenda_of s' = (agenda_of s)(i := next_turn j)"
    using fire_refines[OF assms(2) ss_fire(5,7)] by blast
  then show ?thesis using execute_begin_ok[OF assms(2) ss_fire(5,7)] ar_step[OF assms(4) as_fire[of "agenda_of s" i j now]] ss_fire
    by simp
next
  case (ss_drop t now)
  then show ?thesis using execute_begin_ok[OF assms(2) ss_drop(5,7)] drop_refines[OF assms(2) ss_drop(5,7)] assms(4) by simp
next
  case (ss_end t)
  then show ?thesis using execute_end_refines[OF assms(2) ss_end(4)] assms(4) by simp
next
  case ss_clear
  then show ?thesis using clear_refines[OF assms(2) ss_clear(4)] ar_step[OF assms(4) as_clear] by simp
next
  case ss_stop
  then show ?thesis using state_refines[OF assms(2)] assms(4) by (simp add: shutdown_stop_def)
next
  case ss_join
  then have "s' = s\<lparr>sd_state := STOPPED\<rparr>" by (simp add: shutdown_join_def split: if_splits)
  then show ?thesis using state_refines[OF assms(2)] assms(4) ss_join by simp
qed

lemma sched_reach_refines:
  "sched_reach n s log \<Longrightarrow> n < 2 ^ 32 \<Longrightarrow> sched_ok n s \<and> agenda_run log (agenda_of s)"
proof (induction rule: sched_reach.induct)
  case sr_init
  have "agenda_of make_SchedulerImpl = (Map.empty :: u32 \<rightharpoonup> 'a job)"
    by (rule ext) (simp add: agenda_of_def make_SchedulerImpl_def)
  then show ?case using ar_init by (simp add: sched_ok_def make_SchedulerImpl_def hm_inv_def)
next
  case (sr_step n s log k es s')
  then show ?case using sched_step_refines[OF sr_step(2), of n log] by simp
qed

section \<open>Lemmas: ids are not used again\<close>

lemma scheduled_append [simp]: "scheduled (xs @ ys) = scheduled xs @ scheduled ys"
  by (induction xs) simp_all

lemma scheduled_in: "Schedule i f due interval \<in> set log \<Longrightarrow> i \<in> set (scheduled log)"
  by (induction log) (auto split: sched_event.splits)

lemma sched_reach_ids:
  "sched_reach n s log \<Longrightarrow> n < 2 ^ 32 \<Longrightarrow>
   distinct (scheduled log) \<and> (\<forall>i \<in> set (scheduled log). unat i \<le> n)"
proof (induction rule: sched_reach.induct)
  case (sr_step n s log k es s')
  then have old: "distinct (scheduled log)" "\<forall>i \<in> set (scheduled log). unat i \<le> n" by simp_all
  from sr_step(2) show ?case
  proof cases
    case (ss_schedule f task_name delay interval now i)
    have "sched_ok n s" using sched_reach_refines[OF sr_step(1)] sr_step(4) by simp
    then have "unat i = n + 1" using schedule_refines[OF _ _ ss_schedule(3)] sr_step(4) ss_schedule(1) by blast
    then show ?thesis using old ss_schedule by (auto simp: le_Suc_eq)
  qed (use old in \<open>auto simp: le_Suc_eq\<close>)
qed simp

lemma agenda_cancelled:
  "agenda_run log A \<Longrightarrow> log = log1 @ Cancel i # log2 \<Longrightarrow> i \<notin> set (scheduled log2) \<Longrightarrow>
   A i = None \<and> (\<forall>f now. Fire (Some i) f now \<notin> set log2)"
proof (induction arbitrary: log2 rule: agenda_run.induct)
  case (ar_step log A e A')
  show ?case
  proof (cases log2 rule: rev_cases)
    case Nil
    then show ?thesis using ar_step by (auto elim: agenda_cancelE)
  next
    case (snoc log2' e')
    then have e: "e' = e" "log = log1 @ Cancel i # log2'" using ar_step.prems(1) by auto
    then have IH: "A i = None" "\<forall>f now. Fire (Some i) f now \<notin> set log2'" using ar_step.IH[of log2'] ar_step.prems(2) snoc
      by simp_all
    from ar_step.hyps(2) show ?thesis
      by cases (use IH snoc e ar_step.prems(2) in auto)
  qed
qed simp

section \<open>A sample run\<close>

text \<open>A periodic task is scheduled, fires, and cancels itself in its callback.\<close>

definition sample_timer :: Timer where
  "sample_timer = \<lparr>tm_expiry = 5, tm_task = 0\<rparr>"

definition sample_scheduler :: "string SchedulerImpl" where
  "sample_scheduler = (snd (schedule make_SchedulerImpl ''heartbeat'' ''task'' 5 10 0))\<lparr>sd_state := STARTED\<rparr>"

definition sample_cancelled :: "string SchedulerImpl" where
  "sample_cancelled = execute_end (cancel_task (fst (execute_begin sample_scheduler sample_timer)) 1) sample_timer"

definition sample_log :: "string sched_event list" where
  "sample_log = [Schedule 1 ''heartbeat'' 5 10, Fire (Some 1) ''heartbeat'' 7, Cancel 1]"

lemma sample_scheduler_eq:
  "sample_scheduler = \<lparr>sd_state = STARTED, sd_context_stopped = False, sd_tasks = [(1, 0)],
     sd_objects = [\<lparr>tt_callback = ''heartbeat'', tt_interval = 10, tt_task_name = ''task''\<rparr>], sd_task_id = 1,
     sd_waits = [sample_timer], sd_executing = []\<rparr>"
  by (simp add: sample_scheduler_def schedule_def make_SchedulerImpl_def hm_emplace_def hm_contains_def sample_timer_def)

lemma sched_reach_next:
  "sched_reach n s log \<Longrightarrow> sched_step s k es s' \<Longrightarrow> n' = n + k \<Longrightarrow> log' = log @ es \<Longrightarrow> sched_reach n' s' log'"
  using sr_step by blast

lemma sample_run_reach: "sched_reach 1 sample_cancelled sample_log"
proof -
  let ?s1 = "snd (schedule make_SchedulerImpl ''heartbeat'' ''task'' 5 10 0)"
  let ?s3 = "fst (execute_begin sample_scheduler sample_timer)"
  have "sched_step make_SchedulerImpl 1 [Schedule 1 ''heartbeat'' 5 10] ?s1"
    using ss_schedule[of make_SchedulerImpl "''heartbeat''" "''task''" 5 10 0 1 ?s1]
    by (simp add: schedule_def make_SchedulerImpl_def)
  from sched_reach_next[OF sr_init this] have "sched_reach 1 ?s1 [Schedule 1 ''heartbeat'' 5 10]" by simp
  moreover have "sched_step ?s1 0 [] sample_scheduler"
    by (rule ss_start[of 4]) (simp add: sample_scheduler_def scheduler_start_def compare_exchange_def
        schedule_def make_SchedulerImpl_def)
  ultimately have "sched_reach 1 sample_scheduler [Schedule 1 ''heartbeat'' 5 10]" by (rule sched_reach_next) simp_all
  moreover have "sched_step sample_scheduler 0 [Fire (Some 1) ''heartbeat'' 7] ?s3"
    using ss_fire[of sample_scheduler sample_timer 7 ?s3 "''heartbeat''"]
    by (simp add: sample_scheduler_eq execute_begin_def lock_task_def sample_timer_def id_of_def)
  ultimately have "sched_reach 1 ?s3 [Schedule 1 ''heartbeat'' 5 10, Fire (Some 1) ''heartbeat'' 7]"
    by (rule sched_reach_next) simp_all
  then have "sched_reach 1 (cancel_task ?s3 1) sample_log"
    by (rule sched_reach_next[OF _ ss_cancel]) (simp_all add: sample_log_def)
  moreover have "sample_timer \<in> set (sd_executing (cancel_task ?s3 1))"
    by (simp add: sample_scheduler_eq execute_begin_def lock_task_def sample_timer_def cancel_task_def)
  ultimately show ?thesis unfolding sample_cancelled_def by (rule sched_reach_next[OF _ ss_end]) simp_all
qed

section \<open>Properties\<close>





end
