(* ===== verification/Address_Server.thy ===== *)
theory Address_Server
  imports Name_Server
begin

text \<open>
  The HTTP service that lists the name servers: the HTTP client (\<open>base/HttpClientImpl.cpp\<close>), the labels
  of the host (\<open>base/HostInfo.cpp\<close>), the requests to the address server (\<open>base/TopAddressing.cpp\<close>) and
  the endpoint a dynamic resolver is configured with (\<open>DynamicNameServerResolver.cpp\<close>). The HTTP library
  answers a request with a status and a body, or not at all. \<open>StrSplit\<close> and \<open>SimpleAtoi\<close> are the
  parameters \<open>split\<close> and \<open>atoi\<close>.
\<close>

section \<open>The HTTP client\<close>

datatype HttpProtocol = HTTP | HTTPS

definition protocol_prefix :: "HttpProtocol \<Rightarrow> string" where
  "protocol_prefix protocol = (case protocol of HTTP \<Rightarrow> ''http://'' | HTTPS \<Rightarrow> ''https://'')"

text \<open>A connection of the library is a number.\<close>

record HttpClientImpl =
  hc_clients :: "(string \<times> nat) list"
  hc_next :: nat

definition make_HttpClientImpl :: HttpClientImpl where
  "make_HttpClientImpl = \<lparr>hc_clients = [], hc_next = 0\<rparr>"

text \<open>What the library does: whether a connection is usable, and the answer to a request; None when the
  exchange fails.\<close>

record httplib =
  hl_is_valid :: "nat \<Rightarrow> bool"
  hl_Get :: "nat \<Rightarrow> string \<Rightarrow> (int \<times> string) option"

definition http_key :: "HttpProtocol \<Rightarrow> string \<Rightarrow> u16 \<Rightarrow> string" where
  "http_key protocol host port = protocol_prefix protocol @ host @ '':'' @ to_string_nat (unat port)"

definition http_connection :: "httplib \<Rightarrow> string \<Rightarrow> HttpClientImpl \<Rightarrow> HttpClientImpl \<times> nat" where
  "http_connection lib key hc =
     (let create = (hc\<lparr>hc_clients := hm_assign id key (hc_next hc) (hc_clients hc), hc_next := hc_next hc + 1\<rparr>, hc_next hc)
      in case hm_find id (hc_clients hc) key of
           None \<Rightarrow> create
         | Some c \<Rightarrow> if \<not> hl_is_valid lib c then create else (hc, c))"

text \<open>Status, headers and body that the callback gets before \<open>get\<close> returns. The headers are copied
  from the empty map itself. None: the exchange failed and its missing answer is dereferenced.\<close>

definition http_get ::
  "httplib \<Rightarrow> HttpProtocol \<Rightarrow> string \<Rightarrow> u16 \<Rightarrow> string \<Rightarrow> HttpClientImpl \<Rightarrow>
   (HttpClientImpl \<times> int \<times> (string \<times> string) list \<times> string) option" where
  "http_get lib protocol host port path hc =
     (case http_connection lib (http_key protocol host port) hc of (hc1, c) \<Rightarrow>
        if \<not> hl_is_valid lib c then Some (hc1, 400, [], [])
        else map_option (\<lambda>(status, body). (hc1, status, [], body)) (hl_Get lib c path))"

section \<open>Labels of the host\<close>

record HostInfo =
  hi_site :: string
  hi_unit :: string
  hi_app :: string
  hi_stage :: string

definition getEnv :: "(string \<Rightarrow> string option) \<Rightarrow> string \<Rightarrow> string \<Rightarrow> string" where
  "getEnv getenv env holder =
     (if env = [] then holder else case getenv env of None \<Rightarrow> holder | Some v \<Rightarrow> v)"

definition make_HostInfo :: "(string \<Rightarrow> string option) \<Rightarrow> HostInfo" where
  "make_HostInfo getenv = \<lparr>hi_site = getEnv getenv ''SIGMA_APP_SITE'' [], hi_unit = getEnv getenv ''SIGMA_APP_UNIT'' [],
     hi_app = getEnv getenv ''SIGMA_APP_NAME'' [], hi_stage = getEnv getenv ''SIGMA_APP_STAGE'' []\<rparr>"

definition hasHostInfo :: "HostInfo \<Rightarrow> bool" where
  "hasHostInfo hi = (hi_unit hi \<noteq> [] \<and> hi_stage hi \<noteq> [])"

definition ends_with :: "string \<Rightarrow> string \<Rightarrow> bool" where
  "ends_with s p = (length p \<le> length s \<and> drop (length s - length p) s = p)"

definition appendLabel :: "string \<Rightarrow> string \<Rightarrow> string \<Rightarrow> string" where
  "appendLabel query_string key val =
     (if val = [] then query_string
      else if ends_with query_string ''='' then query_string @ key @ '':'' @ val
      else query_string @ '','' @ key @ '':'' @ val)"

definition queryString :: "HostInfo \<Rightarrow> string" where
  "queryString hi =
     (if \<not> hasHostInfo hi then []
      else let q1 = appendLabel ''labels='' ''site'' (hi_site hi);
               q2 = appendLabel q1 ''unit'' (hi_unit hi);
               q3 = appendLabel q2 ''app'' (hi_app hi)
           in appendLabel q3 ''stage'' (hi_stage hi))"

section \<open>The address server\<close>

record TopAddressing =
  ta_host :: string
  ta_port :: i32
  ta_path :: string
  ta_host_info :: HostInfo

definition default_TopAddressing :: "HostInfo \<Rightarrow> TopAddressing" where
  "default_TopAddressing hi = \<lparr>ta_host = ''jmenv.tbsite.net'', ta_port = 8080, ta_path = ''/rocketmq/nsaddr'', ta_host_info = hi\<rparr>"

definition address_query :: "TopAddressing \<Rightarrow> string" where
  "address_query ta =
     ta_path ta @ (if CHR ''?'' \<in> set (ta_path ta) then ''&'' else ''?'')
       @ (if hasHostInfo (ta_host_info ta) then queryString (ta_host_info ta) else ''nofix=1'')"

text \<open>The body of an answer with status 200. The protocol of the request is always HTTP, and the port is
  cut to 16 bits.\<close>

definition fetchNameServerAddresses :: "httplib \<Rightarrow> TopAddressing \<Rightarrow> HttpClientImpl \<Rightarrow> (HttpClientImpl \<times> string option) option" where
  "fetchNameServerAddresses lib ta hc =
     map_option (\<lambda>(hc', code, headers, body). (hc', if code = 200 then Some body else None))
       (http_get lib HTTP (ta_host ta) (word_of_int (ta_port ta)) (address_query ta) hc)"

section \<open>The endpoint of a dynamic resolver\<close>

definition strip_prefix :: "string \<Rightarrow> string \<Rightarrow> string" where
  "strip_prefix s p = (if starts_with s p then drop (length p) s else s)"

text \<open>Whether the endpoint asks for TLS, and the address server it names. None: the port is no number
  and the process aborts.\<close>

definition parse_endpoint ::
  "(char \<Rightarrow> string \<Rightarrow> string list) \<Rightarrow> (string \<Rightarrow> i32 option) \<Rightarrow> HostInfo \<Rightarrow> string \<Rightarrow> (bool \<times> TopAddressing) option" where
  "parse_endpoint split atoi hi endpoint =
     (let ssl = starts_with endpoint ''https://'';
          remains = strip_prefix endpoint (if ssl then ''https://'' else ''http://'');
          top = (\<lambda>host port path. (ssl, \<lparr>ta_host = host, ta_port = port, ta_path = path, ta_host_info = hi\<rparr>))
      in if CHR '':'' \<in> set remains then
           let host = hd (split (CHR '':'') remains);
               remains1 = strip_prefix (strip_prefix remains host) '':'';
               segment = hd (split (CHR ''/'') remains1)
           in map_option (\<lambda>port. top host port (strip_prefix remains1 segment)) (atoi segment)
         else
           let host = hd (split (CHR ''/'') remains)
           in Some (top host (if ssl then 443 else 80) (strip_prefix remains host)))"

text \<open>One round of the resolver: the periodic task, and \<open>resolve\<close> when it has no list, fetch it. The
  HTTP client calls back before it returns.\<close>

definition resolver_fetch ::
  "(char \<Rightarrow> string \<Rightarrow> string list) \<Rightarrow> httplib \<Rightarrow> TopAddressing \<Rightarrow> HttpClientImpl \<times> NameServerResolver \<Rightarrow>
   (HttpClientImpl \<times> NameServerResolver) option" where
  "resolver_fetch split lib ta st = (case st of (hc, r) \<Rightarrow>
     map_option (\<lambda>(hc', answer). (hc', fetch split answer r)) (fetchNameServerAddresses lib ta hc))"

section \<open>What the code relies on\<close>

text \<open>\<open>StrSplit\<close>: at least one part, and the first one ends at the first delimiter.\<close>

definition splits :: "(char \<Rightarrow> string \<Rightarrow> string list) \<Rightarrow> bool" where
  "splits split = (\<forall>c s. split c s \<noteq> [] \<and> hd (split c s) = takeWhile (\<lambda>x. x \<noteq> c) s)"

text \<open>\<open>SimpleAtoi\<close> reads what \<open>std::to_string\<close> prints.\<close>

definition reads_decimal :: "(string \<Rightarrow> i32 option) \<Rightarrow> bool" where
  "reads_decimal atoi = (\<forall>n. 0 \<le> n \<longrightarrow> n < 2147483648 \<longrightarrow> atoi (to_string_int n) = Some n)"

section \<open>Reference definitions\<close>

definition labels :: "HostInfo \<Rightarrow> (string \<times> string) list" where
  "labels hi = filter (\<lambda>(k, v). v \<noteq> [])
     [(''site'', hi_site hi), (''unit'', hi_unit hi), (''app'', hi_app hi), (''stage'', hi_stage hi)]"

fun joined_labels :: "(string \<times> string) list \<Rightarrow> string" where
  "joined_labels [] = []"
| "joined_labels [(k, v)] = k @ '':'' @ v"
| "joined_labels ((k, v) # ls) = k @ '':'' @ v @ '','' @ joined_labels ls"

section \<open>Labels\<close>

lemma ends_with_last: "ends_with s [d] = (s \<noteq> [] \<and> last s = d)"
  by (cases s rule: rev_cases) (simp_all add: ends_with_def)

lemmas host_defs = hasHostInfo_def queryString_def labels_def Let_def

lemma join_labels_Cons: "ls \<noteq> [] \<Longrightarrow> joined_labels ((k, v) # ls) = k @ '':'' @ v @ '','' @ joined_labels ls"
  by (cases ls) simp_all

text \<open>The labels of a host are joined with commas, provided no value ends with an equals sign; after
  such a value the comma is left out.\<close>

theorem queryString_joins_labels:
  assumes "hasHostInfo hi" "list_all (\<lambda>v. \<not> ends_with v ''='') [hi_site hi, hi_unit hi, hi_app hi, hi_stage hi]"
  shows "queryString hi = ''labels='' @ joined_labels (labels hi)
     \<and> queryString (hi\<lparr>hi_site := v @ ''=''\<rparr>) \<noteq> ''labels='' @ joined_labels (labels (hi\<lparr>hi_site := v @ ''=''\<rparr>))"
proof
  show "queryString hi = ''labels='' @ joined_labels (labels hi)"
    using assms by (cases "hi_site hi = []"; cases "hi_app hi = []") (simp_all add: host_defs appendLabel_def ends_with_last)
  show "queryString (hi\<lparr>hi_site := v @ ''=''\<rparr>) \<noteq> ''labels='' @ joined_labels (labels (hi\<lparr>hi_site := v @ ''=''\<rparr>))"
    using assms by (cases "hi_app hi = []") (simp_all add: host_defs appendLabel_def ends_with_last)
qed

section \<open>Endpoints\<close>

lemma strip_prefix_append [simp]: "strip_prefix (p @ s) p = s"
  by (simp add: strip_prefix_def starts_with_def)

lemma to_string_nat_digits: "list_all (\<lambda>c. 48 \<le> (of_char c :: nat) \<and> of_char c \<le> (57 :: nat)) (to_string_nat n)"
proof (induction n rule: to_string_nat.induct)
  case (1 n)
  have "n mod 10 \<le> 9" by linarith
  then show ?case using 1 by (subst to_string_nat.simps) simp
qed

lemma to_string_nat_no: "\<lbrakk>(of_char c :: nat) < 48 \<or> 57 < (of_char c :: nat)\<rbrakk> \<Longrightarrow> c \<notin> set (to_string_nat n)"
  using to_string_nat_digits[of n] by (auto simp: list_all_iff)

lemma digit_value_char_of: "d < 10 \<Longrightarrow> digit_value (char_of (48 + d)) = int d" for d :: nat
proof -
  assume "d < 10"
  then have "(of_char (char_of (48 + d) :: char) :: nat) = 48 + d" by simp
  then have "(of_char (char_of (48 + d) :: char) :: int) = int (48 + d)" by (metis of_nat_of_char)
  then show ?thesis by (simp add: digit_value_def)
qed

lemma digits_value_to_string: "digits_value (to_string_nat n) = int n"
proof (induction n rule: to_string_nat.induct)
  case (1 n)
  show ?case
  proof (cases "n < 10")
    case True
    then show ?thesis by (subst to_string_nat.simps) (simp add: digits_value_def digit_value_char_of)
  next
    case False
    then have "digits_value (to_string_nat n) = 10 * int (n div 10) + int (n mod 10)"
      using 1 by (subst to_string_nat.simps) (simp add: digits_value_def digit_value_char_of)
    then show ?thesis by (metis mult_div_mod_eq of_nat_add of_nat_mult of_nat_numeral)
  qed
qed

lemma split_first: "\<lbrakk>splits split; c \<notin> set s; t = [] \<or> hd t = c\<rbrakk> \<Longrightarrow> hd (split c (s @ t)) = s"
  by (cases t) (auto simp: splits_def takeWhile_tail takeWhile_eq_all_conv)

text \<open>C29. Parsing an endpoint is the inverse of printing it: scheme, host, port and path are found again,
  with or without an explicit port.\<close>

theorem endpoint_round_trip:
  assumes "splits split" "reads_decimal atoi" "host \<noteq> []"
    and "CHR '':'' \<notin> set host" "CHR ''/'' \<notin> set host" "path = [] \<or> hd path = CHR ''/''"
    and "port < 65536"
  shows "parse_endpoint split atoi hi (protocol_prefix p @ host @ '':'' @ to_string_int (int port) @ path)
       = Some (p = HTTPS, \<lparr>ta_host = host, ta_port = int port, ta_path = path, ta_host_info = hi\<rparr>)
     \<and> (CHR '':'' \<notin> set path \<longrightarrow> parse_endpoint split atoi hi (protocol_prefix p @ host @ path)
       = Some (p = HTTPS, \<lparr>ta_host = host, ta_port = (case p of HTTP \<Rightarrow> 80 | HTTPS \<Rightarrow> 443), ta_path = path, ta_host_info = hi\<rparr>))"
proof -
  let ?port = "to_string_int (int port)"
  have ssl: "starts_with (protocol_prefix p @ s) ''https://'' = (p = HTTPS)"
    and strip: "strip_prefix (protocol_prefix p @ s) (if p = HTTPS then ''https://'' else ''http://'') = s" for s
    by (cases p; simp add: protocol_prefix_def starts_with_def strip_prefix_def)+
  have slash: "CHR ''/'' \<notin> set ?port" by (simp add: to_string_int_def to_string_nat_no)
  have 1: "hd (split CHR '':'' (host @ '':'' @ ?port @ path)) = host"
    using assms by (intro split_first) simp_all
  have 2: "hd (split CHR ''/'' (?port @ path)) = ?port" using assms slash by (intro split_first) simp_all
  have 3: "hd (split CHR ''/'' (host @ path)) = host" using assms by (intro split_first) simp_all
  have 4: "atoi ?port = Some (int port)" using assms by (simp add: reads_decimal_def)
  have 5: "strip_prefix ('':'' @ s) '':'' = s" for s by (rule strip_prefix_append)
  have "parse_endpoint split atoi hi (protocol_prefix p @ host @ '':'' @ ?port @ path)
      = Some (p = HTTPS, \<lparr>ta_host = host, ta_port = int port, ta_path = path, ta_host_info = hi\<rparr>)"
    unfolding parse_endpoint_def Let_def ssl strip 1 strip_prefix_append 5 2 4 by simp
  moreover have "CHR '':'' \<notin> set path \<Longrightarrow> parse_endpoint split atoi hi (protocol_prefix p @ host @ path)
      = Some (p = HTTPS, \<lparr>ta_host = host, ta_port = (case p of HTTP \<Rightarrow> 80 | HTTPS \<Rightarrow> 443), ta_path = path, ta_host_info = hi\<rparr>)"
    unfolding parse_endpoint_def Let_def ssl strip 3 strip_prefix_append using assms(4) by (cases p) simp_all
  ultimately show ?thesis by simp
qed

theorem endpoint_round_trip_witness:
  "let hi = make_HostInfo (\<lambda>env. None) in
   parse_endpoint (\<lambda>c s. [takeWhile (\<lambda>x. x \<noteq> c) s]) (\<lambda>s. Some (digits_value s)) hi (''https://host:81/path'')
   = Some (True, \<lparr>ta_host = ''host'', ta_port = 81, ta_path = ''/path'', ta_host_info = hi\<rparr>)"
proof -
  have "to_string_int (int 81) = ''81''" by code_simp
  moreover have "reads_decimal (\<lambda>s. Some (digits_value s))"
    by (simp add: reads_decimal_def to_string_int_def digits_value_to_string)
  ultimately show ?thesis
    using endpoint_round_trip[of "\<lambda>c s. [takeWhile (\<lambda>x. x \<noteq> c) s]" "\<lambda>s. Some (digits_value s)" "''host''" "''/path''" 81
        "make_HostInfo (\<lambda>env. None)" HTTPS]
    by (simp add: splits_def protocol_prefix_def Let_def)
qed

section \<open>Fetching the list\<close>

text \<open>What a fetch does in every case: an unusable connection and a status other than 200 leave the
  list alone, a status 200 replaces it by the parts of the body, and an exchange that fails is fatal.\<close>

theorem resolver_fetch_cases:
  assumes "splits split" "http_connection lib (http_key HTTP (ta_host ta) (word_of_int (ta_port ta))) hc = (hc', c)"
  shows "resolver_fetch split lib ta (hc, r) =
     (if \<not> hl_is_valid lib c then Some (hc', r)
      else case hl_Get lib c (address_query ta) of
        None \<Rightarrow> None
      | Some (status, body) \<Rightarrow> Some (hc', if status = 200 then r\<lparr>ns_list := split (CHR '';'') body\<rparr> else r))"
  using assms by (simp add: resolver_fetch_def fetchNameServerAddresses_def http_get_def fetch_def fetched_list_def
      onNameServerListFetched_def splits_def option.map_comp comp_def split_def split: option.splits)

text \<open>An endpoint that asks for TLS is fetched in clear: the connection the first fetch opens is a
  plain HTTP one, to the port of the endpoint.\<close>

theorem tls_endpoint_fetched_in_clear:
  assumes "splits split" "CHR '':'' \<notin> set host" "CHR ''/'' \<notin> set host" "path = [] \<or> hd path = CHR ''/''"
    and "CHR '':'' \<notin> set path" "hl_Get lib 0 = (\<lambda>path. Some (status, body))"
  shows "\<exists>ta r'. parse_endpoint split atoi hi (''https://'' @ host @ path) = Some (True, ta)
     \<and> resolver_fetch split lib ta (make_HttpClientImpl, r)
       = Some (\<lparr>hc_clients = [(''http://'' @ host @ '':443'', 0)], hc_next = 1\<rparr>, r')"
proof -
  let ?ta = "\<lparr>ta_host = host, ta_port = 443, ta_path = path, ta_host_info = hi\<rparr>"
  have 1: "hd (split CHR ''/'' (host @ path)) = host" using assms by (intro split_first) simp_all
  have 2: "starts_with (''https://'' @ s) ''https://''" for s by (simp add: starts_with_def)
  have "parse_endpoint split atoi hi (''https://'' @ host @ path) = Some (True, ?ta)"
    unfolding parse_endpoint_def Let_def if_P[OF 2] if_P[OF TrueI] eqTrueI[OF 2] strip_prefix_append 1 using assms by simp
  moreover have "to_string_nat 443 = ''443''" by code_simp
  then have "http_key HTTP host (word_of_int 443) = ''http://'' @ host @ '':443''"
    by (simp add: http_key_def protocol_prefix_def)
  then have "\<exists>r'. resolver_fetch split lib ?ta (make_HttpClientImpl, r)
       = Some (\<lparr>hc_clients = [(''http://'' @ host @ '':443'', 0)], hc_next = 1\<rparr>, r')"
    using assms(6) by (simp add: resolver_fetch_def fetchNameServerAddresses_def http_get_def http_connection_def
        make_HttpClientImpl_def Let_def)
  ultimately show ?thesis by blast
qed

theorem tls_endpoint_fetched_in_clear_witness:
  "let split = (\<lambda>c s. [takeWhile (\<lambda>x. x \<noteq> c) s]);
       lib = \<lparr>hl_is_valid = (\<lambda>c. True), hl_Get = (\<lambda>c path. Some (200, ''10.0.0.1:9876''))\<rparr>;
       hi = make_HostInfo (\<lambda>env. None)
   in \<exists>ta r'. parse_endpoint split (\<lambda>s. None) hi ''https://host/path'' = Some (True, ta)
     \<and> resolver_fetch split lib ta (make_HttpClientImpl, make_DynamicNameServerResolver)
       = Some (\<lparr>hc_clients = [(''http://host:443'', 0)], hc_next = 1\<rparr>, r')"
  using tls_endpoint_fetched_in_clear[of "\<lambda>c s. [takeWhile (\<lambda>x. x \<noteq> c) s]" "''host''" "''/path''"
      "\<lparr>hl_is_valid = (\<lambda>c. True), hl_Get = (\<lambda>c path. Some (200, ''10.0.0.1:9876''))\<rparr>" 200 "''10.0.0.1:9876''"
      "\<lambda>s. None" "make_HostInfo (\<lambda>env. None)" make_DynamicNameServerResolver]
  by (simp add: splits_def Let_def)

theorem resolver_fetch_cases_witness:
  "let split = (\<lambda>c s. [takeWhile (\<lambda>x. x \<noteq> c) s, tl (dropWhile (\<lambda>x. x \<noteq> c) s)]);
       lib = \<lparr>hl_is_valid = (\<lambda>c. True), hl_Get = (\<lambda>c path. Some (200, ''a;b''))\<rparr>;
       ta = (default_TopAddressing (make_HostInfo (\<lambda>env. None)))\<lparr>ta_port := 81\<rparr>
   in resolver_fetch split lib ta (make_HttpClientImpl, make_DynamicNameServerResolver)
      = Some (\<lparr>hc_clients = [(''http://jmenv.tbsite.net:81'', 0)], hc_next = 1\<rparr>,
          make_DynamicNameServerResolver\<lparr>ns_list := [''a'', ''b'']\<rparr>)"
proof -
  let ?split = "\<lambda>c s. [takeWhile (\<lambda>x. x \<noteq> c) s, tl (dropWhile (\<lambda>x. x \<noteq> c) s)] :: string list"
  let ?lib = "\<lparr>hl_is_valid = (\<lambda>c. True), hl_Get = (\<lambda>c path. Some (200, ''a;b''))\<rparr>"
  let ?ta = "(default_TopAddressing (make_HostInfo (\<lambda>env. None)))\<lparr>ta_port := 81\<rparr>"
  let ?hc = "\<lparr>hc_clients = [(''http://jmenv.tbsite.net:81'', 0)], hc_next = 1\<rparr>"
  have "to_string_nat 81 = ''81''" by code_simp
  then have "http_connection ?lib (http_key HTTP (ta_host ?ta) (word_of_int (ta_port ?ta))) make_HttpClientImpl = (?hc, 0)"
    by (simp add: http_connection_def http_key_def protocol_prefix_def default_TopAddressing_def make_HttpClientImpl_def Let_def)
  from resolver_fetch_cases[OF _ this, of ?split make_DynamicNameServerResolver]
  show ?thesis by (simp add: splits_def Let_def)
qed

end
