(* ===== verification/Client_Tasks.thy ===== *)
theory Client_Tasks
  imports Push_Consumer Scheduler Address_Server
begin

text \<open>
  The periodic tasks of a push consumer on the scheduler of its client manager: \<open>ClientImpl::start\<close>
  schedules the update of routes, \<open>PushConsumerImpl::start\<close> the scan of assignments, and the two
  \<open>shutdown\<close> methods cancel them by the handles they were given. A dynamic resolver of name servers has a
  scheduler of its own, which fetches the list.
\<close>

section \<open>Running the actions of a consumer on the scheduler\<close>

datatype client_job = UpdateRouteInfo | ScanAssignments

fun perform :: "time_point \<Rightarrow> push_action \<Rightarrow> client_job SchedulerImpl \<Rightarrow> client_job SchedulerImpl" where
  "perform now (ClientAction (ScheduleRouteUpdate delay interval)) s =
     snd (schedule s UpdateRouteInfo ''route_updater'' (int delay * 1000) (int interval * 1000) now)"
| "perform now (ScheduleScan delay interval) s =
     snd (schedule s ScanAssignments ''scan-assignment-task'' (int delay) (int interval) now)"
| "perform now (ClientAction (CancelTask handle)) s = cancel_task s handle"
| "perform now (CancelScan handle) s = cancel_task s handle"
| "perform now _ s = s"

text \<open>The handles are the ids that the scheduler draws next; the update of routes is only scheduled by
  the first start.\<close>

definition start_consumer ::
  "time_point \<Rightarrow> PushConsumerImpl \<Rightarrow> client_job SchedulerImpl \<Rightarrow> (PushConsumerImpl \<times> client_job SchedulerImpl) option" where
  "start_consumer now co s =
     map_option (\<lambda>(co', acts). (co', fold (perform now) acts s))
       (push_start (sd_task_id s + 1) (sd_task_id s + (if cl_state co = CREATED then 2 else 1)) co)"

definition stop_consumer ::
  "time_point \<Rightarrow> PushConsumerImpl \<Rightarrow> client_job SchedulerImpl \<Rightarrow> (PushConsumerImpl \<times> client_job SchedulerImpl) option" where
  "stop_consumer now co s = map_option (\<lambda>(co', acts). (co', fold (perform now) acts s)) (push_shutdown co)"

definition route_job :: "time_point \<Rightarrow> client_job job" where
  "route_job now = \<lparr>jb_callback = UpdateRouteInfo, jb_due = now + 10000, jb_interval = 30000\<rparr>"

definition scan_job :: "time_point \<Rightarrow> client_job job" where
  "scan_job now = \<lparr>jb_callback = ScanAssignments, jb_due = now + 100, jb_interval = 5000\<rparr>"

section \<open>The task of a dynamic resolver\<close>

datatype resolver_job = FetchServers

text \<open>The refresh interval is in milliseconds. None: there are no worker threads, or the fetch that runs
  has not returned.\<close>

definition resolver_start ::
  "nat \<Rightarrow> time_point \<Rightarrow> duration \<Rightarrow> resolver_job SchedulerImpl \<Rightarrow> resolver_job SchedulerImpl option" where
  "resolver_start hardware_concurrency now refresh_interval s =
     map_option (\<lambda>s1. snd (schedule s1 FetchServers ''DynamicNameServerResolver'' 0 refresh_interval now))
       (scheduler_start hardware_concurrency s)"

definition resolver_shutdown :: "resolver_job SchedulerImpl \<Rightarrow> resolver_job SchedulerImpl option" where
  "resolver_shutdown s =
     (if STARTED = sd_state s then shutdown_join (shutdown_stop (shutdown_clear s)) else Some s)"

section \<open>Lemmas\<close>

text \<open>From its start to its shutdown the resolver has one task, which fetches the list at once and then
  periodically.\<close>

lemma resolver_fetches:
  assumes "resolver_start cores now interval make_SchedulerImpl = Some s"
  shows "agenda_of s = [1 \<mapsto> \<lparr>jb_callback = FetchServers, jb_due = now, jb_interval = interval\<rparr>]
    \<and> (\<forall>s'. resolver_shutdown s = Some s' \<longrightarrow> agenda_of s' = Map.empty)"
proof -
  let ?s0 = "make_SchedulerImpl\<lparr>sd_state := STARTED\<rparr> :: resolver_job SchedulerImpl"
  have s: "s = snd (schedule ?s0 FetchServers ''DynamicNameServerResolver'' 0 interval now)"
    using assms by (auto simp: resolver_start_def scheduler_start_def make_SchedulerImpl_def compare_exchange_def split: if_splits)
  have ok: "sched_ok 0 ?s0" by (simp add: sched_ok_def make_SchedulerImpl_def hm_inv_def)
  have "agenda_of ?s0 = Map.empty" by (simp add: agenda_of_def make_SchedulerImpl_def fun_eq_iff)
  moreover have "fst (schedule ?s0 FetchServers ''DynamicNameServerResolver'' 0 interval now) = 1"
    by (simp add: schedule_def make_SchedulerImpl_def Let_def)
  ultimately have "agenda_of s = [1 \<mapsto> \<lparr>jb_callback = FetchServers, jb_due = now, jb_interval = interval\<rparr>]"
    using js.start_ok[OF ok, of FetchServers "''DynamicNameServerResolver''" 0 interval now 1 s] by (simp add: s prod_eq_iff)
  moreover have "agenda_of s' = Map.empty" if "resolver_shutdown s = Some s'" for s'
  proof -
    have "sd_state s = STARTED" by (simp add: s schedule_def Let_def)
    then have "sd_tasks s' = []"
      using that by (auto simp: resolver_shutdown_def shutdown_join_def shutdown_stop_def shutdown_clear_def
          compare_exchange_def split: if_splits)
    then show ?thesis by (simp add: agenda_of_def fun_eq_iff)
  qed
  ultimately show ?thesis by blast
qed

text \<open>The actions of the consume service do not touch the scheduler.\<close>

lemma perform_service [simp]: "fold (perform now) (map ServiceAction acts) s = s"
  by (induction acts) simp_all

lemma schedule_id: "fst (schedule s f name delay interval now) = sd_task_id s + 1"
  "sd_task_id (snd (schedule s f name delay interval now)) = sd_task_id s + 1"
  by (simp_all add: schedule_def Let_def)

lemma start_consumer_first:
  assumes "start_consumer now co s = Some (co', s')" "cl_state co = CREATED"
  shows "\<exists>i j s1. schedule s UpdateRouteInfo ''route_updater'' 10000 30000 now = (i, s1)
    \<and> schedule s1 ScanAssignments ''scan-assignment-task'' 100 5000 now = (j, s')
    \<and> cl_route_update_handle co' = i \<and> co_scan_assignment_handle co' = j \<and> cl_state co' = STARTED"
  using assms schedule_id[of s UpdateRouteInfo "''route_updater''" 10000 30000 now]
  by (auto simp: start_consumer_def push_start_def client_start_def compare_exchange_def Let_def schedule_id prod_eq_iff
      split: option.splits prod.splits if_splits)

lemma start_consumer_again:
  assumes "start_consumer now co s = Some (co', s')" "cl_state co = STARTED"
  shows "schedule s ScanAssignments ''scan-assignment-task'' 100 5000 now = (co_scan_assignment_handle co', s')
    \<and> cl_route_update_handle co' = cl_route_update_handle co"
  using assms
  by (auto simp: start_consumer_def push_start_def client_start_def compare_exchange_def Let_def schedule_id prod_eq_iff
      split: option.splits prod.splits if_splits)

lemma stop_consumer_cancels:
  assumes "stop_consumer now co s = Some (co', s')" "cl_route_update_handle co \<noteq> 0" "co_scan_assignment_handle co \<noteq> 0"
  shows "s' = cancel_task (cancel_task s (co_scan_assignment_handle co)) (cl_route_update_handle co)"
  using assms
  by (auto simp: stop_consumer_def push_shutdown_def client_shutdown_def Let_def split: option.splits prod.splits)

lemma sched_reach_ok: "sched_reach n s log \<Longrightarrow> n < 2 ^ 32 \<Longrightarrow> sched_ok n s"
  using sched_reach_refines by blast

section \<open>A sample consumer\<close>

definition sample_created :: PushConsumerImpl where
  "sample_created = (make_PushConsumerImpl (make_ClientConfig ''group'') ''client'')
     \<lparr>cl_name_server_resolver := Some sample_resolver, co_message_listener := Some STANDARD_LISTENER\<rparr>"

lemma sample_created_facts:
  "cl_state sample_created = CREATED" "cl_name_server_resolver sample_created = Some sample_resolver"
  "co_message_listener sample_created = Some STANDARD_LISTENER"
  by (simp_all add: sample_created_def make_PushConsumerImpl_def ClientImpl.extend_def make_ClientImpl_def)

lemma stop_consumer_returns:
  assumes "cl_name_server_resolver co \<noteq> None" "co_consume_message_service co = Some (k, svc)" "cs_state svc = STARTED"
  shows "stop_consumer now co s \<noteq> None"
  using assms
  by (auto simp: stop_consumer_def push_shutdown_def client_shutdown_def service_shutdown_def compare_exchange_def Let_def
      split: option.splits prod.splits)

lemma start_consumer_returns:
  assumes "cl_state co \<in> {CREATED, STARTED}" "cl_name_server_resolver co \<noteq> None" "co_message_listener co \<noteq> None"
    and "co_throttle_table co = []"
  shows "\<exists>co' s' k svc. start_consumer now co s = Some (co', s') \<and> cl_state co' = STARTED
    \<and> cl_name_server_resolver co' \<noteq> None \<and> co_message_listener co' \<noteq> None \<and> co_throttle_table co' = []
    \<and> co_consume_message_service co' = Some (k, svc) \<and> cs_state svc = STARTED"
  using assms
  by (auto simp: start_consumer_def push_start_def client_start_def compare_exchange_def Let_def service_start_def
      base_start_def make_ConsumeMessageService_def split: option.splits prod.splits if_splits)

lemma sample_start:
  "\<exists>co s. start_consumer 0 sample_created make_SchedulerImpl = Some (co, s) \<and> stop_consumer 50 co s \<noteq> None
    \<and> (\<exists>co' s'. start_consumer 7 co s = Some (co', s') \<and> stop_consumer 50 co' s' \<noteq> None)"
proof -
  have "co_throttle_table sample_created = []" by (simp add: sample_created_def make_PushConsumerImpl_def ClientImpl.extend_def)
  then obtain co s k svc where start: "start_consumer 0 sample_created make_SchedulerImpl = Some (co, s)" "cl_state co = STARTED"
    "cl_name_server_resolver co \<noteq> None" "co_message_listener co \<noteq> None" "co_throttle_table co = []"
    and svc: "co_consume_message_service co = Some (k, svc)" "cs_state svc = STARTED"
    using start_consumer_returns[of sample_created 0 make_SchedulerImpl] sample_created_facts by auto
  obtain co' s' k' svc' where again: "start_consumer 7 co s = Some (co', s')" "cl_name_server_resolver co' \<noteq> None"
    and svc': "co_consume_message_service co' = Some (k', svc')" "cs_state svc' = STARTED"
    using start_consumer_returns[of co 7 s] start by auto
  show ?thesis using start again stop_consumer_returns[OF start(3) svc] stop_consumer_returns[OF again(2) svc'] by blast
qed

section \<open>Properties\<close>



text \<open>A consumer that is started twice leaves a scan behind: the second start overwrites the handle of
  the first scan, which keeps running after the shutdown.\<close>

theorem second_start_leaks_scan:
  assumes "sched_reach n s log" "n + 3 < 2 ^ 32" "cl_state co = CREATED" "start_consumer now co s = Some (co1, s1)"
    and "start_consumer now' co1 s1 = Some (co2, s2)" "stop_consumer now'' co2 s2 = Some (co3, s3)"
  shows "\<exists>i. agenda_of s i = None \<and> agenda_of s3 i = Some (scan_job now)"
proof -
  obtain i j t where run: "schedule s UpdateRouteInfo ''route_updater'' 10000 30000 now = (i, t)"
    "schedule t ScanAssignments ''scan-assignment-task'' 100 5000 now = (j, s1)"
    and handles: "cl_route_update_handle co1 = i" "co_scan_assignment_handle co1 = j" "cl_state co1 = STARTED"
    using start_consumer_first[OF assms(4,3)] by blast
  have ok: "sched_ok n s" using sched_reach_ok[OF assms(1)] assms(2) by simp
  have t: "sched_ok (n + 1) t" "unat i = n + 1" "agenda_of t = (agenda_of s)(i \<mapsto> route_job now)"
    using js.start_ok[OF ok _ run(1)] assms(2) by (simp_all add: route_job_def)
  have s1: "sched_ok (n + 2) s1" "unat j = n + 2" "agenda_of t j = None" "agenda_of s1 = (agenda_of t)(j \<mapsto> scan_job now)"
    using js.start_ok[OF t(1) _ run(2)] assms(2) by (simp_all add: scan_job_def)
  obtain k where k: "schedule s1 ScanAssignments ''scan-assignment-task'' 100 5000 now' = (k, s2)"
    "co_scan_assignment_handle co2 = k" "cl_route_update_handle co2 = i"
    using start_consumer_again[OF assms(5) handles(3)] handles(1) by simp
  have s2: "sched_ok (n + 2 + 1) s2" "unat k = n + 2 + 1" "agenda_of s2 = (agenda_of s1)(k \<mapsto> scan_job now')"
    using js.start_ok[OF s1(1) _ k(1)] assms(2) by (simp_all add: scan_job_def)
  have distinct: "i \<noteq> j" "k \<noteq> j" "k \<noteq> 0" "i \<noteq> 0" using t(2) s1(2) s2(2) by auto
  have "s3 = cancel_task (cancel_task s2 k) i" using stop_consumer_cancels[OF assms(6)] k(2,3) distinct by simp
  then have "agenda_of s3 j = agenda_of s2 j" using js.stop_two[OF s2(1), of k i] distinct by simp
  then have "agenda_of s3 j = Some (scan_job now)" using s2(3) s1(4) distinct by simp
  moreover have "agenda_of s j = None" using s1(3) t(3) distinct by simp
  ultimately show ?thesis by blast
qed

theorem second_start_leaks_scan_witness:
  "\<exists>co s co' s' co'' s'' i. start_consumer 0 sample_created make_SchedulerImpl = Some (co, s)
    \<and> start_consumer 7 co s = Some (co', s') \<and> stop_consumer 50 co' s' = Some (co'', s'')
    \<and> agenda_of s'' i = Some (scan_job 0)"
proof -
  obtain co s co' s' where start: "start_consumer 0 sample_created make_SchedulerImpl = Some (co, s)"
    "start_consumer 7 co s = Some (co', s')" and "stop_consumer 50 co' s' \<noteq> None" using sample_start by auto
  then obtain co'' s'' where stop: "stop_consumer 50 co' s' = Some (co'', s'')" by auto
  show ?thesis using second_start_leaks_scan[OF sr_init _ sample_created_facts(1) start stop] start stop by auto
qed

end
