(* ===== verification/Default_Clients.thy ===== *)
theory Default_Clients
  imports Producer Push_Consumer Address_Server
begin

text \<open>
  The clients an application builds (\<open>DefaultMQProducer.cpp\<close>, \<open>DefaultMQPushConsumer.cpp\<close>): settings,
  and the sends that bind a message to a group, to a queue or to the queue a selector picks
  (\<open>MessageGroupQueueSelector.cpp\<close>). An exception thrown to the application is the \<open>Inl\<close> of its error
  code. A selector of the application is a parameter.
\<close>

section \<open>Settings\<close>

definition withNameServerResolver :: "NameServerResolver \<Rightarrow> ('cb, 'z) ClientImpl_scheme \<Rightarrow> ('cb, 'z) ClientImpl_scheme" where
  "withNameServerResolver r cl = cl\<lparr>cl_name_server_resolver := Some r\<rparr>"

definition setNamesrvAddr ::
  "(char \<Rightarrow> string \<Rightarrow> string list) \<Rightarrow> string \<Rightarrow> ('cb, 'z) ClientImpl_scheme \<Rightarrow> ('cb, 'z) ClientImpl_scheme" where
  "setNamesrvAddr split name_server_address_list cl =
     withNameServerResolver (make_StaticNameServerResolver split name_server_address_list) cl"

text \<open>The address server belongs to the resolver. None: the endpoint has no valid port. A push consumer
  ignores an empty endpoint.\<close>

definition producer_setDiscoveryEndpoint ::
  "(char \<Rightarrow> string \<Rightarrow> string list) \<Rightarrow> (string \<Rightarrow> i32 option) \<Rightarrow> HostInfo \<Rightarrow> string \<Rightarrow> ProducerImpl \<Rightarrow>
   (ProducerImpl \<times> TopAddressing) option" where
  "producer_setDiscoveryEndpoint split atoi hi endpoint pd =
     map_option (\<lambda>(ssl, ta). (withNameServerResolver make_DynamicNameServerResolver pd, ta))
       (parse_endpoint split atoi hi endpoint)"

definition consumer_setDiscoveryEndpoint ::
  "(char \<Rightarrow> string \<Rightarrow> string list) \<Rightarrow> (string \<Rightarrow> i32 option) \<Rightarrow> HostInfo \<Rightarrow> string \<Rightarrow> PushConsumerImpl \<Rightarrow>
   (PushConsumerImpl \<times> TopAddressing option) option" where
  "consumer_setDiscoveryEndpoint split atoi hi endpoint co =
     (if endpoint = [] then Some (co, None)
      else map_option (\<lambda>(ssl, ta). (withNameServerResolver make_DynamicNameServerResolver co, Some ta))
        (parse_endpoint split atoi hi endpoint))"

definition setSendMsgTimeout :: "duration \<Rightarrow> ProducerImpl \<Rightarrow> ProducerImpl" where
  "setSendMsgTimeout timeout pd = pd\<lparr>cl_config := (cl_config pd)\<lparr>cc_io_timeout := timeout\<rparr>\<rparr>"

definition setGroupName :: "string \<Rightarrow> ('cb, 'z) ClientImpl_scheme \<Rightarrow> ('cb, 'z) ClientImpl_scheme" where
  "setGroupName group_name cl = cl\<lparr>cl_config := (cl_config cl)\<lparr>cc_group_name := group_name\<rparr>\<rparr>"

text \<open>The id of a client is derived from its instance name, or else from the process.\<close>

definition setInstanceName ::
  "string \<Rightarrow> int \<Rightarrow> string \<Rightarrow> ('cb, 'z) ClientImpl_scheme \<Rightarrow> ('cb, 'z) ClientImpl_scheme" where
  "setInstanceName hostname pid instance_name cl =
     (let config = (cl_config cl)\<lparr>cc_instance_name := instance_name\<rparr>
      in cl\<lparr>cl_config := config, cl_client_id := clientId hostname pid config\<rparr>)"

definition setResourceNamespace :: "string \<Rightarrow> ('cb, 'z) ClientImpl_scheme \<Rightarrow> ('cb, 'z) ClientImpl_scheme" where
  "setResourceNamespace resource_namespace cl =
     cl\<lparr>cl_config := (cl_config cl)\<lparr>cc_resource_namespace := resource_namespace\<rparr>\<rparr>"

definition setRegion :: "string \<Rightarrow> ProducerImpl \<Rightarrow> ProducerImpl" where
  "setRegion region pd = pd\<lparr>cl_config := (cl_config pd)\<lparr>cc_region := region\<rparr>\<rparr>"

definition setMaxAttemptTimes :: "i32 \<Rightarrow> ProducerImpl \<Rightarrow> ProducerImpl" where
  "setMaxAttemptTimes max_attempt_times pd = pd\<lparr>pd_max_attempt_times := max_attempt_times\<rparr>"

definition set_compressBodyThreshold :: "u32 \<Rightarrow> ProducerImpl \<Rightarrow> ProducerImpl" where
  "set_compressBodyThreshold threshold pd = pd\<lparr>pd_compress_body_threshold := threshold\<rparr>"

definition setLocalTransactionStateChecker ::
  "(MQMessageExt \<Rightarrow> TransactionState) option \<Rightarrow> ProducerImpl \<Rightarrow> ProducerImpl" where
  "setLocalTransactionStateChecker checker pd = pd\<lparr>pd_transaction_state_checker := checker\<rparr>"

section \<open>Sending\<close>

definition bindMessageGroup :: "string \<Rightarrow> MQMessage \<Rightarrow> MQMessage" where
  "bindMessageGroup message_group m = m\<lparr>msg_message_group := message_group\<rparr>"

definition bindMessageQueue :: "MQMessageQueue \<Rightarrow> MQMessage \<Rightarrow> MQMessage" where
  "bindMessageQueue message_queue m = m\<lparr>msg_message_queue := message_queue\<rparr>"

text \<open>None: the assertion that there is a queue fails.\<close>

type_synonym selector = "MQMessageQueue list \<Rightarrow> MQMessage \<Rightarrow> MQMessageQueue option"

definition MessageGroupQueueSelector :: "(string \<Rightarrow> u64) \<Rightarrow> string \<Rightarrow> selector" where
  "MessageGroupQueueSelector hash message_group mqs msg =
     (if mqs = [] then None else Some (mqs ! (unat (hash message_group) mod length mqs)))"

text \<open>What a synchronous send needs of the world: the publish information, what \<open>listMessageQueue\<close> is
  handed, and the brokers. \<open>None\<close> as the result of a send: it never returns.\<close>

record call_world =
  cw_info :: "TopicPublishInfo option"
  cw_listed :: "ErrorCode \<times> TopicPublishInfo option"
  cw_brokers :: send_world

definition impl_send ::
  "send_env \<Rightarrow> u32 \<Rightarrow> ProducerImpl \<Rightarrow> call_world \<Rightarrow> MQMessage \<Rightarrow> u32 \<times> string list \<times> (ErrorCode + SendResult) option" where
  "impl_send env swq pd w message = send_sync env swq pd (cw_info w) (cw_listed w) (cw_brokers w) message"

definition send_in_group ::
  "send_env \<Rightarrow> u32 \<Rightarrow> ProducerImpl \<Rightarrow> call_world \<Rightarrow> MQMessage \<Rightarrow> string \<Rightarrow>
   u32 \<times> string list \<times> (ErrorCode + SendResult) option" where
  "send_in_group env swq pd w message message_group = impl_send env swq pd w (bindMessageGroup message_group message)"

definition send_to_queue ::
  "send_env \<Rightarrow> u32 \<Rightarrow> ProducerImpl \<Rightarrow> call_world \<Rightarrow> MQMessage \<Rightarrow> MQMessageQueue \<Rightarrow>
   u32 \<times> string list \<times> (ErrorCode + SendResult) option" where
  "send_to_queue env swq pd w msg mq = impl_send env swq pd w (bindMessageQueue mq msg)"

text \<open>\<open>listed\<close> is what the first of the two calls of \<open>listMessageQueue\<close> is handed. None: the selector
  aborts.\<close>

definition send_selected ::
  "send_env \<Rightarrow> u32 \<Rightarrow> ProducerImpl \<Rightarrow> ErrorCode \<times> TopicPublishInfo option \<Rightarrow> call_world \<Rightarrow> selector \<Rightarrow> MQMessage \<Rightarrow>
   (u32 \<times> string list \<times> (ErrorCode + SendResult) option) option" where
  "send_selected env swq pd listed w selector msg =
     (case listMessageQueue listed of (ec, list) \<Rightarrow>
        if failed ec then Some (swq, [], Some (Inl ec))
        else map_option (\<lambda>q. send_to_queue env swq pd w msg q) (selector list msg))"

definition send_async_to_queue ::
  "ProducerImpl \<Rightarrow> MQMessage \<Rightarrow> MQMessageQueue \<Rightarrow> nat \<Rightarrow> ErrorCode list \<times> (TopicPublishInfo + route_callback)" where
  "send_async_to_queue pd message message_queue cb = sendAsync pd (bindMessageQueue message_queue message) cb"

text \<open>The failures the callback has been told of, and how the send goes on; None: the selector aborts.\<close>

definition send_async_selected ::
  "ProducerImpl \<Rightarrow> ErrorCode \<times> TopicPublishInfo option \<Rightarrow> selector \<Rightarrow> MQMessage \<Rightarrow> nat \<Rightarrow>
   ErrorCode list \<times> (TopicPublishInfo + route_callback) option" where
  "send_async_selected pd listed selector message cb =
     (case listMessageQueue listed of (ec, list) \<Rightarrow>
        let told = (if failed ec then [ec] else []) @ (if list = [] then [ServiceUnavailable] else [])
        in case selector list message of
             None \<Rightarrow> (told, None)
           | Some q \<Rightarrow>
               (case send_async_to_queue pd message q cb of (told', rest) \<Rightarrow> (told @ told', Some rest)))"

text \<open>A one-way send waits for the answer like any other and drops it.\<close>

definition sendOneway ::
  "send_env \<Rightarrow> u32 \<Rightarrow> ProducerImpl \<Rightarrow> call_world \<Rightarrow> MQMessage \<Rightarrow> u32 \<times> string list \<times> bool" where
  "sendOneway env swq pd w message =
     (case impl_send env swq pd w message of (swq', targets, result) \<Rightarrow> (swq', targets, result \<noteq> None))"

definition sendOneway_to_queue ::
  "send_env \<Rightarrow> u32 \<Rightarrow> ProducerImpl \<Rightarrow> call_world \<Rightarrow> MQMessage \<Rightarrow> MQMessageQueue \<Rightarrow> u32 \<times> string list \<times> bool" where
  "sendOneway_to_queue env swq pd w message mq = sendOneway env swq pd w (bindMessageQueue mq message)"

definition sendOneway_selected ::
  "send_env \<Rightarrow> u32 \<Rightarrow> ProducerImpl \<Rightarrow> ErrorCode \<times> TopicPublishInfo option \<Rightarrow> call_world \<Rightarrow> selector \<Rightarrow> MQMessage \<Rightarrow>
   (ErrorCode + u32 \<times> string list \<times> bool) option" where
  "sendOneway_selected env swq pd listed w selector message =
     (case listMessageQueue listed of (ec, list) \<Rightarrow>
        if failed ec then Some (Inl ec)
        else if list = [] then Some (Inl ServiceUnavailable)
        else map_option (\<lambda>q. Inr (sendOneway_to_queue env swq pd w message q)) (selector list message))"

definition getTopicMessageQueueInfo :: "ErrorCode \<times> TopicPublishInfo option \<Rightarrow> ErrorCode + MQMessageQueue list" where
  "getTopicMessageQueueInfo listed =
     (case listMessageQueue listed of (ec, list) \<Rightarrow> if failed ec then Inl ec else Inr list)"

text \<open>Preparing a transaction: the message becomes transactional and is sent.\<close>

definition default_prepare ::
  "send_env \<Rightarrow> u32 \<Rightarrow> ProducerImpl \<Rightarrow> call_world \<Rightarrow> MQMessage \<Rightarrow> u32 \<times> string list \<times> (ErrorCode + TransactionImpl option) option" where
  "default_prepare env swq pd w message =
     (case impl_send env swq pd w (prepare_message message) of (swq', targets, result) \<Rightarrow>
        (swq', targets, map_option (\<lambda>r. case r of Inl ec \<Rightarrow> Inl ec | Inr sent \<Rightarrow> Inr (prepare (Inr sent))) result))"

section \<open>Lemmas\<close>

lemma first_equal_distinct:
  assumes "distinct (map mq_key list)" "q \<in> set list"
  shows "first_equal list q = [q]"
  using assms
proof (induction list)
  case (Cons e list)
  then show ?case
    by (cases "e = q") (auto simp: first_equal_def mq_eq_key image_iff)
qed simp

lemma validate_bound [simp]:
  "validate (bindMessageGroup g m) = validate m" "validate (bindMessageQueue q m) = validate m"
  by (simp_all add: validate_def bindMessageGroup_def bindMessageQueue_def getTopic_def bodyLength_def)

lemma getMessageQueueList_address: "q \<in> set (getMessageQueueList info) \<Longrightarrow> mq_service_address q \<noteq> []"
  by (auto simp: getMessageQueueList_def)

lemma send_queues_selected:
  assumes "isRunning pd" "list = getMessageQueueList info" "distinct (map mq_key list)" "q \<in> set list" "mq_bool q"
    and "msg_message_group m = []"
  shows "send_queues env swq pd (Some i) (Success, Some info) (bindMessageQueue q m) = (swq, Inr [q])"
proof -
  have "list \<noteq> []" using assms(4) by auto
  then show ?thesis using assms first_equal_distinct[OF assms(3,4)]
    by (simp add: send_queues_def ensureRunning_def listMessageQueue_def bindMessageQueue_def)
qed

lemma send_queues_grouped:
  assumes "isRunning pd" "getMessageQueueList info \<noteq> []" "g \<noteq> []"
  shows "send_queues env swq pd (Some i) (Success, Some info) (bindMessageGroup g m)
    = (swq, Inr [queue_of_group (se_hash env) g (getMessageQueueList info)])"
  using assms by (simp add: send_queues_def ensureRunning_def listMessageQueue_def bindMessageGroup_def)

lemma run_send_same:
  assumes "validate m" "validate m'" "qs \<noteq> []" "0 < n" "\<forall>q\<in>set qs. mq_service_address q \<noteq> []"
    and "\<forall>k<n. answer_of sw (int k) \<noteq> None" "access_key (cl_config pd) \<noteq> None"
  shows "run_send n env pd sw (send0 env pd m qs (int n)) = run_send n env pd sw (send0 env pd m' qs (int n))"
proof -
  define answers where "answers k = the (answer_of sw (int k))" for k :: nat
  have "run_send n env pd sw (send0 env pd x qs (int n)) = send_spec env qs n answers 0" if "validate x" for x
    using that assms(3-7) by (auto simp: send0_def answers_def intro!: run_send_spec)
  then show ?thesis using assms(1,2) by simp
qed

lemma distinct_sort_key: "distinct (map f (sort_key f xs)) = distinct (map f xs)"
  by (intro mset_eq_imp_distinct_iff) simp

lemma bindMessageGroup_msg [simp]: "msg_message_group (bindMessageGroup g m) = g"
  by (simp add: bindMessageGroup_def)

section \<open>Properties\<close>

text \<open>C25. Sending with the selector of a message group is the same as sending in that group: the same
  queue is called the same number of times and the same result is returned, provided the route does
  not change in between and its queues are distinct.\<close>

theorem selector_agrees_with_group:
  assumes "isRunning pd" "cw_info w = Some i" "cw_listed w = (Success, Some info)"
    and "list = getMessageQueueList info" "list \<noteq> []" "distinct (map mq_key list)" "list_all mq_bool list"
    and "msg_message_group m = []" "g \<noteq> []" "validate m" "pd_max_attempt_times pd = int n" "0 < n"
    and "\<forall>k<n. answer_of (cw_brokers w) (int k) \<noteq> None" "access_key (cl_config pd) \<noteq> None"
  shows "send_selected env swq pd (cw_listed w) w (MessageGroupQueueSelector (se_hash env) g) m
     = Some (send_in_group env swq pd w m g)"
proof -
  let ?q = "queue_of_group (se_hash env) g list"
  have q: "?q \<in> set list" using assms(5) by (simp add: queue_of_group_def)
  have "run_send n env pd (cw_brokers w) (send0 env pd (bindMessageQueue ?q m) [?q] (int n))
      = run_send n env pd (cw_brokers w) (send0 env pd (bindMessageGroup g m) [?q] (int n))"
    using assms(10,12,13,14) q getMessageQueueList_address assms(4) by (intro run_send_same) auto
  moreover have "send_queues env swq pd (Some i) (Success, Some info) (bindMessageQueue ?q m) = (swq, Inr [?q])"
    using assms q by (intro send_queues_selected) (simp_all add: list_all_iff)
  moreover have "send_queues env swq pd (Some i) (Success, Some info) (bindMessageGroup g m) = (swq, Inr [?q])"
    using assms send_queues_grouped by simp
  ultimately have "send_to_queue env swq pd w m ?q = send_in_group env swq pd w m g"
    using assms(2,3,11) by (simp add: send_to_queue_def send_in_group_def impl_send_def send_sync_def)
  moreover have "MessageGroupQueueSelector (se_hash env) g list m = Some ?q"
    using assms(5) by (simp add: MessageGroupQueueSelector_def queue_of_group_def)
  ultimately show ?thesis using assms(3,4) by (simp add: send_selected_def listMessageQueue_def)
qed

definition sample_call_world :: call_world where
  "sample_call_world = \<lparr>cw_info = Some sample_info, cw_listed = (Success, Some sample_info), cw_brokers = sample_send_world\<rparr>"

theorem selector_agrees_with_group_witness:
  "send_selected sample_send_env 7 sample_producer (Success, Some sample_info) sample_call_world
     (MessageGroupQueueSelector (se_hash sample_send_env) ''orders'') (bindMessageGroup [] sample_grouped)
   = Some (send_in_group sample_send_env 7 sample_producer sample_call_world (bindMessageGroup [] sample_grouped) ''orders'')"
proof -
  have listed: "getMessageQueueList sample_info = sort_key mq_key sample_targets"
    by (simp add: getMessageQueueList_def sample_targets_def sample_info_list sample_partition_def asMessageQueue_def
        Broker_serviceAddress_def address_def sample_broker_def make_ServiceAddress_def)
  have "distinct (map mq_key sample_targets)" "list_all mq_bool sample_targets"
    by (simp_all add: sample_targets_def sample_info_list sample_partition_def asMessageQueue_def sample_broker_def
        mq_key_def mq_bool_def make_MQMessageQueue_def)
  then have "distinct (map mq_key (getMessageQueueList sample_info))" "list_all mq_bool (getMessageQueueList sample_info)"
    by (simp_all add: listed distinct_sort_key list_all_iff)
  moreover have "getMessageQueueList sample_info \<noteq> []" using sample_targets_facts(1) by (simp add: listed flip: set_empty)
  moreover have "isRunning sample_producer" "pd_max_attempt_times sample_producer = int 3"
    by (simp_all add: isRunning_def sample_producer_def make_ProducerImpl_def ClientImpl.extend_def make_ClientImpl_def
        MAX_SEND_MESSAGE_ATTEMPT_TIMES_def)
  ultimately show ?thesis
    using selector_agrees_with_group[of sample_producer sample_call_world sample_info sample_info
        "getMessageQueueList sample_info" "bindMessageGroup [] sample_grouped" "''orders''" 3 sample_send_env 7]
    by (simp add: sample_call_world_def sample_answers sample_validate bindMessageGroup_msg)
qed

text \<open>An asynchronous send with a selector tells its callback twice when the route is not found, and
  then goes on: the selector is run on an empty list, where the one of the library aborts, and with
  another one the message is sent to whatever queue it made up.\<close>

theorem selector_send_told_twice:
  assumes "failed ec"
  shows "send_async_selected pd (ec, ptr) (MessageGroupQueueSelector hash g) m cb = ([ec, ServiceUnavailable], None)
     \<and> send_async_selected pd (ec, ptr) (\<lambda>list msg. Some q) m cb
       = ([ec, ServiceUnavailable] @ fst (send_async_to_queue pd m q cb), Some (snd (send_async_to_queue pd m q cb)))"
  using assms
  by (simp add: send_async_selected_def listMessageQueue_def MessageGroupQueueSelector_def split: prod.splits)

theorem selector_send_told_twice_witness:
  "fst (send_async_selected sample_producer (NotFound, None) (MessageGroupQueueSelector (\<lambda>_. 5) ''orders'') sample_grouped 0)
     = [NotFound, ServiceUnavailable]"
  using selector_send_told_twice[of NotFound sample_producer None "\<lambda>_. 5" "''orders''" sample_grouped 0]
  by (simp add: failed_def)

end
