(* ===== verification/Consumer_Facade.thy ===== *)
theory Consumer_Facade
  imports Default_Clients
begin

text \<open>
  The push consumer as an application configures it (\<open>DefaultMQPushConsumer.cpp\<close>): any sequence of
  settings and subscriptions, the start, and what the consume service then does with its messages.
\<close>

section \<open>Settings\<close>

datatype consumer_setting =
    Subscribe time_point string string ExpressionType
  | RegisterMessageListener MessageListenerType
  | SetNamesrvAddr string
  | SetGroupName string
  | SetConsumeThreadCount i32
  | SetInstanceName string
  | SetConsumeMessageBatchMaxSize i32
  | SetCustomExecutor bool
  | SetThrottle string u32
  | SetResourceNamespace string
  | SetCredentials Credentials
  | SetMessageModel MessageModel

text \<open>Of a provider the credentials it returns are kept. The batch size arrives as a signed integer and is
  converted.\<close>

primrec apply_setting ::
  "(char \<Rightarrow> string \<Rightarrow> string list) \<Rightarrow> string \<Rightarrow> int \<Rightarrow> consumer_setting \<Rightarrow> PushConsumerImpl \<Rightarrow> PushConsumerImpl" where
  "apply_setting split hostname pid (Subscribe now topic expression ty) co = subscribe now co topic expression ty"
| "apply_setting split hostname pid (RegisterMessageListener listener) co = registerMessageListener co (Some listener)"
| "apply_setting split hostname pid (SetNamesrvAddr name_srv) co = setNamesrvAddr split name_srv co"
| "apply_setting split hostname pid (SetGroupName group_name) co = setGroupName group_name co"
| "apply_setting split hostname pid (SetConsumeThreadCount thread_count) co = set_consumeThreadPoolSize co thread_count"
| "apply_setting split hostname pid (SetInstanceName instance_name) co = setInstanceName hostname pid instance_name co"
| "apply_setting split hostname pid (SetConsumeMessageBatchMaxSize batch_size) co = set_consumeBatchSize co (word_of_int batch_size)"
| "apply_setting split hostname pid (SetCustomExecutor executor) co = co\<lparr>co_custom_executor := executor\<rparr>"
| "apply_setting split hostname pid (SetThrottle topic threshold) co = setThrottle co topic threshold"
| "apply_setting split hostname pid (SetResourceNamespace resource_namespace) co = setResourceNamespace resource_namespace co"
| "apply_setting split hostname pid (SetCredentials credentials) co = co\<lparr>cl_config := (cl_config co)\<lparr>cc_credentials := Some credentials\<rparr>\<rparr>"
| "apply_setting split hostname pid (SetMessageModel message_model) co = co\<lparr>co_message_model := message_model\<rparr>"

definition configured ::
  "(char \<Rightarrow> string \<Rightarrow> string list) \<Rightarrow> string \<Rightarrow> int \<Rightarrow> string \<Rightarrow> consumer_setting list \<Rightarrow> PushConsumerImpl" where
  "configured split hostname pid group_name settings =
     (let config = make_ClientConfig group_name
      in fold (apply_setting split hostname pid) settings (make_PushConsumerImpl config (clientId hostname pid config)))"

text \<open>Specification: a setting that an \<open>int\<close> of the application can hold, and the first subscription of a
  topic.\<close>

definition int_setting :: "consumer_setting \<Rightarrow> bool" where
  "int_setting s = (case s of SetConsumeThreadCount n \<Rightarrow> n < 2 ^ 31 | _ \<Rightarrow> True)"

fun first_subscription :: "string \<Rightarrow> consumer_setting list \<Rightarrow> FilterExpression option" where
  "first_subscription topic [] = None"
| "first_subscription topic (s # ss) = (case s of
       Subscribe now t expression ty \<Rightarrow>
         if t = topic then Some (make_FilterExpression expression ty now) else first_subscription topic ss
     | _ \<Rightarrow> first_subscription topic ss)"

section \<open>Lemmas\<close>

lemmas setting_defs = subscribe_def registerMessageListener_def setNamesrvAddr_def withNameServerResolver_def setGroupName_def
  set_consumeThreadPoolSize_def setInstanceName_def set_consumeBatchSize_def setThrottle_def setResourceNamespace_def Let_def

lemma thread_count_positive: "\<lbrakk>(1 :: int) \<le> n; n < 2 ^ 31\<rbrakk> \<Longrightarrow> (of_int n :: u32) \<noteq> 0"
  by (simp add: word_of_int_eq_0_iff zdvd_not_zless)

lemma setting_keeps_sizes:
  "\<lbrakk>int_setting s; co_consume_batch_size co \<noteq> 0; co_consume_thread_pool_size co \<noteq> 0\<rbrakk>
   \<Longrightarrow> co_consume_batch_size (apply_setting split hostname pid s co) \<noteq> 0
     \<and> co_consume_thread_pool_size (apply_setting split hostname pid s co) \<noteq> 0"
  by (cases s) (auto simp: setting_defs int_setting_def thread_count_positive)

lemma settings_keep_sizes:
  "\<lbrakk>list_all int_setting ss; co_consume_batch_size co \<noteq> 0; co_consume_thread_pool_size co \<noteq> 0\<rbrakk>
   \<Longrightarrow> co_consume_batch_size (fold (apply_setting split hostname pid) ss co) \<noteq> 0
     \<and> co_consume_thread_pool_size (fold (apply_setting split hostname pid) ss co) \<noteq> 0"
  by (induction ss arbitrary: co) (simp_all add: setting_keeps_sizes)

lemma configured_sizes:
  "list_all int_setting ss \<Longrightarrow> co_consume_batch_size (configured split hostname pid group_name ss) \<noteq> 0
    \<and> co_consume_thread_pool_size (configured split hostname pid group_name ss) \<noteq> 0"
  by (simp add: configured_def Let_def settings_keep_sizes make_PushConsumerImpl_def ClientImpl.extend_def
      DEFAULT_CONSUME_THREAD_POOL_SIZE_def DEFAULT_CONSUME_MESSAGE_BATCH_SIZE_def)

lemma push_start_batch_size:
  "\<lbrakk>push_start r s co = Some (co', acts); co_consume_batch_size co \<noteq> 0\<rbrakk> \<Longrightarrow> co_consume_batch_size co' \<noteq> 0"
  by (auto simp: push_start_def client_start_def Let_def split: option.splits prod.splits if_splits)

text \<open>\<open>emplace\<close> keeps the first expression of a topic.\<close>

lemma setting_subscription:
  "getFilterExpression (apply_setting split hostname pid s co) topic
   = (case getFilterExpression co topic of Some e \<Rightarrow> Some e | None \<Rightarrow> first_subscription topic [s])"
  by (cases s) (auto simp: setting_defs getFilterExpression_def hm_contains_def hm.find_emplace split: option.splits)

lemma first_subscription_Cons:
  "first_subscription topic (s # ss)
   = (case first_subscription topic [s] of Some e \<Rightarrow> Some e | None \<Rightarrow> first_subscription topic ss)"
  by (cases s) simp_all

lemma settings_subscription:
  "getFilterExpression (fold (apply_setting split hostname pid) ss co) topic
   = (case getFilterExpression co topic of Some e \<Rightarrow> Some e | None \<Rightarrow> first_subscription topic ss)"
proof (induction ss arbitrary: co)
  case (Cons s ss)
  show ?case
    by (simp only: fold.simps comp_apply Cons.IH setting_subscription first_subscription_Cons[of _ s ss] split: option.split) auto
qed (simp split: option.splits)

section \<open>Properties\<close>

text \<open>C19. However an application configures and starts a push consumer, the standard service takes the
  cache of a queue apart into batches: the loop ends, no batch is empty or larger than the configured
  size, and together they are the cached messages in order.\<close>

theorem configured_consumer_partitions:
  assumes "list_all int_setting settings"
    and "push_start r s (configured split hostname pid group_name settings) = Some (co, acts)"
  shows "\<exists>ts. standard_submitConsumeTask (Some (push_view co)) pq = Some (pq\<lparr>pq_cached_messages := []\<rparr>, ts)
    \<and> concat (map task_messages ts) = pq_cached_messages pq
    \<and> list_all (\<lambda>t. task_messages t \<noteq> [] \<and> length (task_messages t) \<le> unat (co_consume_batch_size co)) ts"
proof -
  have "pc_consumeBatchSize (push_view co) \<noteq> 0"
    using push_start_batch_size[OF assms(2)] configured_sizes[OF assms(1)] by (simp add: push_view_def)
  from standard_submit_loop_facts[OF this, of pq "[]"] obtain bs where
    bs: "standard_submit_loop (push_view co) pq [] = Some (pq\<lparr>pq_cached_messages := []\<rparr>,
        map (ConsumeTask (if pc_customExecutor (push_view co) then CustomExecutor else ThreadPool)) bs)"
    "concat bs = pq_cached_messages pq" "\<forall>b\<in>set bs. b \<noteq> [] \<and> length b \<le> unat (pc_consumeBatchSize (push_view co))"
    by auto
  then show ?thesis
    by (intro exI[of _ "map (ConsumeTask (if pc_customExecutor (push_view co) then CustomExecutor else ThreadPool)) bs"])
      (simp add: standard_submitConsumeTask_def comp_def list_all_iff, simp add: push_view_def)
qed

theorem configured_consumer_partitions_witness:
  "\<exists>co acts. push_start 1 2 (configured (\<lambda>_ s. [s]) ''host'' 7 ''group''
       [SetNamesrvAddr ''ns:80'', RegisterMessageListener STANDARD_LISTENER, SetConsumeMessageBatchMaxSize 2]) = Some (co, acts)
     \<and> (\<exists>ts. standard_submitConsumeTask (Some (push_view co)) (w_pq (sample_world CLUSTERING))
          = Some ((w_pq (sample_world CLUSTERING))\<lparr>pq_cached_messages := []\<rparr>, ts) \<and> concat (map task_messages ts) = sample_batch)"
proof -
  let ?ss = "[SetNamesrvAddr ''ns:80'', RegisterMessageListener STANDARD_LISTENER, SetConsumeMessageBatchMaxSize 2]"
  have "push_start 1 2 (configured (\<lambda>_ s. [s]) ''host'' 7 ''group'' ?ss) \<noteq> None"
    by (simp add: configured_def setting_defs push_start_def client_start_def compare_exchange_def make_PushConsumerImpl_def
        ClientImpl.extend_def make_ClientImpl_def split: prod.splits)
  then obtain co acts where start: "push_start 1 2 (configured (\<lambda>_ s. [s]) ''host'' 7 ''group'' ?ss) = Some (co, acts)" by auto
  have "list_all int_setting ?ss" by (simp add: int_setting_def)
  from configured_consumer_partitions[OF this start, of "w_pq (sample_world CLUSTERING)"] start show ?thesis
    by (auto simp: sample_cached)
qed

text \<open>Only the first subscription of a topic counts: a consumer filters the messages of a topic with the
  first expression it was subscribed with, whatever settings and subscriptions follow.\<close>

theorem first_subscription_wins:
  "getFilterExpression (configured split hostname pid group_name settings) topic = first_subscription topic settings"
  by (simp add: configured_def Let_def settings_subscription)
    (simp add: getFilterExpression_def hm_contains_def make_PushConsumerImpl_def ClientImpl.extend_def)

end
