(* ===== verification/Exporter.thy ===== *)
theory Exporter
  imports Signing
begin

text \<open>
  The exporter of trace spans (\<open>tracing/exporters/OtlpExporter.cpp\<close>): a handler that OpenCensus calls
  with finished spans keeps a table of export clients, one for each host, and sends the spans to one
  of them. A span of OpenCensus is a record of what the handler reads. An iterator that is moved past
  the end of the table, or a failed assertion, is None. The hash map is listed in the order in which it
  is iterated.
\<close>

section \<open>Spans\<close>

datatype AttributeValue = StringValue string | IntValue i64 | BoolValue bool

type_synonym attributes = "(string \<times> AttributeValue) list"

record Annotation =
  an_timestamp :: i64
  an_description :: string
  an_attributes :: attributes

record MessageEvent =
  me_timestamp :: i64

record SpanLink =
  sl_trace_id :: string
  sl_span_id :: string
  sl_attributes :: attributes

text \<open>Ids are in hexadecimal digits and times in nanoseconds since the epoch, as they are read.\<close>

record SpanData =
  sd_trace_id :: string
  sd_span_id :: string
  sd_parent_span_id :: string
  sd_name :: string
  sd_start_time :: i64
  sd_end_time :: i64
  sd_message_events :: "MessageEvent list"
  sd_message_events_dropped :: nat
  sd_annotations :: "Annotation list"
  sd_annotations_dropped :: nat
  sd_links :: "SpanLink list"
  sd_num_attributes_dropped :: nat
  sd_attributes :: attributes
  sd_status_ok :: bool
  sd_status_message :: string

text \<open>The request: a key-value pair whose value was never set has None.\<close>

type_synonym key_values = "(string \<times> AttributeValue option) list"

record Span_Event =
  ev_time_unix_nano :: i64
  ev_attributes :: key_values

record Span_Link =
  lk_trace_id :: string
  lk_span_id :: string
  lk_attributes :: key_values

record trace_Span =
  ts_trace_id :: string
  ts_span_id :: string
  ts_parent_span_id :: string
  ts_name :: string
  ts_start_time_unix_nano :: i64
  ts_end_time_unix_nano :: i64
  ts_events :: "Span_Event list"
  ts_dropped_events_count :: nat
  ts_links :: "Span_Link list"
  ts_dropped_links_count :: nat
  ts_attributes :: key_values
  ts_status :: "(bool \<times> string)"

definition SPAN_ANNOTATION_AWAIT_CONSUMPTION :: string where
  "SPAN_ANNOTATION_AWAIT_CONSUMPTION = ''__await_consumption''"
definition SPAN_ANNOTATION_ATTR_START_TIME :: string where
  "SPAN_ANNOTATION_ATTR_START_TIME = ''__start_time''"

text \<open>\<open>nanos\<close> is the product of the milliseconds and \<open>1e6\<close> in floating point, converted back.\<close>

fun adjust_start :: "(i64 \<Rightarrow> i64) \<Rightarrow> attributes \<Rightarrow> i64 \<Rightarrow> i64 option" where
  "adjust_start nanos [] t = Some t"
| "adjust_start nanos ((k, v) # as) t =
     (if k = SPAN_ANNOTATION_ATTR_START_TIME
      then (case v of IntValue n \<Rightarrow> adjust_start nanos as (nanos n) | _ \<Rightarrow> None)
      else adjust_start nanos as t)"

text \<open>The loop over annotations; the values of their attributes are created but not attached.\<close>

fun convert_annotations ::
  "(i64 \<Rightarrow> i64) \<Rightarrow> Annotation list \<Rightarrow> i64 \<times> Span_Event list \<Rightarrow> (i64 \<times> Span_Event list) option" where
  "convert_annotations nanos [] acc = Some acc"
| "convert_annotations nanos (a # as) (t, evs) =
     (if an_description a = SPAN_ANNOTATION_AWAIT_CONSUMPTION
      then (case adjust_start nanos (an_attributes a) t of
              None \<Rightarrow> None
            | Some t' \<Rightarrow> convert_annotations nanos as (t', evs))
      else convert_annotations nanos as
        (t, evs @ [\<lparr>ev_time_unix_nano = an_timestamp a, ev_attributes = map (\<lambda>(k, v). (k, None)) (an_attributes a)\<rparr>]))"

definition convert_link :: "SpanLink \<Rightarrow> Span_Link" where
  "convert_link l = \<lparr>lk_trace_id = sl_trace_id l, lk_span_id = sl_span_id l,
     lk_attributes = map (\<lambda>(k, v). (k, Some v)) (sl_attributes l)\<rparr>"

text \<open>The events made of message events are not attached either, only their count is.\<close>

definition convert_span :: "(i64 \<Rightarrow> i64) \<Rightarrow> SpanData \<Rightarrow> trace_Span option" where
  "convert_span nanos span = map_option (\<lambda>(start, evs).
     \<lparr>ts_trace_id = sd_trace_id span, ts_span_id = sd_span_id span, ts_parent_span_id = sd_parent_span_id span,
      ts_name = sd_name span, ts_start_time_unix_nano = start, ts_end_time_unix_nano = sd_end_time span,
      ts_events = evs,
      ts_dropped_events_count = (if sd_annotations span \<noteq> [] then sd_annotations_dropped span
        else if sd_message_events span \<noteq> [] then sd_message_events_dropped span else 0),
      ts_links = map convert_link (sd_links span),
      ts_dropped_links_count = sd_num_attributes_dropped span,
      ts_attributes = map (\<lambda>(k, v). (k, None)) (sd_attributes span),
      ts_status = (if sd_status_ok span then (True, []) else (False, sd_status_message span))\<rparr>)
     (convert_annotations nanos (sd_annotations span) (sd_start_time span, []))"

section \<open>Exporter and handler\<close>

datatype TraceMode = OFF | DEBUG | GRPC

record OtlpExporter =
  ox_client_manager :: bool
  ox_client_config :: ClientConfig
  ox_hosts :: "string list"
  ox_mode :: TraceMode

definition make_OtlpExporter :: "bool \<Rightarrow> ClientConfig \<Rightarrow> OtlpExporter" where
  "make_OtlpExporter client_manager config =
     \<lparr>ox_client_manager = client_manager, ox_client_config = config, ox_hosts = [], ox_mode = OFF\<rparr>"

definition updateHosts :: "OtlpExporter \<Rightarrow> string list \<Rightarrow> OtlpExporter" where
  "updateHosts ox hosts = ox\<lparr>ox_hosts := hosts\<rparr>"

definition set_traceMode :: "OtlpExporter \<Rightarrow> TraceMode \<Rightarrow> OtlpExporter" where
  "set_traceMode ox mode = ox\<lparr>ox_mode := mode\<rparr>"

record OtlpExporterHandler =
  oh_clients_map :: "(string \<times> nat) list"
  oh_round_robin :: u32
  oh_stopped :: bool
  oh_channels :: nat

definition make_OtlpExporterHandler :: OtlpExporterHandler where
  "make_OtlpExporterHandler = \<lparr>oh_clients_map = [], oh_round_robin = 0, oh_stopped = False, oh_channels = 0\<rparr>"

definition handler_shutdown :: "OtlpExporterHandler \<Rightarrow> OtlpExporterHandler" where
  "handler_shutdown oh = oh\<lparr>oh_stopped := True\<rparr>"

text \<open>The loop that removes clients: its body moves the iterator on, and so does its header, which
  skips the next entry and runs past the end when there is none.\<close>

fun remove_stale :: "string list \<Rightarrow> (string \<times> nat) list \<Rightarrow> (string \<times> nat) list option" where
  "remove_stale hosts [] = Some []"
| "remove_stale hosts [e] = None"
| "remove_stale hosts (e # skipped # es) =
     map_option (\<lambda>r. (if list_all (\<lambda>h. fst e \<noteq> h) hosts then [] else [e]) @ skipped # r) (remove_stale hosts es)"

text \<open>A channel is a number; the client manager creates it. The round robin counter belongs to the thread
  that exports.\<close>

definition add_client :: "bool \<Rightarrow> string \<Rightarrow> OtlpExporterHandler \<Rightarrow> OtlpExporterHandler" where
  "add_client client_manager host oh =
     (if \<not> hm_contains id (oh_clients_map oh) host \<and> client_manager
      then oh\<lparr>oh_clients_map := hm_emplace id host (oh_channels oh) (oh_clients_map oh), oh_channels := oh_channels oh + 1\<rparr>
      else oh)"

definition syncExportClients :: "OtlpExporter option \<Rightarrow> OtlpExporterHandler \<Rightarrow> OtlpExporterHandler option" where
  "syncExportClients exporter oh = (case exporter of
       None \<Rightarrow> Some oh
     | Some ox \<Rightarrow> map_option (\<lambda>m. fold (add_client (ox_client_manager ox)) (ox_hosts ox) (oh\<lparr>oh_clients_map := m\<rparr>))
         (remove_stale (ox_hosts ox) (oh_clients_map oh)))"

text \<open>The call that leaves: the host, its channel, headers and spans; deadline in seconds.\<close>

datatype export_call = ExportCall string nat metadata "trace_Span list" nat

fun convert_spans :: "(i64 \<Rightarrow> i64) \<Rightarrow> SpanData list \<Rightarrow> trace_Span list option" where
  "convert_spans nanos [] = Some []"
| "convert_spans nanos (s # ss) = (case convert_span nanos s of
       None \<Rightarrow> None
     | Some t \<Rightarrow> map_option (\<lambda>ts. t # ts) (convert_spans nanos ss))"

definition Export ::
  "(string \<Rightarrow> string \<Rightarrow> byte list) \<Rightarrow> string \<Rightarrow> (i64 \<Rightarrow> i64) \<Rightarrow> OtlpExporter option \<Rightarrow> SpanData list \<Rightarrow> OtlpExporterHandler \<Rightarrow>
   (OtlpExporterHandler \<times> export_call option) option" where
  "Export hmac_sha1 date_time nanos exporter spans oh = (case exporter of
       None \<Rightarrow> Some (oh, None)
     | Some ox \<Rightarrow> (case ox_mode ox of
         OFF \<Rightarrow> Some (oh, None)
       | DEBUG \<Rightarrow> Some (oh, None)
       | GRPC \<Rightarrow> (case syncExportClients exporter oh of
           None \<Rightarrow> None
         | Some oh1 \<Rightarrow>
             if oh_clients_map oh1 = [] then Some (oh1, None)
             else let index = unat (oh_round_robin oh1) mod length (oh_clients_map oh1);
                      oh2 = oh1\<lparr>oh_round_robin := oh_round_robin oh1 + 1\<rparr>
                  in case oh_clients_map oh1 ! index of (host, channel) \<Rightarrow>
                       map_option (\<lambda>ts. (oh2, Some (ExportCall host channel
                         (sign hmac_sha1 date_time (ox_client_config ox) []) ts 3))) (convert_spans nanos spans))))"

section \<open>Lemmas\<close>

lemma remove_stale_odd: "remove_stale hosts m = None \<longleftrightarrow> odd (length m)"
  by (induction hosts m rule: remove_stale.induct) auto

text \<open>Every second client of the table stays.\<close>

lemma remove_stale_keeps:
  assumes "remove_stale hosts m = Some m'" "odd k" "k < length m"
  shows "m ! k \<in> set m'"
  using assms
proof (induction hosts m arbitrary: m' k rule: remove_stale.induct)
  case (3 hosts e skipped es)
  then obtain r where r: "remove_stale hosts es = Some r" and m': "m' = (if list_all (\<lambda>h. fst e \<noteq> h) hosts then [] else [e]) @ skipped # r"
    by auto
  consider "k = 1" | k' where "k = Suc (Suc k')" "odd k'" using 3(3) by (cases k; cases "k - 1") auto
  then show ?case
  proof cases
    case 2
    then show ?thesis using 3(1)[OF r, of k'] 3(4) by (auto simp: m')
  qed (simp add: m')
qed simp_all

lemma add_client_hosts:
  assumes "distinct (map fst (oh_clients_map oh) @ hosts)"
  shows "map fst (oh_clients_map (fold (add_client True) hosts oh)) = map fst (oh_clients_map oh) @ hosts"
  using assms
proof (induction hosts arbitrary: oh)
  case (Cons h hosts)
  let ?oh = "add_client True h oh"
  have "hm_find id (oh_clients_map oh) h = None" using Cons.prems by (simp add: hm_find_None)
  then have "map fst (oh_clients_map ?oh) = map fst (oh_clients_map oh) @ [h]"
    by (simp add: add_client_def hm_contains_def hm_emplace_def)
  then show ?case using Cons.IH[of ?oh] Cons.prems by simp
qed simp

lemma convert_annotations_values:
  assumes "convert_annotations nanos as (t, evs) = Some (t', evs')"
    and "\<forall>e \<in> set evs. \<forall>kv \<in> set (ev_attributes e). snd kv = None"
  shows "\<forall>e \<in> set evs'. \<forall>kv \<in> set (ev_attributes e). snd kv = None"
  using assms
proof (induction nanos as "(t, evs)" arbitrary: t evs rule: convert_annotations.induct)
  case (2 nanos a as t evs)
  show ?case
  proof (cases "an_description a = SPAN_ANNOTATION_AWAIT_CONSUMPTION")
    case True
    then show ?thesis using 2(1)[OF True _ _ 2(4)] 2(3) by (auto split: option.splits)
  next
    case False
    show ?thesis by (rule 2(2)[OF False]) (use 2(3,4) False in auto)
  qed
qed simp

section \<open>Samples\<close>

definition sample_span :: SpanData where
  "sample_span = \<lparr>sd_trace_id = ''1a'', sd_span_id = ''2b'', sd_parent_span_id = [], sd_name = ''send'', sd_start_time = 5,
     sd_end_time = 9, sd_message_events = [\<lparr>me_timestamp = 6\<rparr>], sd_message_events_dropped = 0, sd_annotations = [],
     sd_annotations_dropped = 0, sd_links = [], sd_num_attributes_dropped = 0, sd_attributes = [(''topic'', StringValue ''T'')],
     sd_status_ok = True, sd_status_message = []\<rparr>"

definition sample_exporter :: OtlpExporter where
  "sample_exporter = set_traceMode (updateHosts (make_OtlpExporter True (make_ClientConfig ''g'')) [''ipv4:b:1'']) GRPC"

section \<open>Properties\<close>

text \<open>An exporter with an odd number of hosts, one for example, exports only once: the second export
  moves an iterator past the end of the table of clients.\<close>

theorem second_export_past_end:
  assumes "ox_mode ox = GRPC" "ox_client_manager ox" "distinct (ox_hosts ox)" "odd (length (ox_hosts ox))"
    and "Export hm dt nanos (Some ox) spans make_OtlpExporterHandler = Some (oh, call)"
  shows "Export hm dt' nanos (Some ox) spans' oh = None"
proof -
  let ?oh = "fold (add_client True) (ox_hosts ox) make_OtlpExporterHandler"
  have "map fst (oh_clients_map ?oh) = ox_hosts ox"
    using add_client_hosts[of make_OtlpExporterHandler "ox_hosts ox"] assms(3) by (simp add: make_OtlpExporterHandler_def)
  moreover have "oh_clients_map oh = oh_clients_map ?oh"
    using assms(1,2,5) by (auto simp: Export_def syncExportClients_def make_OtlpExporterHandler_def Let_def
        split: if_splits prod.splits option.splits)
  ultimately have "odd (length (oh_clients_map oh))" using assms(4) by (metis length_map)
  then show ?thesis using assms(1) by (simp add: Export_def syncExportClients_def iffD2[OF remove_stale_odd])
qed

theorem second_export_past_end_witness:
  "\<exists>oh call. Export (\<lambda>_ _. []) [] id (Some sample_exporter) [sample_span] make_OtlpExporterHandler = Some (oh, call)
    \<and> Export (\<lambda>_ _. []) [] id (Some sample_exporter) [] oh = None"
proof -
  have ox: "ox_mode sample_exporter = GRPC" "ox_client_manager sample_exporter" "ox_hosts sample_exporter = [''ipv4:b:1'']"
    by (simp_all add: sample_exporter_def set_traceMode_def updateHosts_def make_OtlpExporter_def)
  obtain oh call where first: "Export (\<lambda>_ _. []) [] id (Some sample_exporter) [sample_span] make_OtlpExporterHandler = Some (oh, call)"
    using ox by (auto simp: Export_def syncExportClients_def make_OtlpExporterHandler_def add_client_def hm_contains_def
        hm_emplace_def convert_span_def sample_span_def Let_def)
  show ?thesis using second_export_past_end[OF ox(1,2) _ _ first, of "[]" "[]"] ox(3) first by auto
qed

text \<open>What an exported span loses: the values of its attributes and of the attributes of its events,
  and all its message events; the attributes of links keep their values.\<close>

theorem exported_span_loses_values:
  assumes "convert_span nanos span = Some t"
  shows "map fst (ts_attributes t) = map fst (sd_attributes span) \<and> (\<forall>kv \<in> set (ts_attributes t). snd kv = None)
    \<and> (\<forall>e \<in> set (ts_events t). \<forall>kv \<in> set (ev_attributes e). snd kv = None)
    \<and> (sd_annotations span = [] \<longrightarrow> ts_events t = [])
    \<and> (\<forall>l \<in> set (ts_links t). \<forall>kv \<in> set (lk_attributes l). snd kv \<noteq> None)"
proof -
  obtain start evs where conv: "convert_annotations nanos (sd_annotations span) (sd_start_time span, []) = Some (start, evs)"
    and t: "ts_events t = evs" "ts_attributes t = map (\<lambda>(k, v). (k, None)) (sd_attributes span)"
      "ts_links t = map convert_link (sd_links span)"
    using assms by (auto simp: convert_span_def)
  have "\<forall>e \<in> set evs. \<forall>kv \<in> set (ev_attributes e). snd kv = None" using convert_annotations_values[OF conv] by simp
  then show ?thesis using conv by (auto simp: t convert_link_def)
qed

theorem exported_span_loses_values_witness:
  "\<exists>t. convert_span id sample_span = Some t \<and> ts_attributes t = [(''topic'', None)] \<and> ts_events t = []"
proof -
  obtain t where t: "convert_span id sample_span = Some t" by (simp add: convert_span_def sample_span_def)
  have "ts_attributes t = [(''topic'', None)]" using t by (auto simp: convert_span_def sample_span_def)
  then show ?thesis using exported_span_loses_values[OF t] t by (auto simp: sample_span_def)
qed

end
