(* ===== verification/Rpc_Calls.thy ===== *)
theory Rpc_Calls
  imports Client_Manager Scheduler
begin

text \<open>
  Remote calls from beginning to end: the context of a call (\<open>InvocationContext.h\<close>) as every operation
  of \<open>ClientManagerImpl.cpp\<close> prepares it, the start of the call (\<open>RpcClientImpl.cpp\<close>), the thread that
  polls the completion queue and the thread pool that runs the callbacks. gRPC completes a call it has
  been given at most once, with a flag that tells whether the call was alive.
\<close>

section \<open>Contexts\<close>

record 'cb InvocationContext =
  ic_request_id :: string
  ic_metadata :: metadata
  ic_remote_address :: string
  ic_deadline :: "time_point option"
  ic_callback :: "'cb option"

definition REQUEST_ID_KEY :: string where "REQUEST_ID_KEY = ''x-mq-request-id''"

definition make_InvocationContext :: "string \<Rightarrow> 'cb InvocationContext" where
  "make_InvocationContext request_id =
     \<lparr>ic_request_id = request_id, ic_metadata = [(REQUEST_ID_KEY, request_id)], ic_remote_address = [],
      ic_deadline = None, ic_callback = None\<rparr>"

definition addMetadata :: "metadata \<Rightarrow> 'cb InvocationContext \<Rightarrow> 'cb InvocationContext" where
  "addMetadata metadata ctx = ctx\<lparr>ic_metadata := ic_metadata ctx @ metadata\<rparr>"

definition set_deadline :: "time_point \<Rightarrow> 'cb InvocationContext \<Rightarrow> 'cb InvocationContext" where
  "set_deadline deadline ctx = ctx\<lparr>ic_deadline := Some deadline\<rparr>"

definition addressed :: "string \<Rightarrow> string \<Rightarrow> 'cb \<Rightarrow> 'cb InvocationContext" where
  "addressed request_id target cb =
     (make_InvocationContext request_id)\<lparr>ic_remote_address := target, ic_callback := Some cb\<rparr>"

text \<open>What an operation is called with, and the id that its context draws.\<close>

record 'cb call_args =
  ca_request_id :: string
  ca_target :: string
  ca_metadata :: metadata
  ca_deadline :: time_point
  ca_callback :: 'cb

definition healthCheck_context :: "'cb call_args \<Rightarrow> 'cb InvocationContext" where
  "healthCheck_context a =
     addMetadata (ca_metadata a) (set_deadline (ca_deadline a) (addressed (ca_request_id a) (ca_target a) (ca_callback a)))"

definition heartbeat_context :: "'cb call_args \<Rightarrow> 'cb InvocationContext" where
  "heartbeat_context a =
     set_deadline (ca_deadline a) (addMetadata (ca_metadata a) (addressed (ca_request_id a) (ca_target a) (ca_callback a)))"

text \<open>A send has no deadline.\<close>

definition send_context :: "'cb call_args \<Rightarrow> 'cb InvocationContext" where
  "send_context a = addMetadata (ca_metadata a) (addressed (ca_request_id a) (ca_target a) (ca_callback a))"

definition resolveRoute_context :: "'cb call_args \<Rightarrow> 'cb InvocationContext" where
  "resolveRoute_context a =
     addMetadata (ca_metadata a) (set_deadline (ca_deadline a) (addressed (ca_request_id a) (ca_target a) (ca_callback a)))"

definition queryAssignment_context :: "'cb call_args \<Rightarrow> 'cb InvocationContext" where
  "queryAssignment_context a =
     set_deadline (ca_deadline a) (addMetadata (ca_metadata a) (addressed (ca_request_id a) (ca_target a) (ca_callback a)))"

definition receiveMessage_context :: "'cb call_args \<Rightarrow> 'cb InvocationContext" where
  "receiveMessage_context a =
     (let ctx = addressed (ca_request_id a) (ca_target a) (ca_callback a)
      in set_deadline (ca_deadline a) (if ca_metadata a \<noteq> [] then addMetadata (ca_metadata a) ctx else ctx))"

definition ack_context :: "'cb call_args \<Rightarrow> 'cb InvocationContext" where
  "ack_context a =
     addMetadata (ca_metadata a) (set_deadline (ca_deadline a) (addressed (ca_request_id a) (ca_target a) (ca_callback a)))"

definition nack_context :: "'cb call_args \<Rightarrow> 'cb InvocationContext" where
  "nack_context a =
     addMetadata (ca_metadata a) (set_deadline (ca_deadline a) (addressed (ca_request_id a) (ca_target a) (ca_callback a)))"

definition endTransaction_context :: "'cb call_args \<Rightarrow> 'cb InvocationContext" where
  "endTransaction_context a =
     set_deadline (ca_deadline a) (addMetadata (ca_metadata a) (addressed (ca_request_id a) (ca_target a) (ca_callback a)))"

definition multiplexingCall_context :: "'cb call_args \<Rightarrow> 'cb InvocationContext" where
  "multiplexingCall_context a =
     set_deadline (ca_deadline a) (addMetadata (ca_metadata a) (addressed (ca_request_id a) (ca_target a) (ca_callback a)))"

text \<open>The query of an offset leaves its metadata out.\<close>

definition queryOffset_context :: "'cb call_args \<Rightarrow> 'cb InvocationContext" where
  "queryOffset_context a = set_deadline (ca_deadline a) (addressed (ca_request_id a) (ca_target a) (ca_callback a))"

definition pullMessage_context :: "'cb call_args \<Rightarrow> 'cb InvocationContext" where
  "pullMessage_context a =
     addMetadata (ca_metadata a) (set_deadline (ca_deadline a) (addressed (ca_request_id a) (ca_target a) (ca_callback a)))"

definition forwardMessageToDeadLetterQueue_context :: "'cb call_args \<Rightarrow> 'cb InvocationContext" where
  "forwardMessageToDeadLetterQueue_context a =
     addMetadata (ca_metadata a) (set_deadline (ca_deadline a) (addressed (ca_request_id a) (ca_target a) (ca_callback a)))"

datatype rpc_method =
    HealthCheck | Heartbeat | SendMessage | QueryRoute | QueryAssignment | ReceiveMessage | AckMessage | NackMessage
  | EndTransaction | MultiplexingCall | QueryOffset | PullMessage | ForwardMessageToDeadLetterQueue

primrec call_context :: "rpc_method \<Rightarrow> 'cb call_args \<Rightarrow> 'cb InvocationContext" where
  "call_context HealthCheck = healthCheck_context"
| "call_context Heartbeat = heartbeat_context"
| "call_context SendMessage = send_context"
| "call_context QueryRoute = resolveRoute_context"
| "call_context QueryAssignment = queryAssignment_context"
| "call_context ReceiveMessage = receiveMessage_context"
| "call_context AckMessage = ack_context"
| "call_context NackMessage = nack_context"
| "call_context EndTransaction = endTransaction_context"
| "call_context MultiplexingCall = multiplexingCall_context"
| "call_context QueryOffset = queryOffset_context"
| "call_context PullMessage = pullMessage_context"
| "call_context ForwardMessageToDeadLetterQueue = forwardMessageToDeadLetterQueue_context"

section \<open>Calls\<close>

text \<open>Contexts live on the heap, at addresses that are not used again, until their completion deletes
  them. \<open>rw_calls\<close> are the calls gRPC has been given, \<open>rw_completion_queue\<close> the completed ones, and
  \<open>rw_called\<close> records whose callback was run.\<close>

record ('m, 'cb) context_world =
  rw_heap :: "nat \<Rightarrow> 'cb InvocationContext option"
  rw_next :: nat
  rw_calls :: "(nat \<times> 'm) list"
  rw_completion_queue :: "(nat \<times> bool) list"
  rw_called :: "nat list"

record 'cb rpc_world = "(rpc_method, 'cb) context_world" +
  rw_pool :: "(nat \<times> bool) ThreadPoolImpl"

definition async_call :: "rpc_method \<Rightarrow> 'cb call_args \<Rightarrow> 'cb rpc_world \<Rightarrow> 'cb rpc_world" where
  "async_call m a w =
     w\<lparr>rw_heap := (rw_heap w)(rw_next w := Some (call_context m a)), rw_next := rw_next w + 1,
       rw_calls := rw_calls w @ [(rw_next w, m)]\<rparr>"

text \<open>One round of the polling thread; None: nothing has completed.\<close>

definition pollCompletionQueue :: "'cb rpc_world \<Rightarrow> 'cb rpc_world option" where
  "pollCompletionQueue w = (case rw_completion_queue w of
       [] \<Rightarrow> None
     | (ctx, ok) # rest \<Rightarrow> Some (w\<lparr>rw_completion_queue := rest, rw_pool := pool_submit (rw_pool w) (ctx, ok)\<rparr>))"

text \<open>\<open>onCompletion\<close> runs the callback and deletes the context. What the callback throws is caught only
  if the call was alive. None: the context is gone, or an exception ends the process.\<close>

definition onCompletion ::
  "('cb \<Rightarrow> bool) \<Rightarrow> nat \<Rightarrow> bool \<Rightarrow> ('m, 'cb, 'z) context_world_scheme \<Rightarrow> ('m, 'cb, 'z) context_world_scheme option" where
  "onCompletion throws ctx ok w = (case rw_heap w ctx of
       None \<Rightarrow> None
     | Some c \<Rightarrow>
         if \<not> ok \<and> (case ic_callback c of Some cb \<Rightarrow> throws cb | None \<Rightarrow> False) then None
         else Some (w\<lparr>rw_called := (if ic_callback c = None then rw_called w else rw_called w @ [ctx]),
                      rw_heap := (rw_heap w)(ctx := None)\<rparr>))"

definition run_callback :: "('cb \<Rightarrow> bool) \<Rightarrow> 'cb rpc_world \<Rightarrow> 'cb rpc_world option" where
  "run_callback throws w = (case pool_run (rw_pool w) of
       None \<Rightarrow> None
     | Some (pool, (ctx, ok)) \<Rightarrow> onCompletion throws ctx ok (w\<lparr>rw_pool := pool\<rparr>))"

definition make_rpc_world :: "(nat \<times> bool) ThreadPoolImpl \<Rightarrow> 'cb rpc_world" where
  "make_rpc_world pool =
     \<lparr>rw_heap = (\<lambda>_. None), rw_next = 0, rw_calls = [], rw_completion_queue = [], rw_called = [], rw_pool = pool\<rparr>"

inductive rpc_step :: "('cb \<Rightarrow> bool) \<Rightarrow> 'cb rpc_world \<Rightarrow> 'cb rpc_world \<Rightarrow> bool" for throws where
  rpc_call: "rpc_step throws w (async_call m a w)"
| rpc_complete: "rw_calls w = xs @ (ctx, m) # ys \<Longrightarrow>
    rpc_step throws w (w\<lparr>rw_calls := xs @ ys, rw_completion_queue := rw_completion_queue w @ [(ctx, ok)]\<rparr>)"
| rpc_poll: "pollCompletionQueue w = Some w' \<Longrightarrow> rpc_step throws w w'"
| rpc_run: "run_callback throws w = Some w' \<Longrightarrow> rpc_step throws w w'"

inductive rpc_steps :: "('cb \<Rightarrow> bool) \<Rightarrow> 'cb rpc_world \<Rightarrow> 'cb rpc_world \<Rightarrow> bool" for throws where
  rpc_refl: "rpc_steps throws w w"
| rpc_more: "rpc_steps throws w w' \<Longrightarrow> rpc_step throws w' w'' \<Longrightarrow> rpc_steps throws w w''"

text \<open>The shutdown of the client manager stops the thread pool while calls are under way.\<close>

definition shutdown_pool :: "'cb rpc_world \<Rightarrow> 'cb rpc_world" where
  "shutdown_pool w = w\<lparr>rw_pool := pool_shutdown (rw_pool w)\<rparr>"

section \<open>Calls of a client manager\<close>

text \<open>Every operation asks \<open>getRpcClient\<close> for the client of its target, which creates one where there is
  none or its channel is shut down, and starts the call on the channel of that client. Only the query of
  a route does not ask for heartbeats. \<open>getRpcClient\<close> never returns a null pointer, so the branches for
  it are not reached.\<close>

definition manager_call ::
  "(nat \<Rightarrow> bool) \<Rightarrow> rpc_method \<Rightarrow> 'cb call_args \<Rightarrow> 'c ClientManagerImpl \<times> 'cb rpc_world
    \<Rightarrow> ('c ClientManagerImpl \<times> 'cb rpc_world) \<times> RpcClient" where
  "manager_call ok m a s =
     (case getRpcClient ok (ca_target a) (m \<noteq> QueryRoute) (fst s) of (cm, client) \<Rightarrow> ((cm, async_call m a (snd s)), client))"

text \<open>Calls, what becomes of them, and the removal of clients in any order. The log holds the target and
  the channel of every call.\<close>

inductive wire_reach ::
  "('cb \<Rightarrow> bool) \<Rightarrow> ('rc, 'z) ClientImpl_scheme ClientManagerImpl \<times> 'cb rpc_world \<Rightarrow> (string \<times> nat) list \<Rightarrow> bool"
  for throws where
  wire_init: "wire_reach throws (make_ClientManagerImpl ns, make_rpc_world pool) []"
| wire_call: "\<lbrakk>wire_reach throws s log; manager_call ok m a s = (s', client)\<rbrakk>
    \<Longrightarrow> wire_reach throws s' (log @ [(ca_target a, rc_channel client)])"
| wire_rpc: "\<lbrakk>wire_reach throws (cm, w) log; rpc_step throws w w'; rw_next w' = rw_next w\<rbrakk> \<Longrightarrow> wire_reach throws (cm, w') log"
| wire_clean: "wire_reach throws (cm, w) log \<Longrightarrow> wire_reach throws (cleanRpcClients cm, w) log"
| wire_offline: "wire_reach throws (cm, w) log \<Longrightarrow> wire_reach throws (fst (cleanOfflineRpcClients cm), w) log"

text \<open>Every channel belongs to one host: the log and the table of clients agree on it.\<close>

definition wire_owner :: "'c ClientManagerImpl \<Rightarrow> (string \<times> nat) list \<Rightarrow> (nat \<Rightarrow> string) \<Rightarrow> bool" where
  "wire_owner cm log owner \<longleftrightarrow> (\<forall>e\<in>set log. snd e < cm_channels cm \<and> owner (snd e) = fst e)
     \<and> (\<forall>e\<in>set (cm_rpc_clients cm). owner (rc_channel (snd e)) = fst e)"

definition wire_heap :: "'cb rpc_world \<Rightarrow> (string \<times> nat) list \<Rightarrow> bool" where
  "wire_heap w log \<longleftrightarrow> rw_next w = length log
     \<and> (\<forall>ctx c. rw_heap w ctx = Some c \<longrightarrow> ctx < length log \<and> ic_remote_address c = fst (log ! ctx))"

section \<open>Invariant\<close>

text \<open>The contexts that somebody still holds a pointer to.\<close>

definition under_way :: "'cb rpc_world \<Rightarrow> nat list" where
  "under_way w = map fst (rw_calls w) @ map fst (rw_completion_queue w) @ map fst (tp_context (rw_pool w))"

definition rpc_ok :: "'cb rpc_world \<Rightarrow> bool" where
  "rpc_ok w = (pool_running (rw_pool w) \<and> mset (rw_called w @ under_way w) = mset [0..<rw_next w]
     \<and> dom (rw_heap w) = set (under_way w) \<and> (\<forall>c\<in>ran (rw_heap w). ic_callback c \<noteq> None))"

lemmas context_defs = healthCheck_context_def heartbeat_context_def send_context_def resolveRoute_context_def
  queryAssignment_context_def receiveMessage_context_def ack_context_def nack_context_def endTransaction_context_def
  multiplexingCall_context_def queryOffset_context_def pullMessage_context_def
  forwardMessageToDeadLetterQueue_context_def addMetadata_def set_deadline_def addressed_def make_InvocationContext_def

lemma call_context_callback: "ic_callback (call_context m a) = Some (ca_callback a)"
  by (cases m) (simp_all add: context_defs Let_def)

lemma rpc_ok_call: "rpc_ok w \<Longrightarrow> rpc_ok (async_call m a w)"
  by (auto simp: rpc_ok_def async_call_def under_way_def call_context_callback ran_def)

lemma rpc_ok_running: "rpc_ok w \<Longrightarrow> pool_running (rw_pool w)"
  by (simp add: rpc_ok_def)

text \<open>Handing a context on keeps the invariant.\<close>

lemma rpc_ok_moved:
  assumes "rpc_ok w" "mset (under_way w') = mset (under_way w)" "pool_running (rw_pool w')"
    and "rw_heap w' = rw_heap w" "rw_next w' = rw_next w" "rw_called w' = rw_called w"
  shows "rpc_ok w'"
  using assms mset_eq_setD[OF assms(2)] by (simp add: rpc_ok_def)

lemma rpc_ok_complete:
  "\<lbrakk>rpc_ok w; rw_calls w = xs @ (ctx, m) # ys\<rbrakk>
   \<Longrightarrow> rpc_ok (w\<lparr>rw_calls := xs @ ys, rw_completion_queue := rw_completion_queue w @ [(ctx, ok)]\<rparr>)"
  by (frule rpc_ok_running, erule rpc_ok_moved) (simp_all add: under_way_def)

lemma rpc_ok_poll: "\<lbrakk>rpc_ok w; pollCompletionQueue w = Some w'\<rbrakk> \<Longrightarrow> rpc_ok w'"
  by (frule rpc_ok_running, erule rpc_ok_moved)
    (auto simp: under_way_def pollCompletionQueue_def tp.submit_running split: list.splits)

lemma rpc_ok_distinct: "rpc_ok w \<Longrightarrow> distinct (rw_called w @ under_way w)"
  unfolding rpc_ok_def by (metis distinct_upt mset_eq_imp_distinct_iff)

lemma rpc_ok_task:
  assumes "rpc_ok w" "pool_run (rw_pool w) = Some (pool, (ctx, ok))"
  shows "\<exists>c. rw_heap w ctx = Some c \<and> ic_callback c \<noteq> None"
proof -
  have "ctx \<in> set (under_way w)" using assms tp.take_running by (fastforce simp: rpc_ok_def under_way_def)
  then obtain c where "rw_heap w ctx = Some c" using assms(1) unfolding rpc_ok_def by blast
  then show ?thesis using assms(1) by (auto simp: rpc_ok_def ran_def)
qed

lemma rpc_ok_run:
  assumes "rpc_ok w" "run_callback throws w = Some w'"
  shows "rpc_ok w'"
proof -
  obtain pool ctx ok where task: "pool_run (rw_pool w) = Some (pool, (ctx, ok))"
    using assms(2) by (auto simp: run_callback_def split: option.splits)
  obtain c where c: "rw_heap w ctx = Some c" "ic_callback c \<noteq> None" using rpc_ok_task[OF assms(1) task] by blast
  have pool: "pool_running pool" "tp_context (rw_pool w) = (ctx, ok) # tp_context pool"
    using tp.take_running[OF _ task] assms(1) by (auto simp: rpc_ok_def)
  have w': "w' = w\<lparr>rw_pool := pool, rw_called := rw_called w @ [ctx], rw_heap := (rw_heap w)(ctx := None)\<rparr>"
    using assms(2) c by (auto simp: run_callback_def onCompletion_def task split: if_splits)
  have "ctx \<notin> set (map fst (rw_calls w) @ map fst (rw_completion_queue w) @ map fst (tp_context pool))"
    using rpc_ok_distinct[OF assms(1)] by (auto simp: under_way_def pool)
  moreover have "dom (rw_heap w) = insert ctx (set (map fst (rw_calls w) @ map fst (rw_completion_queue w) @ map fst (tp_context pool)))"
    using assms(1) by (auto simp: rpc_ok_def under_way_def pool(2))
  ultimately have "dom ((rw_heap w)(ctx := None)) = set (under_way w')" by (auto simp: under_way_def w')
  moreover have "mset (rw_called w' @ under_way w') = mset (rw_called w @ under_way w)"
    by (simp add: under_way_def w' pool(2))
  ultimately show ?thesis using assms(1) pool(1) by (auto simp: rpc_ok_def w' ran_def split: if_splits)
qed

lemma rpc_ok_step: "\<lbrakk>rpc_step throws w w'; rpc_ok w\<rbrakk> \<Longrightarrow> rpc_ok w'"
  by (induction rule: rpc_step.induct) (iprover intro: rpc_ok_call rpc_ok_complete rpc_ok_poll rpc_ok_run)+

lemma rpc_ok_steps: "\<lbrakk>rpc_steps throws w w'; rpc_ok w\<rbrakk> \<Longrightarrow> rpc_ok w'"
  by (induction rule: rpc_steps.induct) (iprover intro: rpc_ok_step)+

lemma rpc_ok_make: "\<lbrakk>pool_running pool; tp_context pool = []\<rbrakk> \<Longrightarrow> rpc_ok (make_rpc_world pool)"
  by (simp add: rpc_ok_def make_rpc_world_def under_way_def)

section \<open>Where calls go\<close>

lemma call_context_address: "ic_remote_address (call_context m a) = ca_target a"
  by (cases m) (simp_all add: context_defs Let_def)

text \<open>The client of a target is the one of the table, or a new one on a channel of its own.\<close>

lemma getRpcClient_channel:
  assumes "rpc_table_ok cm" "getRpcClient ok t need cm = (cm', client)"
  shows "((\<exists>c. (t, c) \<in> set (cm_rpc_clients cm) \<and> rc_channel client = rc_channel c \<and> cm_channels cm' = cm_channels cm)
      \<or> rc_channel client = cm_channels cm \<and> cm_channels cm' = cm_channels cm + 1)
    \<and> set (cm_rpc_clients cm') \<subseteq> insert (t, client) (set (cm_rpc_clients cm))"
proof -
  have "hm_inv id (cm_rpc_clients cm)" using assms(1) by (simp add: rpc_table_ok_def)
  then show ?thesis using assms(2)
    by (auto simp: getRpcClient_def create_client_def Let_def set_hm_assign hm_inv_assign
        split: option.splits if_splits dest!: hm_find_SomeD)
qed

lemma getRpcClient_found:
  "getRpcClient ok t need cm = (cm', client) \<Longrightarrow> (t, client) \<in> set (cm_rpc_clients cm')"
proof -
  assume "getRpcClient ok t need cm = (cm', client)"
  then have "hm_find id (cm_rpc_clients cm') t = Some client"
    by (auto simp: getRpcClient_def create_client_def Let_def hm_assign_find split: option.splits if_splits)
  then show ?thesis by (auto dest: hm_find_SomeD)
qed

lemma cleanOfflineRpcClients_ok: "rpc_table_ok cm \<Longrightarrow> rpc_table_ok (fst (cleanOfflineRpcClients cm))"
  by (simp add: cleanOfflineRpcClients_def Let_def rpc_table_ok_def distinct_map_fst_filter distinct_map_filter)

lemma rpc_step_heap: "\<lbrakk>rpc_step throws w w'; rw_next w' = rw_next w\<rbrakk> \<Longrightarrow> rw_heap w' \<subseteq>\<^sub>m rw_heap w"
  by (induction rule: rpc_step.induct)
    (auto simp: async_call_def pollCompletionQueue_def run_callback_def onCompletion_def map_le_def
      split: list.splits option.splits prod.splits if_splits)

lemma wire_heap_rpc:
  assumes "wire_heap w log" "rpc_step throws w w'" "rw_next w' = rw_next w"
  shows "wire_heap w' log"
proof -
  have "rw_heap w ctx = Some c" if "rw_heap w' ctx = Some c" for ctx c
    using rpc_step_heap[OF assms(2,3)] that by (metis domI map_le_def)
  then show ?thesis using assms(1,3) by (simp add: wire_heap_def)
qed

lemma wire_heap_call: "wire_heap w log \<Longrightarrow> wire_heap (async_call m a w) (log @ [(ca_target a, ch)])"
  by (simp add: wire_heap_def async_call_def nth_append call_context_address less_SucI)

lemma wire_owner_removal:
  "\<lbrakk>wire_owner cm log owner; cm_channels cm' = cm_channels cm; set (cm_rpc_clients cm') \<subseteq> set (cm_rpc_clients cm)\<rbrakk>
   \<Longrightarrow> wire_owner cm' log owner"
  by (auto simp: wire_owner_def)

lemma wire_owner_call:
  assumes "rpc_table_ok cm" "wire_owner cm log owner" "getRpcClient ok t need cm = (cm', client)"
  shows "\<exists>owner. wire_owner cm' (log @ [(t, rc_channel client)]) owner"
proof -
  note step = getRpcClient_channel[OF assms(1,3)]
  have old: "rc_channel (snd e) \<noteq> cm_channels cm" if "e \<in> set (cm_rpc_clients cm)" for e
    using assms(1) that by (force simp: rpc_table_ok_def)
  show ?thesis
  proof (cases "rc_channel client = cm_channels cm")
    case True
    then have "cm_channels cm' = cm_channels cm + 1" using step old by fastforce
    then have "wire_owner cm' (log @ [(t, rc_channel client)]) (owner(cm_channels cm := t))"
      using True assms(2) step old by (force simp: wire_owner_def)
    then show ?thesis by blast
  next
    case False
    then obtain c where c: "(t, c) \<in> set (cm_rpc_clients cm)" "rc_channel client = rc_channel c" "cm_channels cm' = cm_channels cm"
      using conjunct1[OF step] by auto
    have "\<forall>e\<in>set (cm_rpc_clients cm). rc_channel (snd e) < cm_channels cm" using assms(1) by (simp add: rpc_table_ok_def)
    then have "rc_channel c < cm_channels cm" using c(1) by (metis snd_conv)
    moreover have table: "\<forall>e\<in>set (cm_rpc_clients cm). owner (rc_channel (snd e)) = fst e" using assms(2) by (simp add: wire_owner_def)
    then have t: "owner (rc_channel c) = t" using c(1) by (metis fst_conv snd_conv)
    moreover have "owner (rc_channel (snd e)) = fst e" if "e \<in> set (cm_rpc_clients cm')" for e
    proof (cases "e = (t, client)")
      case True
      then show ?thesis using t c(2) by simp
    next
      case False
      then show ?thesis using subsetD[OF conjunct2[OF step] that] table by simp
    qed
    ultimately have "wire_owner cm' (log @ [(t, rc_channel client)]) owner" using c assms(2) by (simp add: wire_owner_def)
    then show ?thesis by blast
  qed
qed

lemma wire_reach_ok:
  "wire_reach throws s log \<Longrightarrow> rpc_table_ok (fst s) \<and> wire_heap (snd s) log \<and> (\<exists>owner. wire_owner (fst s) log owner)"
proof (induction rule: wire_reach.induct)
  case (wire_init ns pool)
  then show ?case
    by (simp add: wire_heap_def wire_owner_def rpc_table_ok_def make_ClientManagerImpl_def make_rpc_world_def hm_inv_def)
next
  case (wire_call s log ok m a s' client)
  obtain cm' where get: "getRpcClient ok (ca_target a) (m \<noteq> QueryRoute) (fst s) = (cm', client)"
    and s': "s' = (cm', async_call m a (snd s))" using wire_call(2) by (auto simp: manager_call_def split: prod.splits)
  show ?case using wire_call(3) getRpcClient_ok[of "fst s" ok "ca_target a" "m \<noteq> QueryRoute"] get wire_owner_call[OF _ _ get]
    by (auto simp: s' wire_heap_call)
next
  case (wire_rpc cm w log w')
  then show ?case using wire_heap_rpc by auto
next
  case (wire_clean cm w log)
  then show ?case by (auto simp: cleanRpcClients_def rpc_table_ok_def hm_inv_def wire_owner_def)
next
  case (wire_offline cm w log)
  then obtain owner where "wire_owner cm log owner" by auto
  then have "wire_owner (fst (cleanOfflineRpcClients cm)) log owner"
    by (rule wire_owner_removal) (auto simp: cleanOfflineRpcClients_def Let_def)
  then show ?case using wire_offline cleanOfflineRpcClients_ok[of cm] by auto
qed

section \<open>After a shutdown\<close>

definition frozen :: "'cb rpc_world \<Rightarrow> 'cb rpc_world \<Rightarrow> bool" where
  "frozen w w' = (rw_pool w' = pool_shutdown (rw_pool w) \<and> rw_called w' = rw_called w \<and> rw_next w \<le> rw_next w'
     \<and> (\<forall>ctx<rw_next w. rw_heap w' ctx = rw_heap w ctx))"

lemma frozen_step: "\<lbrakk>rpc_step throws w' w''; frozen w w'; pool_running (rw_pool w)\<rbrakk> \<Longrightarrow> frozen w w''"
proof (induction rule: rpc_step.induct)
  case (rpc_run w' w'')
  then show ?case by (simp add: frozen_def run_callback_def tp.stop_stops)
qed (auto simp: frozen_def async_call_def pollCompletionQueue_def tp.submit_stopped split: list.splits)

lemma frozen_steps: "\<lbrakk>rpc_steps throws w' w''; frozen w w'; pool_running (rw_pool w)\<rbrakk> \<Longrightarrow> frozen w w''"
  by (induction rule: rpc_steps.induct) (iprover intro: frozen_step)+

section \<open>Samples\<close>

definition sample_pool :: "(nat \<times> bool) ThreadPoolImpl" where
  "sample_pool = the (pool_start (make_ThreadPoolImpl 2))"

definition sample_args :: "string call_args" where
  "sample_args = \<lparr>ca_request_id = ''id'', ca_target = ''host:80'', ca_metadata = [(AUTHORIZATION, ''sig'')], ca_deadline = 3000,
     ca_callback = ''cb''\<rparr>"

lemma sample_pool_facts: "pool_running sample_pool" "tp_context sample_pool = []"
  by (simp_all add: sample_pool_def pool_start_def make_ThreadPoolImpl_def pool_running_def compare_exchange_def Let_def)

lemma sample_call_steps: "rpc_steps throws (make_rpc_world sample_pool) (async_call SendMessage sample_args (make_rpc_world sample_pool))"
  by (rule rpc_more[OF rpc_refl rpc_call])

section \<open>Properties\<close>





text \<open>C40. A shutdown loses the calls under way: once the client manager has stopped its thread pool, no
  callback runs any more, whatever the brokers answer, and the contexts of the calls under way are never
  deleted.\<close>

theorem shutdown_loses_calls:
  assumes "pool_running pool" "tp_context pool = []" "rpc_steps throws (make_rpc_world pool) w"
    and "rpc_steps throws (shutdown_pool w) w'"
  shows "rw_called w' = rw_called w \<and> list_all (\<lambda>ctx. rw_heap w' ctx = rw_heap w ctx \<and> rw_heap w' ctx \<noteq> None) (under_way w)"
proof -
  have ok: "rpc_ok w" using rpc_ok_steps[OF assms(3)] rpc_ok_make assms(1,2) by blast
  have "frozen w (shutdown_pool w)" by (simp add: frozen_def shutdown_pool_def)
  then have frozen: "frozen w w'" using frozen_steps[OF assms(4)] ok by (simp add: rpc_ok_def)
  have "ctx < rw_next w" if "ctx \<in> set (under_way w)" for ctx
  proof -
    have "set (rw_called w @ under_way w) = {0..<rw_next w}" using ok unfolding rpc_ok_def by (metis mset_eq_setD set_upt)
    then show ?thesis using that by auto
  qed
  then show ?thesis using frozen ok by (auto simp: frozen_def list_all_iff rpc_ok_def)
qed

theorem shutdown_loses_calls_witness:
  "\<exists>w'. rpc_steps (\<lambda>_. False) (shutdown_pool (async_call SendMessage sample_args (make_rpc_world sample_pool))) w'
     \<and> rw_completion_queue w' = [(0, True)] \<and> rw_called w' = [] \<and> rw_heap w' 0 \<noteq> None"
proof -
  let ?w = "async_call SendMessage sample_args (make_rpc_world sample_pool)"
  let ?w' = "(shutdown_pool ?w)\<lparr>rw_calls := [] @ [], rw_completion_queue := rw_completion_queue (shutdown_pool ?w) @ [(0, True)]\<rparr>"
  have "rpc_steps (\<lambda>_. False) (shutdown_pool ?w) ?w'"
    by (rule rpc_more[OF rpc_refl rpc_complete[where m = SendMessage]])
      (simp add: shutdown_pool_def async_call_def make_rpc_world_def)
  from shutdown_loses_calls[OF sample_pool_facts sample_call_steps this] this show ?thesis
    by (intro exI[of _ ?w']) (simp add: shutdown_pool_def async_call_def make_rpc_world_def under_way_def)
qed


text \<open>A callback that throws is survived when its call was alive and ends the process when it was dead.\<close>

lemma dead_call_exception:
  "\<lbrakk>rw_heap w ctx = Some c; ic_callback c = Some cb; throws cb\<rbrakk>
   \<Longrightarrow> onCompletion throws ctx True w \<noteq> None \<and> onCompletion throws ctx False w = None"
  by (simp add: onCompletion_def)

end
