(* ===== verification/Export_Calls.thy ===== *)
theory Export_Calls
  imports Exporter Rpc_Calls
begin

text \<open>
  The calls of the trace exporter (\<open>OtlpExporter.cpp\<close>): the context of an export, \<open>asyncExport\<close>, and the
  thread of the handler that polls its own completion queue and completes the calls itself. Contexts and
  their completion are those of \<open>InvocationContext.h\<close>.
\<close>

section \<open>Exporting\<close>

text \<open>The callback only writes to the log; times are in milliseconds.\<close>

definition export_context :: "string \<Rightarrow> time_point \<Rightarrow> export_call \<Rightarrow> unit InvocationContext" where
  "export_context request_id now call = (case call of ExportCall host channel md spans seconds \<Rightarrow>
     (addMetadata md (set_deadline (now + int seconds * 1000) ((make_InvocationContext request_id)\<lparr>ic_remote_address := host\<rparr>)))
       \<lparr>ic_callback := Some ()\<rparr>)"

definition asyncExport ::
  "bool \<Rightarrow> export_call \<Rightarrow> nat \<Rightarrow> (export_call, 'cb, 'z) context_world_scheme \<Rightarrow> (export_call, 'cb, 'z) context_world_scheme" where
  "asyncExport queue_alive call ctx w = (if \<not> queue_alive then w else w\<lparr>rw_calls := rw_calls w @ [(ctx, call)]\<rparr>)"

section \<open>Polling\<close>

text \<open>Where the polling thread is: at the test of \<open>stopped_\<close>, in \<open>Next\<close>, or at its end. \<open>Next\<close> returns false
  only when the queue has been shut down, and nobody does that.\<close>

datatype poller = Testing | In_Next | Quit

record export_world =
  xw_contexts :: "(export_call, unit) context_world"
  xw_handler :: OtlpExporterHandler
  xw_poller :: poller

definition make_export_world :: export_world where
  "make_export_world = \<lparr>xw_contexts = \<lparr>rw_heap = (\<lambda>_. None), rw_next = 0, rw_calls = [], rw_completion_queue = [], rw_called = []\<rparr>,
     xw_handler = make_OtlpExporterHandler, xw_poller = Testing\<rparr>"

text \<open>The handler owns the client that exports as well as the queue, so the queue is alive.\<close>

definition start_export :: "string \<Rightarrow> time_point \<Rightarrow> export_call \<Rightarrow> (export_call, unit) context_world \<Rightarrow> (export_call, unit) context_world" where
  "start_export request_id now call w =
     asyncExport True call (rw_next w)
       (w\<lparr>rw_heap := (rw_heap w)(rw_next w := Some (export_context request_id now call)), rw_next := rw_next w + 1\<rparr>)"

definition poll_round :: "export_world \<Rightarrow> export_world option" where
  "poll_round x = (case xw_poller x of
       Testing \<Rightarrow> Some (x\<lparr>xw_poller := (if oh_stopped (xw_handler x) then Quit else In_Next)\<rparr>)
     | In_Next \<Rightarrow> (case rw_completion_queue (xw_contexts x) of
           [] \<Rightarrow> None
         | (ctx, ok) # rest \<Rightarrow>
             map_option (\<lambda>w. x\<lparr>xw_contexts := w\<rparr>)
               (onCompletion (\<lambda>_. False) ctx ok ((xw_contexts x)\<lparr>rw_completion_queue := rest\<rparr>)))
     | Quit \<Rightarrow> None)"

inductive export_step :: "export_world \<Rightarrow> export_world \<Rightarrow> bool" where
  export_spans: "Export hm dt nanos exporter spans (xw_handler x) = Some (oh, Some call) \<Longrightarrow>
    export_step x (x\<lparr>xw_handler := oh, xw_contexts := start_export request_id now call (xw_contexts x)\<rparr>)"
| export_nothing: "Export hm dt nanos exporter spans (xw_handler x) = Some (oh, None) \<Longrightarrow> export_step x (x\<lparr>xw_handler := oh\<rparr>)"
| export_answered: "rw_calls (xw_contexts x) = cs @ (ctx, call) # ds \<Longrightarrow>
    export_step x (x\<lparr>xw_contexts := (xw_contexts x)\<lparr>rw_calls := cs @ ds,
      rw_completion_queue := rw_completion_queue (xw_contexts x) @ [(ctx, ok)]\<rparr>\<rparr>)"
| export_polled: "poll_round x = Some x' \<Longrightarrow> export_step x x'"
| export_stopped: "export_step x (x\<lparr>xw_handler := handler_shutdown (xw_handler x)\<rparr>)"

inductive export_steps :: "export_world \<Rightarrow> export_world \<Rightarrow> bool" where
  export_refl: "export_steps x x"
| export_more: "\<lbrakk>export_steps x x'; export_step x' x''\<rbrakk> \<Longrightarrow> export_steps x x''"

section \<open>Invariant\<close>

definition exports_pending :: "(export_call, unit) context_world \<Rightarrow> nat list" where
  "exports_pending w = map fst (rw_calls w) @ map fst (rw_completion_queue w)"

definition exports_ok :: "(export_call, unit) context_world \<Rightarrow> bool" where
  "exports_ok w = (mset (rw_called w @ exports_pending w) = mset [0..<rw_next w]
     \<and> dom (rw_heap w) = set (exports_pending w) \<and> (\<forall>c\<in>ran (rw_heap w). ic_callback c = Some ()))"

lemmas export_defs = exports_ok_def exports_pending_def

lemma export_context_callback: "ic_callback (export_context request_id now call) = Some ()"
  by (simp add: export_context_def split: export_call.splits)

lemma start_export_ok: "exports_ok w \<Longrightarrow> exports_ok (start_export request_id now call w)"
  by (auto simp: export_defs start_export_def asyncExport_def export_context_callback ran_def)

lemma export_answered_ok:
  "\<lbrakk>exports_ok w; rw_calls w = cs @ (ctx, call) # ds\<rbrakk>
   \<Longrightarrow> exports_ok (w\<lparr>rw_calls := cs @ ds, rw_completion_queue := rw_completion_queue w @ [(ctx, ok)]\<rparr>)"
  by (auto simp: export_defs)

text \<open>The context that a completion names is alive, and nobody else holds it.\<close>

lemma exports_ok_head:
  assumes "exports_ok w" "rw_completion_queue w = (ctx, ok) # rest"
  shows "\<exists>c. rw_heap w ctx = Some c \<and> ic_callback c = Some ()" "ctx \<notin> set (map fst (rw_calls w) @ map fst rest)"
proof -
  have "ctx \<in> dom (rw_heap w)" using assms by (simp add: export_defs)
  then show "\<exists>c. rw_heap w ctx = Some c \<and> ic_callback c = Some ()" using assms(1) by (auto simp: exports_ok_def ran_def)
  have "mset (rw_called w @ exports_pending w) = mset [0..<rw_next w]" using assms(1) by (simp add: exports_ok_def)
  then have "distinct (rw_called w @ exports_pending w)" by (metis distinct_upt mset_eq_imp_distinct_iff)
  then show "ctx \<notin> set (map fst (rw_calls w) @ map fst rest)" using assms(2) by (auto simp: exports_pending_def)
qed

lemma poll_completes:
  assumes "exports_ok w" "rw_completion_queue w = (ctx, ok) # rest"
  shows "\<exists>w'. onCompletion (\<lambda>_. False) ctx ok (w\<lparr>rw_completion_queue := rest\<rparr>) = Some w' \<and> exports_ok w'"
proof -
  obtain c where c: "rw_heap w ctx = Some c" "ic_callback c = Some ()" using exports_ok_head(1)[OF assms] by blast
  then show ?thesis using assms exports_ok_head(2)[OF assms]
    by (auto simp: onCompletion_def export_defs ran_def split: if_splits)
qed

lemma poll_round_ok: "\<lbrakk>poll_round x = Some x'; exports_ok (xw_contexts x)\<rbrakk> \<Longrightarrow> exports_ok (xw_contexts x')"
  by (fastforce simp: poll_round_def split: poller.splits list.splits prod.splits dest: poll_completes)

lemma export_step_ok: "\<lbrakk>export_step x x'; exports_ok (xw_contexts x)\<rbrakk> \<Longrightarrow> exports_ok (xw_contexts x')"
  by (induction rule: export_step.induct) (auto intro: start_export_ok export_answered_ok poll_round_ok)

lemma export_steps_ok: "\<lbrakk>export_steps x x'; exports_ok (xw_contexts x)\<rbrakk> \<Longrightarrow> exports_ok (xw_contexts x')"
  by (induction rule: export_steps.induct) (iprover intro: export_step_ok)+

lemma make_export_world_ok: "exports_ok (xw_contexts make_export_world)"
  by (simp add: export_defs make_export_world_def)

lemma export_step_in_next: "\<lbrakk>export_step x x'; xw_poller x = In_Next\<rbrakk> \<Longrightarrow> xw_poller x' = In_Next"
  by (induction rule: export_step.induct) (auto simp: poll_round_def split: list.splits prod.splits)

lemma export_steps_in_next: "\<lbrakk>export_steps x x'; xw_poller x = In_Next\<rbrakk> \<Longrightarrow> xw_poller x' = In_Next"
  by (induction rule: export_steps.induct) (iprover intro: export_step_in_next)+

section \<open>Properties\<close>

text \<open>Every export is completed exactly once: the contexts on the heap are those of the exports that are
  not completed yet, and while the polling thread runs, an answered export can be completed.\<close>

theorem exports_complete_once:
  assumes "export_steps make_export_world x"
  shows "mset (rw_called (xw_contexts x) @ exports_pending (xw_contexts x)) = mset [0..<rw_next (xw_contexts x)]
    \<and> dom (rw_heap (xw_contexts x)) = set (exports_pending (xw_contexts x))
    \<and> (xw_poller x = In_Next \<and> rw_completion_queue (xw_contexts x) \<noteq> [] \<longrightarrow> poll_round x \<noteq> None)"
proof -
  have ok: "exports_ok (xw_contexts x)" using assms make_export_world_ok by (rule export_steps_ok)
  moreover have "poll_round x \<noteq> None" if poll: "xw_poller x = In_Next" "rw_completion_queue (xw_contexts x) \<noteq> []"
  proof -
    obtain ctx alive rest where "rw_completion_queue (xw_contexts x) = (ctx, alive) # rest" using poll(2) by (metis list.exhaust surj_pair)
    then show ?thesis using poll_completes[OF ok] poll(1) by (auto simp: poll_round_def)
  qed
  ultimately show ?thesis by (simp add: exports_ok_def)
qed

text \<open>A handler cannot be shut down: once its thread waits for completions, it does so for ever, and
  \<open>shutdown\<close>, which waits for the thread, does not return.\<close>

theorem exporter_never_joins:
  assumes "xw_poller x = In_Next" "export_steps (x\<lparr>xw_handler := handler_shutdown (xw_handler x)\<rparr>) x'"
  shows "xw_poller x' \<noteq> Quit"
  using export_steps_in_next[OF assms(2)] assms(1) by simp

end
