(* ===== verification/Message_Attributes.thy ===== *)
theory Message_Attributes
  imports Message_Codec
begin

text \<open>
  The attributes of a message that applications and the library read and write (\<open>base/MQMessage.cpp\<close>,
  \<open>base/MQMessageExt.cpp\<close>, \<open>base/MessageAccessor.cpp\<close>). A getter and its setter obey the laws of an
  attribute, from which it follows that copies of a message keep it.
\<close>

section \<open>Getters and setters\<close>

definition setTags :: "MQMessage \<Rightarrow> string \<Rightarrow> MQMessage" where
  "setTags m v = update_attrs (\<lambda>a. a\<lparr>sa_tag := v\<rparr>) m"

definition getKeys :: "MQMessage \<Rightarrow> string list" where
  "getKeys m = sa_keys (msg_attrs m)"

definition setKeys :: "MQMessage \<Rightarrow> string list \<Rightarrow> MQMessage" where
  "setKeys m v = update_attrs (\<lambda>a. a\<lparr>sa_keys := v\<rparr>) m"

definition getDelayTimeLevel :: "MQMessage \<Rightarrow> i32" where
  "getDelayTimeLevel m = sa_delay_level (msg_attrs m)"

definition setDelayTimeLevel :: "MQMessage \<Rightarrow> i32 \<Rightarrow> MQMessage" where
  "setDelayTimeLevel m v = update_attrs (\<lambda>a. a\<lparr>sa_delay_level := v\<rparr>) m"

definition traceContext :: "MQMessage \<Rightarrow> string" where
  "traceContext m = sa_trace_context (msg_attrs m)"

definition setTraceContext :: "MQMessage \<Rightarrow> string \<Rightarrow> MQMessage" where
  "setTraceContext m v = update_attrs (\<lambda>a. a\<lparr>sa_trace_context := v\<rparr>) m"

definition messageType :: "MQMessage \<Rightarrow> MessageType" where
  "messageType m = sa_message_type (msg_attrs m)"

definition setMessageType :: "MQMessage \<Rightarrow> MessageType \<Rightarrow> MQMessage" where
  "setMessageType m v = update_attrs (\<lambda>a. a\<lparr>sa_message_type := v\<rparr>) m"

definition bornTimestamp :: "MQMessage \<Rightarrow> time_point" where
  "bornTimestamp m = sa_born_timestamp (msg_attrs m)"

definition setBornTimestamp :: "MQMessage \<Rightarrow> time_point \<Rightarrow> MQMessage" where
  "setBornTimestamp m v = update_attrs (\<lambda>a. a\<lparr>sa_born_timestamp := v\<rparr>) m"

definition storeTimestamp :: "MQMessage \<Rightarrow> time_point" where
  "storeTimestamp m = sa_store_timestamp (msg_attrs m)"

definition setStoreTimestamp :: "MQMessage \<Rightarrow> time_point \<Rightarrow> MQMessage" where
  "setStoreTimestamp m v = update_attrs (\<lambda>a. a\<lparr>sa_store_timestamp := v\<rparr>) m"

definition getQueueId :: "MQMessage \<Rightarrow> i32" where
  "getQueueId m = sa_partition_id (msg_attrs m)"

definition setQueueId :: "MQMessage \<Rightarrow> i32 \<Rightarrow> MQMessage" where
  "setQueueId m v = update_attrs (\<lambda>a. a\<lparr>sa_partition_id := v\<rparr>) m"

definition getBornHost :: "MQMessage \<Rightarrow> string" where
  "getBornHost m = sa_born_host (msg_attrs m)"

definition setBornHost :: "MQMessage \<Rightarrow> string \<Rightarrow> MQMessage" where
  "setBornHost m v = update_attrs (\<lambda>a. a\<lparr>sa_born_host := v\<rparr>) m"

definition getStoreHost :: "MQMessage \<Rightarrow> string" where
  "getStoreHost m = sa_store_host (msg_attrs m)"

definition setStoreHost :: "MQMessage \<Rightarrow> string \<Rightarrow> MQMessage" where
  "setStoreHost m v = update_attrs (\<lambda>a. a\<lparr>sa_store_host := v\<rparr>) m"

definition deliveryTimestamp :: "MQMessage \<Rightarrow> time_point" where
  "deliveryTimestamp m = sa_delivery_timestamp (msg_attrs m)"

definition setDeliveryTimestamp :: "MQMessage \<Rightarrow> time_point \<Rightarrow> MQMessage" where
  "setDeliveryTimestamp m v = update_attrs (\<lambda>a. a\<lparr>sa_delivery_timestamp := v\<rparr>) m"

definition decodedTimestamp :: "MQMessage \<Rightarrow> time_point" where
  "decodedTimestamp m = sa_decode_timestamp (msg_attrs m)"

definition setDecodedTimestamp :: "MQMessage \<Rightarrow> time_point \<Rightarrow> MQMessage" where
  "setDecodedTimestamp m v = update_attrs (\<lambda>a. a\<lparr>sa_decode_timestamp := v\<rparr>) m"

definition setReceiptHandle :: "MQMessage \<Rightarrow> string \<Rightarrow> MQMessage" where
  "setReceiptHandle m v = update_attrs (\<lambda>a. a\<lparr>sa_receipt_handle := v\<rparr>) m"

definition setMessageId :: "MQMessage \<Rightarrow> string \<Rightarrow> MQMessage" where
  "setMessageId m v = update_attrs (\<lambda>a. a\<lparr>sa_message_id := v\<rparr>) m"

definition setInvisiblePeriod :: "MQMessage \<Rightarrow> duration \<Rightarrow> MQMessage" where
  "setInvisiblePeriod m v = update_attrs (\<lambda>a. a\<lparr>sa_invisible_period := v\<rparr>) m"

text \<open>\<open>setKey\<close> adds a key.\<close>

definition setKey :: "MQMessage \<Rightarrow> string \<Rightarrow> MQMessage" where
  "setKey m key = update_attrs (\<lambda>a. a\<lparr>sa_keys := sa_keys a @ [key]\<rparr>) m"

definition setTopic :: "MQMessage \<Rightarrow> string \<Rightarrow> MQMessage" where
  "setTopic m v = m\<lparr>msg_impl := (msg_impl m)\<lparr>mi_topic := (mi_topic (msg_impl m))\<lparr>rs_name := v\<rparr>\<rparr>\<rparr>"

definition setBody :: "MQMessage \<Rightarrow> string \<Rightarrow> MQMessage" where
  "setBody m v = m\<lparr>msg_impl := (msg_impl m)\<lparr>mi_body := v\<rparr>\<rparr>"

section \<open>The laws of an attribute\<close>

locale attribute =
  fixes get :: "MQMessage \<Rightarrow> 'v" and put :: "MQMessage \<Rightarrow> 'v \<Rightarrow> MQMessage"
  assumes get_put: "get (put m v) = v"
    and put_put: "put (put m v) v' = put m v'"
    and put_get: "put m (get m) = m"
    and put_copy: "copy_MQMessage (put m v) = put (copy_MQMessage m) v"
begin

lemma put_inject: "put m v = put m v' \<longleftrightarrow> v = v'"
  by (metis get_put)

lemma get_copy: "get (copy_MQMessage m) = get m"
  by (metis get_put put_copy put_get)

lemma put_all: "fold (\<lambda>v m. put m v) vs m = (if vs = [] then m else put m (List.last vs))"
proof (induction vs arbitrary: m)
  case (Cons v vs)
  then show ?case by (cases vs) (simp_all add: put_put)
qed simp

end

lemmas attribute_defs = update_attrs_def copy_MQMessage_def

interpretation tags_attr: attribute getTags setTags
  by unfold_locales (simp_all add: getTags_def setTags_def attribute_defs)

interpretation keys_attr: attribute getKeys setKeys
  by unfold_locales (simp_all add: getKeys_def setKeys_def attribute_defs)

interpretation delayTimeLevel_attr: attribute getDelayTimeLevel setDelayTimeLevel
  by unfold_locales (simp_all add: getDelayTimeLevel_def setDelayTimeLevel_def attribute_defs)

interpretation traceContext_attr: attribute traceContext setTraceContext
  by unfold_locales (simp_all add: traceContext_def setTraceContext_def attribute_defs)

interpretation messageType_attr: attribute messageType setMessageType
  by unfold_locales (simp_all add: messageType_def setMessageType_def attribute_defs)

interpretation bornTimestamp_attr: attribute bornTimestamp setBornTimestamp
  by unfold_locales (simp_all add: bornTimestamp_def setBornTimestamp_def attribute_defs)

interpretation storeTimestamp_attr: attribute storeTimestamp setStoreTimestamp
  by unfold_locales (simp_all add: storeTimestamp_def setStoreTimestamp_def attribute_defs)

interpretation queueId_attr: attribute getQueueId setQueueId
  by unfold_locales (simp_all add: getQueueId_def setQueueId_def attribute_defs)

interpretation bornHost_attr: attribute getBornHost setBornHost
  by unfold_locales (simp_all add: getBornHost_def setBornHost_def attribute_defs)

interpretation storeHost_attr: attribute getStoreHost setStoreHost
  by unfold_locales (simp_all add: getStoreHost_def setStoreHost_def attribute_defs)

interpretation deliveryTimestamp_attr: attribute deliveryTimestamp setDeliveryTimestamp
  by unfold_locales (simp_all add: deliveryTimestamp_def setDeliveryTimestamp_def attribute_defs)

interpretation decodedTimestamp_attr: attribute decodedTimestamp setDecodedTimestamp
  by unfold_locales (simp_all add: decodedTimestamp_def setDecodedTimestamp_def attribute_defs)

interpretation receiptHandle_attr: attribute receiptHandle setReceiptHandle
  by unfold_locales (simp_all add: receiptHandle_def setReceiptHandle_def attribute_defs)

interpretation targetEndpoint_attr: attribute targetEndpoint setTargetEndpoint
  by unfold_locales (simp_all add: targetEndpoint_def setTargetEndpoint_def attribute_defs)

interpretation messageId_attr: attribute getMsgId setMessageId
  by unfold_locales (simp_all add: getMsgId_def setMessageId_def attribute_defs)

interpretation deliveryAttempt_attr: attribute getDeliveryAttempt setDeliveryAttempt
  by unfold_locales (simp_all add: getDeliveryAttempt_def setDeliveryAttempt_def attribute_defs)

interpretation queueOffset_attr: attribute getQueueOffset setQueueOffset
  by unfold_locales (simp_all add: getQueueOffset_def setQueueOffset_def attribute_defs)

interpretation topic_attr: attribute getTopic setTopic
  by unfold_locales (simp_all add: getTopic_def setTopic_def attribute_defs)

interpretation body_attr: attribute getBody setBody
  by unfold_locales (simp_all add: getBody_def setBody_def attribute_defs)

section \<open>Keys and properties\<close>

lemma setKey_appends: "getKeys (fold (\<lambda>k m. setKey m k) ks m) = getKeys m @ ks"
  by (induction ks arbitrary: m) (simp_all add: setKey_def getKeys_def update_attrs_def)

text \<open>A property that is set replaces the old value, properties that are set together do not.\<close>

lemma getProperty_setProperty:
  "getProperty (setProperty m k v) k' = (if k' = k then v else getProperty m k')"
  by (simp add: getProperty_def setProperty_def)

lemma getProperty_setProperties:
  "mi_user_attribute_map (msg_impl m) k = Some v \<Longrightarrow> getProperty (setProperties m props) k = v"
proof -
  have "fold (\<lambda>(k, v) a. if a k = None then a(k \<mapsto> v) else a) props a k = Some v" if "a k = Some v" for a :: "string \<rightharpoonup> string"
    using that
  proof (induction props arbitrary: a)
    case (Cons p props)
    have "(case p of (k, v) \<Rightarrow> \<lambda>a. if a k = None then a(k \<mapsto> v) else a) a k = Some v"
      using Cons.prems by (cases p) auto
    then show ?case using Cons.IH by simp
  qed simp
  then show "mi_user_attribute_map (msg_impl m) k = Some v \<Longrightarrow> getProperty (setProperties m props) k = v"
    by (simp add: getProperty_def setProperties_def)
qed

end
