(* ===== verification/Error_Category.thy ===== *)
theory Error_Category
  imports Messages
begin

text \<open>
  The texts of the error codes (\<open>base/ErrorCategory.cpp\<close>) and of the exceptions that the blocking calls of
  the library throw (\<open>MQClientException.h\<close>).
\<close>

section \<open>Messages\<close>

primrec error_message :: "ErrorCode \<Rightarrow> string" where
  "error_message Success = ''Success''"
| "error_message IllegalState = ''Client state illegal. Forgot to call start()?''"
| "error_message BadConfiguration = ''Bad configuration.''"
| "error_message BadRequest = ''Message is ill-formed. Check validity of your topic, tag, etc''"
| "error_message Unauthorized = ''Authentication failed. Possibly caused by invalid credentials.''"
| "error_message Forbidden = ''Authenticated user does not have privilege to perform the requested action''"
| "error_message NotFound =
     ''Topic not found, which should be created through console or administration API before hand.''"
| "error_message RequestTimeout = ''Timeout when connecting, reading from or writing to brokers.''"
| "error_message PayloadTooLarge = ''Message body is too large.''"
| "error_message PreconditionRequired = ''State of dependent procedure is not right''"
| "error_message TooManyRequest =
     ''Quota exchausted. The user has sent too many requests in a given amount of time.''"
| "error_message UnavailableForLegalReasons =
     ''A server operator has received a legal demand to deny access to a resource or to a set of resources that ''
     @ ''includes the requested resource.''"
| "error_message HeaderFieldsTooLarge =
     ''The server is unwilling to process the request because either an individual header field, or all the ''
     @ ''header fields collectively, are too large''"
| "error_message InternalServerError = ''Server side interval error''"
| "error_message NotImplemented =
     ''The server either does not recognize the request method, or it lacks the ability to fulfil the request.''"
| "error_message BadGateway =
     ''The server was acting as a gateway or proxy and received an invalid response from the upstream server.''"
| "error_message ServiceUnavailable =
     ''The server cannot handle the request (because it is overloaded or down for maintenance). Generally, this ''
     @ ''is a temporary state.''"
| "error_message GatewayTimeout =
     ''The server was acting as a gateway or proxy and did not receive a timely response from the upstream server.''"
| "error_message ProtocolVersionNotSupported =
     ''The server does not support the protocol version used in the request.''"
| "error_message InsufficientStorage =
     ''The server is unable to store the representation needed to complete the request.''"

section \<open>Exceptions\<close>

record MQException =
  mx_error :: i32
  mx_line :: i32
  mx_msg :: string
  mx_file :: string
  mx_type :: string

definition make_MQException :: "string \<Rightarrow> i32 \<Rightarrow> string \<Rightarrow> string \<Rightarrow> i32 \<Rightarrow> MQException" where
  "make_MQException msg err file ty line =
     \<lparr>mx_error = err, mx_line = line,
      mx_msg = ''msg: '' @ msg @ '',error:'' @ to_string_int err @ '',in file <'' @ file @ ''> line:'' @ to_string_int line,
      mx_file = file, mx_type = ty\<rparr>"

text \<open>What a blocking call throws for an error code.\<close>

definition thrown :: "string \<Rightarrow> i32 \<Rightarrow> ErrorCode \<Rightarrow> MQException" where
  "thrown file line ec = make_MQException (error_message ec) (error_value ec) file ''MQClientException'' line"

section \<open>Lemmas\<close>

text \<open>An application can tell the errors apart, by the message and by the number of the exception.\<close>

lemma error_message_inject: "error_message a = error_message b \<longleftrightarrow> a = b"
  by (cases a; cases b; simp)

lemma error_value_inject: "error_value a = error_value b \<longleftrightarrow> a = b"
  by (cases a; cases b; simp)

lemma thrown_inject: "mx_error (thrown f l a) = mx_error (thrown f' l' b) \<longleftrightarrow> a = b"
  by (simp add: thrown_def make_MQException_def error_value_inject)

end
