(* ===== verification/Spans.thy ===== *)
theory Spans
  imports Producer Consume_Service Exporter Message_Attributes Error_Category
begin

text \<open>
  The trace spans of sending, of ending a transaction and of consuming (\<open>ProducerImpl.cpp\<close>,
  \<open>ConsumeStandardMessageService.cpp\<close>), and what the exporter makes of them. OpenCensus is the record
  \<open>trace_lib\<close>: whether a header names a valid parent, and the texts of times and of joined keys. None: the
  access key is taken from a provider that is missing.
\<close>

section \<open>Spans\<close>

datatype span_status = Span_OK | Span_UNKNOWN | Span_ABORTED

record trace_lib =
  tl_valid_parent :: "string \<Rightarrow> bool"
  tl_format_time :: "time_point \<Rightarrow> string"
  tl_join :: "string list \<Rightarrow> string"
  tl_hostname :: string

record span =
  sp_name :: string
  sp_parent :: "string option"
  sp_attributes :: attributes
  sp_annotations :: "(string \<times> attributes) list"
  sp_status :: "span_status option"
  sp_ended :: bool

definition start_span :: "trace_lib \<Rightarrow> string \<Rightarrow> string \<Rightarrow> span" where
  "start_span lib name trace_context =
     \<lparr>sp_name = name, sp_parent = (if tl_valid_parent lib trace_context then Some trace_context else None),
      sp_attributes = [], sp_annotations = [], sp_status = None, sp_ended = False\<rparr>"

definition add_attributes :: "attributes \<Rightarrow> span \<Rightarrow> span" where
  "add_attributes as sp = sp\<lparr>sp_attributes := sp_attributes sp @ as\<rparr>"

definition end_span :: "span \<Rightarrow> span" where
  "end_span sp = sp\<lparr>sp_ended := True\<rparr>"

definition SPAN_NAME_SEND_MESSAGE :: string where "SPAN_NAME_SEND_MESSAGE = ''SendMessage''"
definition SPAN_NAME_END_TRANSACTION :: string where "SPAN_NAME_END_TRANSACTION = ''EndTransaction''"
definition SPAN_NAME_AWAIT_CONSUMPTION :: string where "SPAN_NAME_AWAIT_CONSUMPTION = ''AwaitingConsumption''"
definition SPAN_NAME_CONSUME_MESSAGE :: string where "SPAN_NAME_CONSUME_MESSAGE = ''ConsumeMessage''"

section \<open>Sending\<close>

text \<open>The attempt is counted from 1.\<close>

definition send_span :: "trace_lib \<Rightarrow> ClientConfig \<Rightarrow> RetrySendCallback \<Rightarrow> span option" where
  "send_span lib c rt =
     (let m = rt_message rt; delivery = deliveryTimestamp m
      in map_option (\<lambda>ak. add_attributes
           ([(''ak'', StringValue ak), (''setResourceNamespace'', StringValue (cc_resource_namespace c)),
             (''topic'', StringValue (getTopic m)), (''msgId'', StringValue (getMsgId m)),
             (''group'', StringValue (cc_group_name c)), (''tags'', StringValue (getTags m))]
            @ (if getKeys m \<noteq> [] then [(''keys'', StringValue (tl_join lib (getKeys m)))] else [])
            @ [(''attempt'', IntValue (1 + rt_attempt_times rt)), (''host'', StringValue (tl_hostname lib))]
            @ (if delivery \<noteq> 0 then [(''deliveryTimestamp'', StringValue (tl_format_time lib delivery))] else []))
           (start_span lib SPAN_NAME_SEND_MESSAGE (traceContext m)))
         (access_key c))"

text \<open>The end of an attempt: the callback of the send ends the span.\<close>

definition end_transaction_span :: "trace_lib \<Rightarrow> ClientConfig \<Rightarrow> string \<Rightarrow> string \<Rightarrow> TransactionState \<Rightarrow> span option" where
  "end_transaction_span lib c trace_context message_id resolution =
     map_option (\<lambda>ak. add_attributes
         [(''ak'', StringValue ak), (''setResourceNamespace'', StringValue (cc_resource_namespace c)),
          (''group'', StringValue (cc_group_name c)), (''msgId'', StringValue message_id),
          (''host'', StringValue (tl_hostname lib)),
          (''commitAction'', StringValue (case resolution of COMMIT \<Rightarrow> ''commit'' | ROLLBACK \<Rightarrow> ''rollback''))]
         (start_span lib SPAN_NAME_END_TRANSACTION trace_context))
       (access_key c)"

definition end_transaction_done :: "ErrorCode \<Rightarrow> span \<Rightarrow> span" where
  "end_transaction_done ec sp =
     (if failed ec
      then end_span (sp\<lparr>sp_status := Some Span_ABORTED, sp_annotations := sp_annotations sp @ [(error_message ec, [])]\<rparr>)
      else end_span (sp\<lparr>sp_status := Some Span_OK\<rparr>))"

section \<open>Consuming\<close>

definition consume_attributes :: "trace_lib \<Rightarrow> PushConsumer \<Rightarrow> string \<Rightarrow> MQMessageExt \<Rightarrow> attributes" where
  "consume_attributes lib c ak m =
     [(''ak'', StringValue ak), (''setResourceNamespace'', StringValue (cc_resource_namespace (pc_config c))),
      (''topic'', StringValue (getTopic m)), (''msgId'', StringValue (getMsgId m)),
      (''group'', StringValue (cc_group_name (pc_config c))), (''tags'', StringValue (getTags m)),
      (''keys'', StringValue (tl_join lib (getKeys m))), (''attempt'', IntValue (getDeliveryAttempt m)),
      (''availableTimestamp'', StringValue (tl_format_time lib (storeTimestamp m))),
      (''host'', StringValue (tl_hostname lib))]"

text \<open>The time a message waited in its process queue: the start of this span is an annotation.\<close>

definition await_span :: "trace_lib \<Rightarrow> PushConsumer \<Rightarrow> MQMessageExt \<Rightarrow> span option" where
  "await_span lib c m = map_option (\<lambda>ak.
     end_span ((add_attributes (consume_attributes lib c ak m) (start_span lib SPAN_NAME_AWAIT_CONSUMPTION (traceContext m)))
       \<lparr>sp_annotations := [(SPAN_ANNOTATION_AWAIT_CONSUMPTION,
           [(SPAN_ANNOTATION_ATTR_START_TIME, IntValue (decodedTimestamp m))])]\<rparr>))
     (access_key (pc_config c))"

definition consume_span :: "trace_lib \<Rightarrow> PushConsumer \<Rightarrow> nat \<Rightarrow> MQMessageExt \<Rightarrow> span option" where
  "consume_span lib c batch_size m = map_option (\<lambda>ak.
     add_attributes (consume_attributes lib c ak m @ [(''batchSize'', IntValue (int batch_size))])
       (start_span lib SPAN_NAME_CONSUME_MESSAGE (traceContext m)))
     (access_key (pc_config c))"

definition consume_done :: "ConsumeMessageResult \<Rightarrow> span \<Rightarrow> span" where
  "consume_done status sp =
     end_span (sp\<lparr>sp_status := Some (case status of SUCCESS \<Rightarrow> Span_OK | FAILURE \<Rightarrow> Span_UNKNOWN)\<rparr>)"

text \<open>All spans of a batch.\<close>

definition batch_spans ::
  "trace_lib \<Rightarrow> PushConsumer \<Rightarrow> ConsumeMessageResult \<Rightarrow> MQMessageExt list \<Rightarrow> (span list \<times> span list) option" where
  "batch_spans lib c status msgs =
     (case those (map (await_span lib c) msgs) of
        None \<Rightarrow> None
      | Some waits \<Rightarrow> map_option (\<lambda>spans. (waits, map (consume_done status) spans))
          (those (map (consume_span lib c (length msgs)) msgs)))"

section \<open>Exporting\<close>

text \<open>OpenCensus hands a span that ended to the exporter with its name, attributes and annotations; ids and
  clock readings are its own.\<close>

definition hands_over :: "(span \<Rightarrow> SpanData) \<Rightarrow> bool" where
  "hands_over to_data = (\<forall>sp. sd_name (to_data sp) = sp_name sp \<and> sd_attributes (to_data sp) = sp_attributes sp
     \<and> map (\<lambda>a. (an_description a, an_attributes a)) (sd_annotations (to_data sp)) = sp_annotations sp)"

section \<open>Lemmas\<close>

lemma those_map_Some: "those (map (\<lambda>x. Some (f x)) xs) = Some (map f xs)"
  by (induction xs) simp_all

lemma those_map_None: "xs \<noteq> [] \<Longrightarrow> those (map (\<lambda>x. None) xs) = None"
  by (cases xs) simp_all

lemma send_span_crash: "send_span lib c rt = None \<longleftrightarrow> access_key c = None"
  by (simp add: send_span_def Let_def)

lemma end_transaction_span_crash: "end_transaction_span lib c tc i r = None \<longleftrightarrow> access_key c = None"
  by (simp add: end_transaction_span_def)

lemma batch_spans_crash: "msgs \<noteq> [] \<Longrightarrow> access_key (pc_config c) = None \<Longrightarrow> batch_spans lib c status msgs = None"
  by (simp add: batch_spans_def await_span_def[abs_def] those_map_None)

lemma convert_annotations_await:
  "map (\<lambda>a. (an_description a, an_attributes a)) as = [(SPAN_ANNOTATION_AWAIT_CONSUMPTION, [(SPAN_ANNOTATION_ATTR_START_TIME, IntValue n)])]
   \<Longrightarrow> convert_annotations nanos as (t, evs) = Some (nanos n, evs)"
  by (auto simp: SPAN_ANNOTATION_ATTR_START_TIME_def)

lemma await_span_exported:
  assumes "hands_over to_data" "await_span lib c m = Some sp"
  shows "\<exists>e. convert_span nanos (to_data sp) = Some e \<and> ts_name e = SPAN_NAME_AWAIT_CONSUMPTION \<and> ts_events e = []
    \<and> ts_start_time_unix_nano e = nanos (decodedTimestamp m)"
proof -
  have sp: "sp_annotations sp = [(SPAN_ANNOTATION_AWAIT_CONSUMPTION,
      [(SPAN_ANNOTATION_ATTR_START_TIME, IntValue (decodedTimestamp m))])]" "sp_name sp = SPAN_NAME_AWAIT_CONSUMPTION"
    using assms(2) by (auto simp: await_span_def end_span_def add_attributes_def start_span_def)
  have "convert_annotations nanos (sd_annotations (to_data sp)) (t, []) = Some (nanos (decodedTimestamp m), [])" for t
    using assms(1) sp(1) by (intro convert_annotations_await) (simp add: hands_over_def)
  then show ?thesis using assms(1) sp(2) by (simp add: convert_span_def hands_over_def)
qed

definition sample_lib :: trace_lib where
  "sample_lib = \<lparr>tl_valid_parent = (\<lambda>_. False), tl_format_time = (\<lambda>_. ''time''), tl_join = concat, tl_hostname = ''host''\<rparr>"

definition sample_data :: "span \<Rightarrow> SpanData" where
  "sample_data sp =
     \<lparr>sd_trace_id = ''t'', sd_span_id = ''s'', sd_parent_span_id = [], sd_name = sp_name sp, sd_start_time = 1, sd_end_time = 2,
      sd_message_events = [], sd_message_events_dropped = 0,
      sd_annotations = map (\<lambda>(d, as). \<lparr>an_timestamp = 2, an_description = d, an_attributes = as\<rparr>) (sp_annotations sp),
      sd_annotations_dropped = 0, sd_links = [], sd_num_attributes_dropped = 0, sd_attributes = sp_attributes sp,
      sd_status_ok = True, sd_status_message = []\<rparr>"

section \<open>Properties\<close>



end
