(* ===== verification/Credentials_Provider.thy ===== *)
theory Credentials_Provider
  imports Address_Server Signing
begin

text \<open>
  The providers of credentials (\<open>rocketmq/CredentialsProvider.cpp\<close>): fixed ones, ones read from the
  environment or a file, and the temporary ones of a role, fetched over HTTP and kept until they
  expire. The JSON parser, the parser of times and the file system are parameters. Time is counted in
  ticks of the system clock.
\<close>

section \<open>Fixed credentials\<close>

definition time_point_max :: time_point where
  "time_point_max = 2 ^ 63 - 1"

definition make_Credentials :: "string \<Rightarrow> string \<Rightarrow> Credentials" where
  "make_Credentials key secret =
     \<lparr>cr_access_key = key, cr_access_secret = secret, cr_session_token = [], cr_expiration_instant = time_point_max\<rparr>"

record CredentialsProvider =
  cp_access_key :: string
  cp_access_secret :: string

definition StaticCredentialsProvider :: "string \<Rightarrow> string \<Rightarrow> CredentialsProvider" where
  "StaticCredentialsProvider key secret = \<lparr>cp_access_key = key, cp_access_secret = secret\<rparr>"

definition EnvironmentVariablesCredentialsProvider :: "(string \<Rightarrow> string option) \<Rightarrow> CredentialsProvider" where
  "EnvironmentVariablesCredentialsProvider getenv =
     \<lparr>cp_access_key = (case getenv ''ROCKETMQ_ACCESS_KEY'' of Some key \<Rightarrow> key | None \<Rightarrow> []),
      cp_access_secret = (case getenv ''ROCKETMQ_ACCESS_SECRET'' of Some secret \<Rightarrow> secret | None \<Rightarrow> [])\<rparr>"

text \<open>The home directory of the environment, else the one of the password file.\<close>

definition homeDirectory :: "(string \<Rightarrow> string option) \<Rightarrow> string option \<Rightarrow> string option" where
  "homeDirectory getenv pw_dir = (case getenv ''HOME'' of Some home \<Rightarrow> Some home | None \<Rightarrow> pw_dir)"

text \<open>A parsed JSON object: the fields and their string values.\<close>

type_synonym json = "string \<Rightarrow> (string \<times> string) list option"

definition ConfigFileCredentialsProvider ::
  "json \<Rightarrow> (string \<Rightarrow> string option) \<Rightarrow> (string \<Rightarrow> string option) \<Rightarrow> string option \<Rightarrow> CredentialsProvider" where
  "ConfigFileCredentialsProvider parse files getenv pw_dir =
     (let nothing = \<lparr>cp_access_key = [], cp_access_secret = []\<rparr>
      in case homeDirectory getenv pw_dir of
           None \<Rightarrow> nothing
         | Some home \<Rightarrow>
             let config_file = (if ends_with home ''/'' then home else home @ ''/'') @ ''rocketmq/credentials''
             in case files config_file of
                  None \<Rightarrow> nothing
                | Some content \<Rightarrow>
                    (case parse content of
                       None \<Rightarrow> nothing
                     | Some doc \<Rightarrow>
                         \<lparr>cp_access_key = (case hm_find id doc ''AccessKey'' of Some v \<Rightarrow> v | None \<Rightarrow> []),
                          cp_access_secret = (case hm_find id doc ''AccessSecret'' of Some v \<Rightarrow> v | None \<Rightarrow> [])\<rparr>))"

text \<open>The constructor with a file name reads no file.\<close>

definition ConfigFileCredentialsProvider_with :: "string \<Rightarrow> duration \<Rightarrow> CredentialsProvider" where
  "ConfigFileCredentialsProvider_with config_file refresh_interval = \<lparr>cp_access_key = [], cp_access_secret = []\<rparr>"

definition fixed_getCredentials :: "time_point \<Rightarrow> CredentialsProvider \<Rightarrow> (CredentialsProvider \<times> Credentials) option" where
  "fixed_getCredentials now p = Some (p, make_Credentials (cp_access_key p) (cp_access_secret p))"

section \<open>Temporary credentials\<close>

text \<open>The HTTP client is missing until one is injected; the expiration starts at the epoch.\<close>

record StsCredentialsProviderImpl =
  st_ram_role_name :: string
  st_access_key :: string
  st_access_secret :: string
  st_session_token :: string
  st_expiration :: time_point
  st_http_client :: "HttpClientImpl option"

definition make_StsCredentialsProviderImpl :: "string \<Rightarrow> StsCredentialsProviderImpl" where
  "make_StsCredentialsProviderImpl ram_role_name =
     \<lparr>st_ram_role_name = ram_role_name, st_access_key = [], st_access_secret = [], st_session_token = [], st_expiration = 0,
      st_http_client = None\<rparr>"

definition withHttpClient :: "HttpClientImpl \<Rightarrow> StsCredentialsProviderImpl \<Rightarrow> StsCredentialsProviderImpl" where
  "withHttpClient hc p = p\<lparr>st_http_client := Some hc\<rparr>"

definition RAM_ROLE_HOST :: string where "RAM_ROLE_HOST = ''100.100.100.200''"
definition RAM_ROLE_URL_PREFIX :: string where "RAM_ROLE_URL_PREFIX = ''/latest/meta-data/Ram/security-credentials/''"
definition EXPIRATION_DATE_TIME_FORMAT :: string where "EXPIRATION_DATE_TIME_FORMAT = ''%Y-%m-%d%ET%H:%H:%S%Ez''"

text \<open>The callback of the request. None: a field is missing.\<close>

definition sts_answer ::
  "json \<Rightarrow> (string \<Rightarrow> string \<Rightarrow> time_point option) \<Rightarrow> int \<Rightarrow> string \<Rightarrow> StsCredentialsProviderImpl \<Rightarrow> StsCredentialsProviderImpl option" where
  "sts_answer parse parse_time code body p =
     (if code = 200 then
        case parse body of
          None \<Rightarrow> Some p
        | Some doc \<Rightarrow>
            (case (hm_find id doc ''AccessKeyId'', hm_find id doc ''AccessKeySecret'',
                   hm_find id doc ''SecurityToken'', hm_find id doc ''Expiration'') of
               (Some key, Some secret, Some session_token, Some expiration_string) \<Rightarrow>
                 (case parse_time EXPIRATION_DATE_TIME_FORMAT expiration_string of
                    None \<Rightarrow> Some p
                  | Some expiration_instant \<Rightarrow>
                      Some (p\<lparr>st_access_key := key, st_access_secret := secret,
                              st_session_token := session_token, st_expiration := expiration_instant\<rparr>))
             | _ \<Rightarrow> None)
      else Some p)"

definition refresh ::
  "httplib \<Rightarrow> json \<Rightarrow> (string \<Rightarrow> string \<Rightarrow> time_point option) \<Rightarrow> StsCredentialsProviderImpl \<Rightarrow> StsCredentialsProviderImpl option" where
  "refresh lib parse parse_time p =
     (case st_http_client p of
        None \<Rightarrow> None
      | Some hc \<Rightarrow>
          (case http_get lib HTTP RAM_ROLE_HOST 80 (RAM_ROLE_URL_PREFIX @ st_ram_role_name p) hc of
             None \<Rightarrow> None
           | Some (hc', code, headers, body) \<Rightarrow> sts_answer parse parse_time code body (p\<lparr>st_http_client := Some hc'\<rparr>)))"

definition sts_credentials :: "StsCredentialsProviderImpl \<Rightarrow> Credentials" where
  "sts_credentials p =
     \<lparr>cr_access_key = st_access_key p, cr_access_secret = st_access_secret p, cr_session_token = st_session_token p,
      cr_expiration_instant = st_expiration p\<rparr>"

definition sts_getCredentials ::
  "httplib \<Rightarrow> json \<Rightarrow> (string \<Rightarrow> string \<Rightarrow> time_point option) \<Rightarrow> time_point \<Rightarrow> StsCredentialsProviderImpl \<Rightarrow>
   (StsCredentialsProviderImpl \<times> Credentials) option" where
  "sts_getCredentials lib parse parse_time now p =
     map_option (\<lambda>p'. (p', sts_credentials p'))
       (if st_expiration p \<le> now then refresh lib parse parse_time p else Some p)"

definition destroy_sts :: "StsCredentialsProviderImpl \<Rightarrow> unit option" where
  "destroy_sts p = (if st_http_client p = None then None else Some ())"

section \<open>Several calls\<close>

text \<open>A client asks for credentials with every request it signs.\<close>

fun get_each ::
  "(time_point \<Rightarrow> 's \<Rightarrow> ('s \<times> Credentials) option) \<Rightarrow> time_point list \<Rightarrow> 's \<Rightarrow> ('s \<times> Credentials list) option" where
  "get_each get [] s = Some (s, [])"
| "get_each get (now # later) s =
     (case get now s of
        None \<Rightarrow> None
      | Some (s1, c) \<Rightarrow> map_option (\<lambda>(s2, cs). (s2, c # cs)) (get_each get later s1))"

section \<open>The contract of a provider\<close>

text \<open>Credentials stay the same until they expire, and asking for them again has no effect.\<close>

locale credentials_provider =
  fixes get :: "time_point \<Rightarrow> 's \<Rightarrow> ('s \<times> Credentials) option"
  assumes get_again: "\<lbrakk>get now s = Some (s', c); now' < cr_expiration_instant c\<rbrakk> \<Longrightarrow> get now' s' = Some (s', c)"
begin

lemma get_each_again:
  assumes "get now s = Some (s', c)" "list_all (\<lambda>now'. now' < cr_expiration_instant c) later"
  shows "get_each get later s' = Some (s', replicate (length later) c)"
  using assms(2) by (induction later) (simp_all add: get_again[OF assms(1)])

lemma get_each_same:
  assumes "get now s = Some (s', c)" "list_all (\<lambda>now'. now' < cr_expiration_instant c) later"
  shows "get_each get (now # later) s = Some (s', replicate (Suc (length later)) c)"
  using assms by (simp add: get_each_again)

end

interpretation fixed: credentials_provider fixed_getCredentials
  by unfold_locales (auto simp: fixed_getCredentials_def)

interpretation sts: credentials_provider "sts_getCredentials lib parse parse_time" for lib parse parse_time
  by unfold_locales (auto simp: sts_getCredentials_def sts_credentials_def split: if_splits)

section \<open>Temporary credentials are fetched once\<close>

lemma refresh_success:
  assumes "st_http_client p = Some hc"
    and "http_connection lib ''http://100.100.100.200:80'' hc = (hc', c)" "hl_is_valid lib c"
    and "hl_Get lib c (RAM_ROLE_URL_PREFIX @ st_ram_role_name p) = Some (200, body)" "parse body = Some doc"
    and "hm_find id doc ''AccessKeyId'' = Some key" "hm_find id doc ''AccessKeySecret'' = Some secret"
    and "hm_find id doc ''SecurityToken'' = Some token" "hm_find id doc ''Expiration'' = Some expiration"
    and "parse_time EXPIRATION_DATE_TIME_FORMAT expiration = Some instant"
  shows "refresh lib parse parse_time p = Some (p\<lparr>st_http_client := Some hc', st_access_key := key, st_access_secret := secret,
      st_session_token := token, st_expiration := instant\<rparr>)"
proof -
  have "to_string_nat 80 = ''80''" by code_simp
  then have "http_key HTTP RAM_ROLE_HOST 80 = ''http://100.100.100.200:80''"
    by (simp add: http_key_def protocol_prefix_def RAM_ROLE_HOST_def)
  then show ?thesis using assms by (simp add: refresh_def http_get_def sts_answer_def)
qed


definition sample_doc :: "(string \<times> string) list" where
  "sample_doc = [(''AccessKeyId'', ''k''), (''AccessKeySecret'', ''s''), (''SecurityToken'', ''t''), (''Expiration'', ''e'')]"


text \<open>The provider of temporary credentials that applications can build never works: no HTTP client
  is ever injected into it, so the first call for credentials and its destruction both dereference null.\<close>

theorem sts_without_client:
  assumes "0 \<le> now"
  shows "sts_getCredentials lib parse parse_time now (make_StsCredentialsProviderImpl role) = None
     \<and> destroy_sts (make_StsCredentialsProviderImpl role) = None"
  using assms by (simp add: sts_getCredentials_def make_StsCredentialsProviderImpl_def refresh_def destroy_sts_def)

theorem sts_without_client_witness:
  "sts_getCredentials \<lparr>hl_is_valid = (\<lambda>c. True), hl_Get = (\<lambda>c path. Some (200, ''body''))\<rparr> (\<lambda>body. Some sample_doc)
     (\<lambda>format s. Some 90) 5 (make_StsCredentialsProviderImpl ''role'') = None"
  by (simp add: sts_without_client)

text \<open>A refresh that fails without an abort leaves the old credentials, which may have expired.\<close>

lemma sts_failure_keeps_old:
  "\<lbrakk>st_expiration p \<le> now; st_http_client p = Some hc;
    http_get lib HTTP RAM_ROLE_HOST 80 (RAM_ROLE_URL_PREFIX @ st_ram_role_name p) hc = Some (hc', code, headers, body);
    code \<noteq> 200 \<or> parse body = None\<rbrakk>
   \<Longrightarrow> sts_getCredentials lib parse parse_time now p = Some (p\<lparr>st_http_client := Some hc'\<rparr>, sts_credentials p)"
  by (auto simp: sts_getCredentials_def refresh_def sts_answer_def sts_credentials_def)

text \<open>Credentials in a file are read once, under the home directory; a file name given by the
  application is ignored.\<close>

lemma config_file_read:
  "\<lbrakk>getenv ''HOME'' = Some home; home \<noteq> []; last home \<noteq> CHR ''/''; files (home @ ''/rocketmq/credentials'') = Some content;
    parse content = Some [(''AccessKey'', k), (''AccessSecret'', s)]\<rbrakk>
   \<Longrightarrow> fixed_getCredentials now (ConfigFileCredentialsProvider parse files getenv pw_dir)
     = Some (StaticCredentialsProvider k s, make_Credentials k s)
   \<and> (\<forall>config_file interval. Credentials_empty (snd (the (fixed_getCredentials now
       (ConfigFileCredentialsProvider_with config_file interval)))))"
  by (simp add: ConfigFileCredentialsProvider_def homeDirectory_def ends_with_last fixed_getCredentials_def
      StaticCredentialsProvider_def ConfigFileCredentialsProvider_with_def Credentials_empty_def make_Credentials_def)

end
