(* ===== verification/Trace_Context.thy ===== *)
theory Trace_Context
  imports Mix_All "HOL-Library.Monad_Syntax"
begin

text \<open>
  The header that carries a trace from a producer to a consumer (\<open>client/TracingUtility.cpp\<close>).
  OpenTelemetry writes an id as lower case hexadecimal digits, which is the parameter \<open>base16\<close>; the
  lengths of the parts of the header are constants of a header file that is not part of the sources,
  so they are the parameter \<open>lay\<close>. Reading a string past its end, or writing past the end of a buffer,
  is None.
\<close>

section \<open>Model\<close>

record header_layout =
  hl_version :: nat
  hl_trace_id :: nat
  hl_span_id :: nat
  hl_size :: nat
  hl_trace_id_bytes :: nat
  hl_span_id_bytes :: nat

datatype SpanContext = InvalidSpanContext | SpanContext "byte list" "byte list" byte bool

definition INVALID_TRACE_ID :: string where "INVALID_TRACE_ID = replicate 32 CHR ''0''"
definition INVALID_SPAN_ID :: string where "INVALID_SPAN_ID = replicate 16 CHR ''0''"

text \<open>The result is an unsigned byte, so a character that is no digit gives 255.\<close>

definition hexToInt :: "char \<Rightarrow> byte" where
  "hexToInt c =
     (if char_in CHR ''0'' c CHR ''9'' then char_byte c - char_byte CHR ''0''
      else if char_in CHR ''a'' c CHR ''f'' then char_byte c - char_byte CHR ''a'' + 10
      else if char_in CHR ''A'' c CHR ''F'' then char_byte c - char_byte CHR ''A'' + 10
      else - 1)"

text \<open>The character after the last one is a null character.\<close>

definition char_at :: "string \<Rightarrow> nat \<Rightarrow> char option" where
  "char_at s i = (if i < length s then Some (s ! i) else if i = length s then Some (CHR 0x00) else None)"

function generateHex_loop :: "string \<Rightarrow> nat \<Rightarrow> nat \<Rightarrow> byte list \<Rightarrow> byte list option" where
  "generateHex_loop s bytes i buf =
     (if bytes \<le> i then Some buf
      else do {
        c \<leftarrow> char_at s i;
        if uint (hexToInt c) < 0 then
          (if bytes div 2 \<le> length buf then Some (replicate (bytes div 2) 0 @ drop (bytes div 2) buf) else None)
        else if length buf \<le> i div 2 then None
        else generateHex_loop s bytes (i + 1)
          (buf[i div 2 := (if even i then hexToInt c * 16 else buf ! (i div 2) + hexToInt c)])
      })"
  by pat_completeness auto
termination
  by (relation "measure (\<lambda>(s, bytes, i, buf). bytes - i)") auto

declare generateHex_loop.simps [simp del]

definition generateHexFromString :: "string \<Rightarrow> nat \<Rightarrow> byte list \<Rightarrow> byte list option" where
  "generateHexFromString s bytes buf = generateHex_loop s bytes 0 buf"

text \<open>A buffer on the stack starts with any content, here \<open>junk\<close>.\<close>

definition generateTraceIdFromString :: "(nat \<Rightarrow> byte) \<Rightarrow> header_layout \<Rightarrow> string \<Rightarrow> byte list option" where
  "generateTraceIdFromString junk lay trace_id =
     generateHexFromString trace_id (hl_trace_id lay) (map junk [0..<hl_trace_id_bytes lay div 2])"

definition generateSpanIdFromString :: "(nat \<Rightarrow> byte) \<Rightarrow> header_layout \<Rightarrow> string \<Rightarrow> byte list option" where
  "generateSpanIdFromString junk lay span_id =
     generateHexFromString span_id (hl_span_id lay) (map junk [0..<hl_span_id_bytes lay div 2])"

definition isValidHex :: "string \<Rightarrow> bool" where
  "isValidHex str = list_all (\<lambda>i. char_in CHR ''0'' i CHR ''9'' \<or> char_in CHR ''a'' i CHR ''f'') str"

definition generateTraceFlagsFromString :: "string \<Rightarrow> byte option" where
  "generateTraceFlagsFromString trace_flags =
     (if length trace_flags > 2 then Some 0
      else do {
        c1 \<leftarrow> char_at trace_flags 0;
        c2 \<leftarrow> char_at trace_flags 1;
        Some (if uint (hexToInt c1) < 0 \<or> uint (hexToInt c2) < 0 then 0 else hexToInt c1 * 16 + hexToInt c2)
      })"

definition injectSpanContextToTraceParent :: "(byte list \<Rightarrow> string) \<Rightarrow> byte list \<Rightarrow> byte list \<Rightarrow> byte \<Rightarrow> string" where
  "injectSpanContextToTraceParent base16 trace_id span_id trace_flags =
     ''00-'' @ base16 trace_id @ ''-'' @ base16 span_id @ ''-'' @ base16 [trace_flags]"

definition substr :: "string \<Rightarrow> nat \<Rightarrow> nat \<Rightarrow> string option" where
  "substr s pos len = (if length s < pos then None else Some (take len (drop pos s)))"

definition extractContextFromTraceParent :: "(nat \<Rightarrow> byte) \<Rightarrow> header_layout \<Rightarrow> string \<Rightarrow> SpanContext option" where
  "extractContextFromTraceParent junk lay trace_parent =
     (let v = hl_version lay; t = hl_trace_id lay; s = hl_span_id lay
      in if length trace_parent \<noteq> hl_size lay then Some InvalidSpanContext
      else do {
        c1 \<leftarrow> char_at trace_parent v;
        c2 \<leftarrow> char_at trace_parent (v + t + 1);
        c3 \<leftarrow> char_at trace_parent (v + t + s + 2);
        if c1 \<noteq> CHR ''-'' \<or> c2 \<noteq> CHR ''-'' \<or> c3 \<noteq> CHR ''-'' then Some InvalidSpanContext
        else do {
          version \<leftarrow> substr trace_parent 0 v;
          trace_id \<leftarrow> substr trace_parent (v + 1) t;
          span_id \<leftarrow> substr trace_parent (v + t + 2) s;
          trace_flags \<leftarrow> substr trace_parent (v + t + s + 3) (length trace_parent);
          if version = ''ff'' \<or> trace_id = INVALID_TRACE_ID \<or> span_id = INVALID_SPAN_ID then Some InvalidSpanContext
          else if \<not> isValidHex version \<or> \<not> isValidHex trace_id \<or> \<not> isValidHex span_id \<or> \<not> isValidHex trace_flags
            then Some InvalidSpanContext
          else do {
            trace_id_obj \<leftarrow> generateTraceIdFromString junk lay trace_id;
            span_id_obj \<leftarrow> generateSpanIdFromString junk lay span_id;
            trace_flags_obj \<leftarrow> generateTraceFlagsFromString trace_flags;
            Some (SpanContext trace_id_obj span_id_obj trace_flags_obj True)
          }
        }
      })"

section \<open>What the code relies on\<close>

text \<open>The layout of a version 00 header: two digits, 32, 16 and two, with three dashes.\<close>

definition w3c_layout :: header_layout where
  "w3c_layout = \<lparr>hl_version = 2, hl_trace_id = 32, hl_span_id = 16, hl_size = 55, hl_trace_id_bytes = 32, hl_span_id_bytes = 16\<rparr>"

definition lower_digit :: "byte \<Rightarrow> char" where
  "lower_digit d = ''0123456789abcdef'' ! unat d"

definition lower_hex :: "byte list \<Rightarrow> string" where
  "lower_hex bs = concat (map (\<lambda>b. [lower_digit (b div 16), lower_digit (b mod 16)]) bs)"

definition lower_base16 :: "(byte list \<Rightarrow> string) \<Rightarrow> bool" where
  "lower_base16 base16 = (\<forall>bs. base16 bs = lower_hex bs)"

section \<open>Lemmas: digits\<close>

lemma lower_digit_nat:
  assumes "n < 16"
  shows "hexToInt (''0123456789abcdef'' ! n) = of_nat n" "isValidHex [''0123456789abcdef'' ! n]"
    "''0123456789abcdef'' ! n = CHR ''0'' \<longleftrightarrow> n = 0"
proof -
  have "\<forall>k \<in> set [0..<16]. hexToInt (''0123456789abcdef'' ! k) = of_nat k \<and> isValidHex [''0123456789abcdef'' ! k]
      \<and> (''0123456789abcdef'' ! k = CHR ''0'' \<longleftrightarrow> k = 0)" by code_simp
  then show "hexToInt (''0123456789abcdef'' ! n) = of_nat n" "isValidHex [''0123456789abcdef'' ! n]"
    "''0123456789abcdef'' ! n = CHR ''0'' \<longleftrightarrow> n = 0" using assms by auto
qed

lemma nibble_less: "unat (b div 16 :: byte) < 16" "unat (b mod 16 :: byte) < 16"
proof -
  have "(unsigned b :: nat) < 2 ^ LENGTH(8)" by (rule unsigned_less)
  then have "unat b < 256" by simp
  then show "unat (b div 16 :: byte) < 16" "unat (b mod 16 :: byte) < 16" by (simp_all add: unat_div unat_mod)
qed

lemma lower_digit_facts:
  assumes "unat d < 16"
  shows "hexToInt (lower_digit d) = d" "isValidHex [lower_digit d]" "lower_digit d = CHR ''0'' \<longleftrightarrow> d = 0"
  using lower_digit_nat[OF assms] by (simp_all add: lower_digit_def unat_eq_0)

lemmas nibble_digits [simp] = lower_digit_facts[OF nibble_less(1)] lower_digit_facts[OF nibble_less(2)]

lemma lower_hex_simps [simp]:
  "lower_hex [] = []" "lower_hex (b # bs) = lower_digit (b div 16) # lower_digit (b mod 16) # lower_hex bs"
  by (simp_all add: lower_hex_def)

lemma length_lower_hex [simp]: "length (lower_hex bs) = 2 * length bs"
  by (induction bs) simp_all

lemma isValidHex_lower_hex [simp]: "isValidHex (lower_hex bs)"
proof (induction bs)
  case (Cons b bs)
  then show ?case using nibble_digits(2)[of b] nibble_digits(5)[of b] by (simp add: isValidHex_def)
qed (simp add: isValidHex_def)

lemma lower_hex_zero: "lower_hex bs = replicate (2 * length bs) CHR ''0'' \<longleftrightarrow> bs = replicate (length bs) 0"
proof (induction bs)
  case (Cons b bs)
  have "b = 0" if "b div 16 = 0" "b mod 16 = 0" using div_mult_mod_eq[of b 16] unfolding that by simp
  moreover have "b div 16 = 0" "b mod 16 = 0" if "b = 0" using that by simp_all
  ultimately have "b div 16 = 0 \<and> b mod 16 = 0 \<longleftrightarrow> b = 0" by iprover
  then show ?case using Cons by (simp only: lower_hex_simps length_Cons mult_Suc_right replicate_Suc list.inject
      nibble_digits numeral_2_eq_2 plus_nat.add_Suc plus_nat.add_0) argo
qed simp

lemma lower_hex_nth:
  "j < length bs \<Longrightarrow> lower_hex bs ! (2 * j) = lower_digit (bs ! j div 16)
     \<and> lower_hex bs ! (2 * j + 1) = lower_digit (bs ! j mod 16)"
proof (induction bs arbitrary: j)
  case (Cons b bs)
  then show ?case by (cases j) auto
qed simp

section \<open>Lemmas: decoding\<close>

lemma generateHex_step:
  assumes "i < bytes" "i < length s" "i div 2 < length buf"
  shows "generateHex_loop s bytes i buf = generateHex_loop s bytes (i + 1)
    (buf[i div 2 := (if even i then hexToInt (s ! i) * 16 else buf ! (i div 2) + hexToInt (s ! i))])"
  using assms by (simp add: generateHex_loop.simps[of s bytes i] char_at_def)

text \<open>Two digits make a byte.\<close>

lemma generateHex_byte:
  assumes "j < length bs" "length buf = length bs"
  shows "generateHex_loop (lower_hex bs) (2 * length bs) (2 * j) (take j bs @ drop j buf) =
    generateHex_loop (lower_hex bs) (2 * length bs) (2 * Suc j) (take (Suc j) bs @ drop (Suc j) buf)"
proof -
  let ?s = "lower_hex bs" and ?n = "2 * length bs" and ?b = "take j bs @ drop j buf"
  have len: "j < length ?b" using assms by simp
  have two: "?s ! (2 * j) = lower_digit (bs ! j div 16)" "?s ! (2 * j + 1) = lower_digit (bs ! j mod 16)"
    using lower_hex_nth[OF assms(1)] by simp_all
  have "generateHex_loop ?s ?n (2 * j) ?b = generateHex_loop ?s ?n (2 * j + 1) (?b[j := bs ! j div 16 * 16])"
    using generateHex_step[of "2 * j" ?n ?s ?b] assms(1) len by (simp add: two)
  also have "\<dots> = generateHex_loop ?s ?n (2 * j + 1 + 1) (?b[j := bs ! j div 16 * 16 + bs ! j mod 16])"
    using generateHex_step[of "2 * j + 1" ?n ?s "?b[j := bs ! j div 16 * 16]"] assms(1) len two(2) by simp
  also have "?b[j := bs ! j div 16 * 16 + bs ! j mod 16] = take (Suc j) bs @ drop (Suc j) buf"
    using assms by (simp add: div_mult_mod_eq list_update_append take_Suc_conv_app_nth Cons_nth_drop_Suc[symmetric])
  finally show ?thesis by simp
qed

lemma generateHex_bytes:
  assumes "length buf = length bs" "j \<le> length bs"
  shows "generateHex_loop (lower_hex bs) (2 * length bs) (2 * j) (take j bs @ drop j buf) = Some bs"
  using assms(2)
proof (induction "length bs - j" arbitrary: j)
  case 0
  then show ?case using assms(1) by (simp add: generateHex_loop.simps)
next
  case (Suc d)
  then show ?case using generateHex_byte[of j bs buf] assms(1) Suc.hyps(1)[of "Suc j"] by simp
qed

lemma generateHex_lower_hex:
  "length buf = length bs \<Longrightarrow> generateHexFromString (lower_hex bs) (2 * length bs) buf = Some bs"
  using generateHex_bytes[of buf bs 0] by (simp add: generateHexFromString_def)

lemma generateHex_total:
  "bytes \<le> length s \<Longrightarrow> bytes \<le> 2 * length buf \<Longrightarrow> generateHex_loop s bytes i buf \<noteq> None"
proof (induction s bytes i buf rule: generateHex_loop.induct)
  case (1 s bytes i buf)
  show ?case
  proof (cases "bytes \<le> i")
    case False
    then have "i < length s" "i div 2 < length buf" using 1(2,3) by auto
    then show ?thesis using 1 False generateHex_step[of i bytes s buf] by (simp add: char_at_def)
  qed (simp add: generateHex_loop.simps)
qed

lemma generateTraceFlags_lower_hex: "generateTraceFlagsFromString (lower_hex [b]) = Some b"
  by (simp add: generateTraceFlagsFromString_def char_at_def div_mult_mod_eq)

section \<open>Properties\<close>

text \<open>C28. A trace context survives its way through a message header: what \<open>inject\<close> writes for a valid
  context, \<open>extract\<close> reads back, marked as remote. It only relies on how ids are printed.\<close>

theorem trace_parent_round_trip:
  assumes "lower_base16 base16" "length trace_id = 16" "length span_id = 8"
    and "trace_id \<noteq> replicate 16 0" "span_id \<noteq> replicate 8 0"
  shows "extractContextFromTraceParent junk w3c_layout (injectSpanContextToTraceParent base16 trace_id span_id flags)
    = Some (SpanContext trace_id span_id flags True)"
proof -
  let ?t = "lower_hex trace_id" and ?s = "lower_hex span_id" and ?f = "lower_hex [flags]"
  have header: "injectSpanContextToTraceParent base16 trace_id span_id flags = ''00-'' @ ?t @ ''-'' @ ?s @ ''-'' @ ?f"
    using assms(1) unfolding lower_base16_def injectSpanContextToTraceParent_def by simp
  have lens: "length ?t = 32" "length ?s = 16" "length ?f = 2" using assms(2,3) by simp_all
  have valid: "?t \<noteq> INVALID_TRACE_ID" "?s \<noteq> INVALID_SPAN_ID"
    using lower_hex_zero[of trace_id] lower_hex_zero[of span_id] assms by (simp_all add: INVALID_TRACE_ID_def INVALID_SPAN_ID_def)
  have ids: "generateTraceIdFromString junk w3c_layout ?t = Some trace_id" "generateSpanIdFromString junk w3c_layout ?s = Some span_id"
    using generateHex_lower_hex[of _ trace_id] generateHex_lower_hex[of _ span_id] assms(2,3)
    by (simp_all add: generateTraceIdFromString_def generateSpanIdFromString_def w3c_layout_def)
  have version: "isValidHex ''00''" by (simp add: isValidHex_def char_in_def)
  show ?thesis
    unfolding header extractContextFromTraceParent_def
    using lens valid ids version generateTraceFlags_lower_hex[of flags]
    by (simp add: w3c_layout_def char_at_def nth_append substr_def Let_def del: lower_hex_simps)
qed

theorem trace_parent_round_trip_witness:
  "extractContextFromTraceParent (\<lambda>_. 9) w3c_layout
     (injectSpanContextToTraceParent lower_hex (replicate 16 171) (replicate 8 7) 1)
   = Some (SpanContext (replicate 16 171) (replicate 8 7) 1 True)"
  using trace_parent_round_trip[of lower_hex "replicate 16 171" "replicate 8 7" "\<lambda>_. 9" 1]
  by (simp add: lower_base16_def)

text \<open>Whatever header arrives, \<open>extract\<close> never reads past the end of the header or writes past the
  end of a buffer.\<close>

theorem extract_in_bounds: "extractContextFromTraceParent junk w3c_layout trace_parent \<noteq> None"
proof (cases "length trace_parent = 55")
  case True
  let ?t = "take 32 (drop 3 trace_parent)" and ?s = "take 16 (drop 36 trace_parent)" and ?f = "take 55 (drop 53 trace_parent)"
  have "generateTraceIdFromString junk w3c_layout ?t \<noteq> None" "generateSpanIdFromString junk w3c_layout ?s \<noteq> None"
    using True by (simp_all only: generateTraceIdFromString_def generateSpanIdFromString_def generateHexFromString_def)
      (rule generateHex_total; simp add: w3c_layout_def)+
  moreover have "generateTraceFlagsFromString ?f \<noteq> None" using True
    by (simp add: generateTraceFlagsFromString_def char_at_def)
  ultimately show ?thesis using True
    by (auto simp: extractContextFromTraceParent_def w3c_layout_def char_at_def substr_def Let_def)
qed (simp add: extractContextFromTraceParent_def w3c_layout_def)

end
