(* ===== verification/Admin.thy ===== *)
theory Admin
  imports Name_Server
begin

text \<open>
  Logging and its administration: the logger of the library (\<open>log/LoggerImpl\<close>), the service that changes
  its level at run time (\<open>admin/AdminServiceImpl.cpp\<close>), the server that offers the service
  (\<open>admin/AdminServerImpl.cpp\<close>, \<open>admin/include/ServerCall.h\<close>) and the command line client
  (\<open>admin/AdminClient.cpp\<close>). spdlog keeps a level for the logger and one for each of its sinks; which
  messages a sink writes is a parameter.
\<close>

section \<open>Levels\<close>

datatype Level = Trace | Debug | Info | Warn | Error

primrec level_value :: "Level \<Rightarrow> nat" where
  "level_value Trace = 0"
| "level_value Debug = 1"
| "level_value Info = 2"
| "level_value Warn = 3"
| "level_value Error = 4"

instantiation Level :: linorder
begin

definition less_eq_Level :: "Level \<Rightarrow> Level \<Rightarrow> bool" where
  "less_eq_Level a b = (level_value a \<le> level_value b)"

definition less_Level :: "Level \<Rightarrow> Level \<Rightarrow> bool" where
  "less_Level a b = (level_value a < level_value b)"

instance
proof
  fix a b :: Level
  assume "a \<le> b" "b \<le> a"
  then show "a = b" by (cases a; cases b) (simp_all add: less_eq_Level_def)
qed (auto simp: less_eq_Level_def less_Level_def)

end

section \<open>The logger\<close>

record log_sink =
  sk_level :: Level
  sk_pattern :: string

text \<open>\<open>lo_logger\<close> is the level of the logger that is registered with spdlog, None before \<open>init\<close>.\<close>

record LoggerImpl =
  lo_level :: Level
  lo_console_level :: Level
  lo_log_home :: string
  lo_file_size :: u64
  lo_file_count :: u64
  lo_pattern :: string
  lo_init_once :: bool
  lo_file_sink :: "log_sink option"
  lo_console_sink :: "log_sink option"
  lo_logger :: "Level option"

definition make_LoggerImpl :: LoggerImpl where
  "make_LoggerImpl =
     \<lparr>lo_level = Info, lo_console_level = Warn, lo_log_home = [], lo_file_size = 1048576 * 256, lo_file_count = 16,
      lo_pattern = [], lo_init_once = False, lo_file_sink = None, lo_console_sink = None, lo_logger = None\<rparr>"

definition DEFAULT_PATTERN :: string where
  "DEFAULT_PATTERN = ''[%Y/%m/%d-%H:%M:%S.%e %z] [%n] [%^---%L---%$] [thread %t] %v %@''"

definition setLevel :: "Level \<Rightarrow> LoggerImpl \<Rightarrow> LoggerImpl" where
  "setLevel level lg = lg\<lparr>lo_level := level, lo_logger := map_option (\<lambda>_. level) (lo_logger lg)\<rparr>"

definition setConsoleLevel :: "Level \<Rightarrow> LoggerImpl \<Rightarrow> LoggerImpl" where
  "setConsoleLevel level lg =
     lg\<lparr>lo_console_level := level, lo_console_sink := map_option (\<lambda>s. s\<lparr>sk_level := level\<rparr>) (lo_console_sink lg)\<rparr>"

definition setFileSize :: "u64 \<Rightarrow> LoggerImpl \<Rightarrow> LoggerImpl" where
  "setFileSize file_size lg = lg\<lparr>lo_file_size := file_size\<rparr>"

definition setFileCount :: "u64 \<Rightarrow> LoggerImpl \<Rightarrow> LoggerImpl" where
  "setFileCount file_count lg = lg\<lparr>lo_file_count := file_count\<rparr>"

text \<open>The pattern of a logger is the one of its sinks.\<close>

definition setPattern :: "string \<Rightarrow> LoggerImpl \<Rightarrow> LoggerImpl" where
  "setPattern pattern lg =
     (let lg1 = lg\<lparr>lo_pattern := pattern\<rparr>
      in if lo_logger lg = None then lg1
         else lg1\<lparr>lo_file_sink := map_option (\<lambda>s. s\<lparr>sk_pattern := pattern\<rparr>) (lo_file_sink lg),
                  lo_console_sink := map_option (\<lambda>s. s\<lparr>sk_pattern := pattern\<rparr>) (lo_console_sink lg)\<rparr>)"

text \<open>\<open>directory_ready\<close> tells whether the directory of a file exists or could be created. None: the
  process aborts.\<close>

definition init0 :: "(string \<Rightarrow> string option) \<Rightarrow> string \<Rightarrow> (string \<Rightarrow> bool) \<Rightarrow> LoggerImpl \<Rightarrow> LoggerImpl option" where
  "init0 getenv temp_directory directory_ready lg =
     (let log_home = (if lo_log_home lg = []
            then (case getenv ''HOME'' of Some home \<Rightarrow> home | None \<Rightarrow> temp_directory) @ ''/logs/rocketmq/client.log''
            else lo_log_home lg);
          pattern = (if lo_pattern lg = [] then DEFAULT_PATTERN else lo_pattern lg)
      in if \<not> directory_ready log_home then None
         else Some (lg\<lparr>lo_log_home := log_home, lo_pattern := pattern,
                lo_console_sink := Some \<lparr>sk_level = lo_console_level lg, sk_pattern = pattern\<rparr>,
                lo_file_sink := Some \<lparr>sk_level = lo_level lg, sk_pattern = pattern\<rparr>,
                lo_logger := Some Trace\<rparr>))"

definition logger_init :: "(string \<Rightarrow> string option) \<Rightarrow> string \<Rightarrow> (string \<Rightarrow> bool) \<Rightarrow> LoggerImpl \<Rightarrow> LoggerImpl option" where
  "logger_init getenv temp_directory directory_ready lg =
     (if lo_init_once lg then Some lg
      else map_option (\<lambda>lg'. lg'\<lparr>lo_init_once := True\<rparr>) (init0 getenv temp_directory directory_ready lg))"

section \<open>The administration service\<close>

text \<open>The level of a request is an open enumeration whose default is 0.\<close>

type_synonym request_level = int

datatype rpc_status = StatusOK | StatusInternal

definition applyChange :: "request_level \<Rightarrow> LoggerImpl \<Rightarrow> LoggerImpl \<times> rpc_status" where
  "applyChange level lg =
     (if lo_logger lg = None then (lg, StatusInternal)
      else (lg\<lparr>lo_logger := Some (if level = 0 then Trace else if level = 1 then Debug else if level = 2 then Info
                 else if level = 3 then Warn else if level = 4 then Error else Info)\<rparr>, StatusOK))"

definition ChangeLogLevel :: "request_level \<Rightarrow> LoggerImpl \<Rightarrow> LoggerImpl \<times> rpc_status \<times> string" where
  "ChangeLogLevel level lg =
     (case applyChange level lg of (lg', status) \<Rightarrow> (lg', status, if status = StatusOK then ''OK'' else []))"

definition wrapChangeLogLevelRequest :: "string \<Rightarrow> request_level" where
  "wrapChangeLogLevelRequest level =
     (if level = [] then 0
      else if level = ''trace'' then 0 else if level = ''debug'' then 1 else if level = ''info'' then 2
      else if level = ''warn'' then 3 else if level = ''error'' then 4 else 0)"

text \<open>The target and the request of the client; None: it is called without a level.\<close>

definition admin_client_main :: "(string \<Rightarrow> string option) \<Rightarrow> string list \<Rightarrow> (string \<times> request_level) option" where
  "admin_client_main getenv argv =
     (if length argv \<le> 1 then None
      else let port0 = 9877;
               port1 = (case getenv ''ROCKETMQ_ADMIN_PORT'' of
                   None \<Rightarrow> port0
                 | Some env_port \<Rightarrow> (case stoi env_port of Some p \<Rightarrow> p | None \<Rightarrow> port0));
               port = (if length argv > 2 then (case stoi (argv ! 2) of Some p \<Rightarrow> p | None \<Rightarrow> port1) else port1)
           in Some (''127.0.0.1:'' @ to_string_int port, wrapChangeLogLevelRequest (argv ! 1)))"

section \<open>The administration server\<close>

datatype ServerCallStatus = CREATE | PROCESS | FINISH

text \<open>Calls live at addresses until they delete themselves. \<open>ad_waiting\<close> are the calls gRPC will fill
  with a request, \<open>ad_finishing\<close> those whose answer is being sent, \<open>ad_answers\<close> the answers given.\<close>

record admin_world =
  ad_calls :: "nat \<Rightarrow> ServerCallStatus option"
  ad_next :: nat
  ad_waiting :: "nat list"
  ad_finishing :: "nat list"
  ad_logger :: LoggerImpl
  ad_answers :: "(nat \<times> rpc_status) list"

text \<open>The constructor proceeds at once.\<close>

definition new_ServerCall :: "admin_world \<Rightarrow> admin_world" where
  "new_ServerCall w =
     w\<lparr>ad_calls := (ad_calls w)(ad_next w := Some PROCESS), ad_waiting := ad_waiting w @ [ad_next w], ad_next := ad_next w + 1\<rparr>"

text \<open>\<open>level\<close> is the request gRPC has stored in the call. None: the call has been deleted.\<close>

definition proceed :: "request_level \<Rightarrow> nat \<Rightarrow> admin_world \<Rightarrow> admin_world option" where
  "proceed level c w = (case ad_calls w c of
       None \<Rightarrow> None
     | Some CREATE \<Rightarrow> Some (w\<lparr>ad_calls := (ad_calls w)(c := Some PROCESS), ad_waiting := ad_waiting w @ [c]\<rparr>)
     | Some PROCESS \<Rightarrow>
         let w1 = new_ServerCall w
         in (case ChangeLogLevel level (ad_logger w1) of (lg, status, remark) \<Rightarrow>
               Some (w1\<lparr>ad_logger := lg, ad_calls := (ad_calls w1)(c := Some FINISH), ad_finishing := ad_finishing w1 @ [c],
                        ad_answers := ad_answers w1 @ [(c, status)]\<rparr>))
     | Some FINISH \<Rightarrow> Some (w\<lparr>ad_calls := (ad_calls w)(c := None)\<rparr>))"

text \<open>The loop takes the tag of a call from the completion queue, once a request has arrived or an answer
  has been sent.\<close>

inductive admin_step :: "admin_world \<Rightarrow> admin_world \<Rightarrow> bool" where
  admin_request: "\<lbrakk>ad_waiting w = xs @ c # ys; proceed level c (w\<lparr>ad_waiting := xs @ ys\<rparr>) = Some w'\<rbrakk> \<Longrightarrow> admin_step w w'"
| admin_sent: "\<lbrakk>ad_finishing w = xs @ c # ys; proceed level c (w\<lparr>ad_finishing := xs @ ys\<rparr>) = Some w'\<rbrakk> \<Longrightarrow> admin_step w w'"

inductive admin_steps :: "admin_world \<Rightarrow> admin_world \<Rightarrow> bool" where
  admin_refl: "admin_steps w w"
| admin_more: "admin_steps w w' \<Longrightarrow> admin_step w' w'' \<Longrightarrow> admin_steps w w''"

definition make_admin_world :: "LoggerImpl \<Rightarrow> admin_world" where
  "make_admin_world lg =
     new_ServerCall \<lparr>ad_calls = (\<lambda>_. None), ad_next = 0, ad_waiting = [], ad_finishing = [], ad_logger = lg, ad_answers = []\<rparr>"

record AdminServerImpl =
  as_port :: i32
  as_state :: State
  as_server :: bool

definition make_AdminServerImpl :: AdminServerImpl where
  "make_AdminServerImpl = \<lparr>as_port = 0, as_state = CREATED, as_server = False\<rparr>"

text \<open>\<open>bound\<close> is the port gRPC bound and \<open>built\<close> whether it built a server; the weak compare-and-exchange may
  fail for no reason. \<open>start\<close> returns once the loop thread has set the state.\<close>

definition admin_start :: "bool \<Rightarrow> i32 \<Rightarrow> bool \<Rightarrow> AdminServerImpl \<Rightarrow> AdminServerImpl \<times> bool" where
  "admin_start spurious bound built srv =
     (if CREATED \<noteq> as_state srv then (srv, False)
      else if spurious then (srv, False)
      else (srv\<lparr>as_port := bound, as_server := built, as_state := STARTED\<rparr>, True))"

definition admin_stop :: "AdminServerImpl \<Rightarrow> AdminServerImpl \<times> bool" where
  "admin_stop srv =
     (if STARTED \<noteq> as_state srv then (srv, False)
      else if as_server srv then (srv\<lparr>as_state := STOPPED\<rparr>, True)
      else (srv, False))"

section \<open>Operations on a logger after its initialisation\<close>

datatype logger_op =
    SetLevel Level | SetConsoleLevel Level | SetFileSize u64 | SetFileCount u64 | SetPattern string | InitAgain
  | ChangeRequest request_level

text \<open>A second \<open>init\<close> does nothing.\<close>

primrec logger_apply :: "logger_op \<Rightarrow> LoggerImpl \<Rightarrow> LoggerImpl" where
  "logger_apply (SetLevel l) lg = setLevel l lg"
| "logger_apply (SetConsoleLevel l) lg = setConsoleLevel l lg"
| "logger_apply (SetFileSize n) lg = setFileSize n lg"
| "logger_apply (SetFileCount n) lg = setFileCount n lg"
| "logger_apply (SetPattern p) lg = setPattern p lg"
| "logger_apply InitAgain lg = the (logger_init (\<lambda>_. None) [] (\<lambda>_. True) lg)"
| "logger_apply (ChangeRequest l) lg = fst (ChangeLogLevel l lg)"

text \<open>What spdlog promises: a sink writes the messages that pass the level of the logger and its own.\<close>

definition filters :: "(Level \<Rightarrow> Level \<Rightarrow> Level \<Rightarrow> bool) \<Rightarrow> bool" where
  "filters writes = (\<forall>logger sink m. writes logger sink m \<longleftrightarrow> logger \<le> m \<and> sink \<le> m)"

definition in_file :: "(Level \<Rightarrow> Level \<Rightarrow> Level \<Rightarrow> bool) \<Rightarrow> LoggerImpl \<Rightarrow> Level \<Rightarrow> bool" where
  "in_file writes lg m = (case (lo_logger lg, lo_file_sink lg) of
       (Some l, Some s) \<Rightarrow> writes l (sk_level s) m
     | _ \<Rightarrow> False)"

section \<open>Lemmas\<close>

lemma logger_apply_keeps:
  assumes "lo_init_once lg" "map_option sk_level (lo_file_sink lg) = Some l"
  shows "lo_init_once (logger_apply op lg) \<and> map_option sk_level (lo_file_sink (logger_apply op lg)) = Some l"
  using assms
  by (cases op) (auto simp: setLevel_def setConsoleLevel_def setFileSize_def setFileCount_def setPattern_def logger_init_def
      ChangeLogLevel_def applyChange_def Let_def)

lemma logger_fold_keeps:
  assumes "lo_init_once lg" "map_option sk_level (lo_file_sink lg) = Some l"
  shows "map_option sk_level (lo_file_sink (fold logger_apply ops lg)) = Some l"
  using assms
proof (induction ops arbitrary: lg)
  case (Cons op ops)
  then show ?case using logger_apply_keeps[of lg l op] by simp
qed simp

definition admin_ok :: "admin_world \<Rightarrow> bool" where
  "admin_ok w = (length (ad_waiting w) = 1 \<and> distinct (ad_waiting w @ ad_finishing w)
     \<and> dom (ad_calls w) = set (ad_waiting w @ ad_finishing w)
     \<and> (\<forall>c\<in>set (ad_waiting w). ad_calls w c = Some PROCESS) \<and> (\<forall>c\<in>set (ad_finishing w). ad_calls w c = Some FINISH)
     \<and> (\<forall>c\<in>set (ad_waiting w @ ad_finishing w). c < ad_next w)
     \<and> ad_next w = length (ad_answers w) + 1)"

lemma admin_ok_make: "admin_ok (make_admin_world lg)"
  by (auto simp: admin_ok_def make_admin_world_def new_ServerCall_def)

lemma admin_ok_request:
  assumes "admin_ok w" "ad_waiting w = xs @ c # ys" "proceed level c (w\<lparr>ad_waiting := xs @ ys\<rparr>) = Some w'"
  shows "admin_ok w'"
proof -
  have w: "ad_waiting w = [c]" "xs = []" "ys = []" using assms(1,2) by (auto simp: admin_ok_def)
  have c: "ad_calls w c = Some PROCESS" "c < ad_next w" using assms(1) w(1) by (auto simp: admin_ok_def)
  obtain lg status remark where ch: "ChangeLogLevel level (ad_logger w) = (lg, status, remark)" by (metis prod_cases3)
  have w': "w' = w\<lparr>ad_calls := (ad_calls w)(ad_next w \<mapsto> PROCESS, c \<mapsto> FINISH), ad_waiting := [ad_next w],
      ad_next := ad_next w + 1, ad_logger := lg, ad_finishing := ad_finishing w @ [c], ad_answers := ad_answers w @ [(c, status)]\<rparr>"
    using assms(3) c w(2,3) ch by (auto simp: proceed_def new_ServerCall_def Let_def)
  show ?thesis using assms(1) w(1) c(2) unfolding w' by (auto simp: admin_ok_def)
qed

lemma admin_ok_sent:
  assumes "admin_ok w" "ad_finishing w = xs @ c # ys" "proceed level c (w\<lparr>ad_finishing := xs @ ys\<rparr>) = Some w'"
  shows "admin_ok w'"
proof -
  have c: "ad_calls w c = Some FINISH" using assms(1,2) by (auto simp: admin_ok_def)
  have w': "w' = w\<lparr>ad_finishing := xs @ ys, ad_calls := (ad_calls w)(c := None)\<rparr>"
    using assms(3) c by (simp add: proceed_def)
  show ?thesis using assms(1,2) unfolding w' by (auto simp: admin_ok_def)
qed

lemma admin_ok_steps: "\<lbrakk>admin_steps w w'; admin_ok w\<rbrakk> \<Longrightarrow> admin_ok w'"
proof (induction rule: admin_steps.induct)
  case (admin_more w w' w'')
  from admin_more(2,3,4) show ?case by (cases rule: admin_step.cases) (iprover intro: admin_ok_request admin_ok_sent)+
qed

lemma admin_ok_proceeds: "\<lbrakk>admin_ok w; c \<in> set (ad_waiting w @ ad_finishing w)\<rbrakk> \<Longrightarrow> proceed level c w \<noteq> None"
  by (auto simp: admin_ok_def proceed_def Let_def split: prod.splits)

section \<open>Properties\<close>



text \<open>After its initialisation a logger cannot be made to write more to its file: whatever levels the
  application sets or the administration service is asked for, no message below the level at the time of
  \<open>init\<close> reaches the file.\<close>

theorem file_level_frozen:
  assumes "filters writes" "\<not> lo_init_once lg" "logger_init getenv tmp ready lg = Some lg'" "m < lo_level lg"
  shows "\<not> in_file writes (fold logger_apply ops lg') m"
proof -
  have "lo_init_once lg'" "map_option sk_level (lo_file_sink lg') = Some (lo_level lg)"
    using assms(2,3) by (auto simp: logger_init_def init0_def Let_def split: if_splits)
  then have "map_option sk_level (lo_file_sink (fold logger_apply ops lg')) = Some (lo_level lg)"
    by (rule logger_fold_keeps)
  then show ?thesis using assms(1,4) by (auto simp: in_file_def filters_def split: option.splits)
qed

theorem file_level_frozen_witness:
  "\<not> in_file (\<lambda>logger sink m. logger \<le> m \<and> sink \<le> m)
     (fold logger_apply [SetLevel Debug, ChangeRequest (wrapChangeLogLevelRequest ''debug'')]
       (the (logger_init (\<lambda>_. Some ''/home'') ''/tmp'' (\<lambda>_. True) make_LoggerImpl))) Debug"
  by (rule file_level_frozen[where lg = make_LoggerImpl and getenv = "\<lambda>_. Some ''/home''" and tmp = "''/tmp''"
        and ready = "\<lambda>_. True"])
    (simp_all add: filters_def make_LoggerImpl_def logger_init_def init0_def less_Level_def Let_def)

text \<open>The command line client sets the level it names; a name it does not know is no error but sets
  the most verbose level.\<close>

theorem level_named_is_set:
  assumes "lo_logger lg \<noteq> None"
  shows "lo_logger (fst (ChangeLogLevel (wrapChangeLogLevelRequest name) lg)) =
     Some (if name = ''debug'' then Debug else if name = ''info'' then Info else if name = ''warn'' then Warn
           else if name = ''error'' then Error else Trace)"
  using assms by (auto simp: ChangeLogLevel_def applyChange_def wrapChangeLogLevelRequest_def)

theorem level_named_is_set_witness:
  "lo_logger (fst (ChangeLogLevel (wrapChangeLogLevelRequest ''warning'') (make_LoggerImpl\<lparr>lo_logger := Some Info\<rparr>))) = Some Trace"
  using level_named_is_set[of "make_LoggerImpl\<lparr>lo_logger := Some Info\<rparr>" "''warning''"] by simp

text \<open>The server starts once and stops once; a start that fails for no reason can be repeated.\<close>

lemma admin_lifecycle:
  "as_state srv = CREATED \<Longrightarrow> admin_start True p b srv = (srv, False)
   \<and> snd (admin_start False p True srv) \<and> \<not> snd (admin_start s q b (fst (admin_start False p True srv)))
   \<and> snd (admin_stop (fst (admin_start False p True srv)))
   \<and> \<not> snd (admin_stop (fst (admin_stop (fst (admin_start False p True srv)))))"
  by (simp add: admin_start_def admin_stop_def)

end
