(* ===== verification/Unique_Id.thy ===== *)
theory Unique_Id
  imports Mix_All
begin

text \<open>
  The generator of message identifiers (\<open>base/UniqueIdGenerator.cpp\<close>): 17 bytes
  made of a version, an 8 byte host prefix, the second of the call and a sequence
  number within that second, printed in hexadecimal.
\<close>

section \<open>Model\<close>

record UniqueIdGenerator =
  ug_prefix :: "byte list"
  ug_since_custom_epoch :: duration
  ug_start_time_point :: time_point
  ug_seconds :: u32
  ug_sequence :: u32

text \<open>\<open>deltaSeconds\<close> truncates the duration to seconds and then to 32 bits; the
  durations are in nanoseconds and not negative.\<close>

definition deltaSeconds :: "UniqueIdGenerator \<Rightarrow> time_point \<Rightarrow> u32" where
  "deltaSeconds g now =
     of_int (((now - ug_start_time_point g) + ug_since_custom_epoch g) div 1000000000)"

text \<open>The memory of an unsigned 32 bit integer on a little endian host.\<close>

definition little_endian32 :: "u32 \<Rightarrow> byte list" where
  "little_endian32 w = [ucast w, ucast (drop_bit 8 w), ucast (drop_bit 16 w), ucast (drop_bit 24 w)]"

text \<open>The prefix holds the MAC address, padded with zeros when it is shorter or missing, and the lower two
  bytes of the process id in network order.\<close>

definition make_UniqueIdGenerator ::
  "duration \<Rightarrow> time_point \<Rightarrow> byte list option \<Rightarrow> u32 \<Rightarrow> UniqueIdGenerator" where
  "make_UniqueIdGenerator since_epoch now mac pid =
     (let g = \<lparr>ug_prefix = (case mac of None \<Rightarrow> replicate 6 0 | Some m \<Rightarrow> m @ drop (length m) (replicate 6 0))
                 @ drop 2 (big_endian32 pid),
               ug_since_custom_epoch = since_epoch, ug_start_time_point = now,
               ug_seconds = 0, ug_sequence = 0\<rparr>
      in g\<lparr>ug_seconds := deltaSeconds g now\<rparr>)"

definition next_slot :: "UniqueIdGenerator \<Rightarrow> u32 \<Rightarrow> UniqueIdGenerator" where
  "next_slot g delta =
     (if ug_seconds g \<noteq> delta then g\<lparr>ug_seconds := delta, ug_sequence := 0\<rparr>
      else g\<lparr>ug_sequence := ug_sequence g + 1\<rparr>)"

definition slot_id :: "UniqueIdGenerator \<Rightarrow> string" where
  "slot_id g = hex ([1] @ ug_prefix g @ little_endian32 (ug_seconds g) @ little_endian32 (ug_sequence g))"

definition next_id :: "UniqueIdGenerator \<Rightarrow> time_point \<Rightarrow> UniqueIdGenerator \<times> string" where
  "next_id g now = (let g' = next_slot g (deltaSeconds g now) in (g', slot_id g'))"

text \<open>\<open>UtilAll::macAddress\<close>: the MAC address of the first interface with one that is not zero, which is then
  kept. An interface is None without an address, else its family and its bytes. The result is the cache,
  whether the call succeeds and the address; None: an interface has no address and a null pointer is
  dereferenced.\<close>

type_synonym net_interface = "(bool \<times> byte list) option"

fun scan_interfaces :: "net_interface list \<Rightarrow> byte list option option" where
  "scan_interfaces [] = Some None"
| "scan_interfaces (None # nodes) = None"
| "scan_interfaces (Some (packet, bytes) # nodes) =
     (if packet \<and> \<not> list_all (\<lambda>b. b = 0) (take 6 bytes) then Some (Some (take 6 bytes)) else scan_interfaces nodes)"

definition macAddress ::
  "byte list option \<Rightarrow> net_interface list option \<Rightarrow> byte list \<Rightarrow> (byte list option \<times> bool \<times> byte list) option" where
  "macAddress cache interfaces mac = (case cache of
       Some cached \<Rightarrow> Some (cache, True, cached)
     | None \<Rightarrow> (case interfaces of
         None \<Rightarrow> Some (None, False, mac)
       | Some nodes \<Rightarrow> (case scan_interfaces nodes of
           None \<Rightarrow> None
         | Some None \<Rightarrow> Some (None, True, mac)
         | Some (Some found) \<Rightarrow> Some (Some found, True, found))))"

text \<open>A sequence of calls at the given readings of the steady clock.\<close>

fun next_ids :: "UniqueIdGenerator \<Rightarrow> time_point list \<Rightarrow> string list" where
  "next_ids g [] = []"
| "next_ids g (t # ts) = (let (g', i) = next_id g t in i # next_ids g' ts)"

section \<open>Lemmas\<close>

lemma little_endian32_inject: "little_endian32 a = little_endian32 b \<longleftrightarrow> a = b"
proof
  assume eq: "little_endian32 a = little_endian32 b"
  show "a = b"
  proof (rule bit_word_eqI)
    fix n
    assume "n < LENGTH(32)"
    then have n: "n < 32" by simp
    have byte_eq: "(ucast (drop_bit (8 * k) a) :: byte) = ucast (drop_bit (8 * k) b)" if "k < 4" for k
    proof -
      have "\<forall>k \<in> set [0..<4]. (ucast (drop_bit (8 * k) a) :: byte) = ucast (drop_bit (8 * k) b)"
        using eq by (simp add: upt_rec little_endian32_def)
      then show ?thesis using that by simp
    qed
    have "bit (ucast (drop_bit (8 * (n div 8)) a) :: byte) (n mod 8)
        = bit (ucast (drop_bit (8 * (n div 8)) b) :: byte) (n mod 8)"
      using byte_eq[of "n div 8"] n by simp
    then show "bit a n = bit b n" by (simp add: bit_simps)
  qed
qed simp

lemma slot_id_inject:
  assumes "ug_prefix g = ug_prefix h"
  shows "slot_id g = slot_id h \<longleftrightarrow> ug_seconds g = ug_seconds h \<and> ug_sequence g = ug_sequence h"
proof -
  have "length (little_endian32 x) = 4" for x by (simp add: little_endian32_def)
  then show ?thesis using assms
    by (auto simp: slot_id_def hex_inject little_endian32_inject)
qed

lemma next_slot_frame [rmq_frame, simp]:
  "ug_prefix (next_slot g d) = ug_prefix g"
  "ug_start_time_point (next_slot g d) = ug_start_time_point g"
  "ug_since_custom_epoch (next_slot g d) = ug_since_custom_epoch g"
  by (simp_all add: next_slot_def)

lemma deltaSeconds_next_slot [simp]: "deltaSeconds (next_slot g d) t = deltaSeconds g t"
  by (simp add: deltaSeconds_def)

text \<open>The position of a slot in the order of issue.\<close>

definition slot_pos :: "UniqueIdGenerator \<Rightarrow> nat \<times> nat" where
  "slot_pos g = (unat (ug_seconds g), unat (ug_sequence g))"

lemma next_slot_pos:
  assumes "ug_seconds g \<le> d" "unat (ug_sequence g) + 1 < 2 ^ 32"
  shows "slot_pos g < slot_pos (next_slot g d)"
    and "unat (ug_sequence (next_slot g d)) \<le> unat (ug_sequence g) + 1"
    and "ug_seconds (next_slot g d) = d"
proof -
  have "unat (ug_sequence g + 1) = unat (ug_sequence g) + 1"
    using assms(2) by (simp add: unat_word_ariths)
  moreover have "unat (ug_seconds g) < unat d" if "ug_seconds g \<noteq> d"
    using that assms(1) by (simp add: word_less_nat_alt[symmetric])
  ultimately show "slot_pos g < slot_pos (next_slot g d)"
    "unat (ug_sequence (next_slot g d)) \<le> unat (ug_sequence g) + 1"
    by (simp_all add: slot_pos_def next_slot_def less_prod_def)
qed (simp add: next_slot_def)

text \<open>Every id issued later belongs to a slot after the current one.\<close>

lemma next_ids_later:
  assumes "sorted (map (unat \<circ> deltaSeconds g) ts)"
    and "\<forall>t \<in> set ts. ug_seconds g \<le> deltaSeconds g t"
    and "unat (ug_sequence g) + length ts < 2 ^ 32"
    and "i \<in> set (next_ids g ts)"
  shows "\<exists>h. slot_id h = i \<and> ug_prefix h = ug_prefix g \<and> slot_pos g < slot_pos h"
  using assms
proof (induction ts arbitrary: g)
  case (Cons t ts)
  define g' where "g' = next_slot g (deltaSeconds g t)"
  have step: "slot_pos g < slot_pos g'" "unat (ug_sequence g') \<le> unat (ug_sequence g) + 1"
    "ug_seconds g' = deltaSeconds g t"
    using next_slot_pos[of g "deltaSeconds g t"] Cons.prems by (auto simp: g'_def)
  have ds: "deltaSeconds g' = deltaSeconds g" by (rule ext) (simp add: g'_def)
  show ?case
  proof (cases "i = slot_id g'")
    case True
    then show ?thesis using step(1) by (intro exI[of _ g']) (simp add: g'_def)
  next
    case False
    then have "i \<in> set (next_ids g' ts)"
      using Cons.prems(4) by (simp add: next_id_def Let_def g'_def)
    then have "\<exists>h. slot_id h = i \<and> ug_prefix h = ug_prefix g' \<and> slot_pos g' < slot_pos h"
      using Cons.prems step(2,3) by (intro Cons.IH) (auto simp: ds word_le_nat_alt comp_def)
    then show ?thesis using step(1) by (auto simp: g'_def intro: order.strict_trans)
  qed
qed simp

lemma next_ids_distinct:
  assumes "sorted (map (unat \<circ> deltaSeconds g) ts)"
    and "\<forall>t \<in> set ts. ug_seconds g \<le> deltaSeconds g t"
    and "unat (ug_sequence g) + length ts < 2 ^ 32"
  shows "distinct (next_ids g ts)"
  using assms
proof (induction ts arbitrary: g)
  case (Cons t ts)
  define g' where "g' = next_slot g (deltaSeconds g t)"
  have step: "unat (ug_sequence g') \<le> unat (ug_sequence g) + 1" "ug_seconds g' = deltaSeconds g t"
    using next_slot_pos[of g "deltaSeconds g t"] Cons.prems by (auto simp: g'_def)
  have ds: "deltaSeconds g' = deltaSeconds g" by (rule ext) (simp add: g'_def)
  have side: "sorted (map (unat \<circ> deltaSeconds g') ts)"
    "\<forall>t \<in> set ts. ug_seconds g' \<le> deltaSeconds g' t" "unat (ug_sequence g') + length ts < 2 ^ 32"
    using Cons.prems step by (auto simp: ds word_le_nat_alt comp_def)
  have "slot_id g' \<notin> set (next_ids g' ts)"
  proof
    assume "slot_id g' \<in> set (next_ids g' ts)"
    then obtain h where "slot_id h = slot_id g'" "ug_prefix h = ug_prefix g'" "slot_pos g' < slot_pos h"
      using next_ids_later[OF side] by blast
    then show False by (auto simp: slot_id_inject slot_pos_def)
  qed
  moreover have "distinct (next_ids g' ts)" using side by (rule Cons.IH)
  ultimately show ?case by (simp add: next_id_def Let_def g'_def)
qed simp

text \<open>The address is looked up once; without one the prefix starts with zeros.\<close>

lemma macAddress_cached:
  "macAddress None (Some nodes) mac = Some (Some found, True, found) \<Longrightarrow> macAddress (Some found) interfaces mac' = Some (Some found, True, found)"
  by (simp add: macAddress_def)

lemma prefix_length:
  "length (case mac of None \<Rightarrow> [] | Some m \<Rightarrow> m) \<le> 6 \<Longrightarrow> length (ug_prefix (make_UniqueIdGenerator since now mac pid)) = 8"
  by (simp add: make_UniqueIdGenerator_def big_endian32_def Let_def split: option.splits)

lemma scan_interfaces_crash: "list_all (\<lambda>i. i = Some (False, [])) nodes \<Longrightarrow> scan_interfaces (nodes @ None # rest) = None"
  by (induction nodes) auto

end
