(* ===== verification/Spec2Isabelle.thy ===== *)
theory Spec2Isabelle
  imports Receive_Cycle Pull_Consumer Client_Tasks Consumer_Facade Export_Calls Spans Credentials_Provider Trace_Context Admin Unique_Id
begin

text \<open>
  A verification development for the RocketMQ client in C++ (\<open>src/main/cpp\<close> and \<open>api\<close>).

  \<^bold>\<open>The program.\<close> Applications use a producer, a push consumer or a pull consumer. Each is a client
  with a life cycle, a cache of topic routes and a set of endpoints it isolates after failures. Clients
  of one namespace share a client manager, which owns the RPC clients, turns answers of brokers into
  error codes, and runs periodic tasks on a scheduler. A producer chooses queues from the publish
  information of a topic and retries a failed send on the next queue. A push consumer scans its
  assignment, keeps a process queue for every assigned message queue, receives into it, and a standard
  or FIFO service hands the cached messages to the listener. Sends, transactions and batches are traced
  by spans, which an exporter converts and sends. Name servers are configured or fetched from an address
  server over HTTP, credentials come from a provider, and an administration server changes the level of
  the log.

  \<^bold>\<open>The theories.\<close> A struct or class is a \<open>record\<close> whose fields carry a prefix, inheritance is record
  extension, an enumeration is a \<open>datatype\<close>, and an operation is a function from the state and its
  arguments to the new state and the calls it makes. Asynchronous work is a value (an effect) that a
  step relation performs later, in any order.

  \<^item> \<open>Prelude\<close> has the widths of integers, the collections of facts and generic lemmas; \<open>Containers\<close>
    has \<open>std::set\<close>, \<open>std::map\<close> and hash maps with the locales \<open>ordered_set\<close> and \<open>hash_table\<close>, which state
    what clients rely on, and their interpretations \<open>os\<close> and \<open>hm\<close>.
  \<^item> \<open>Messages\<close> is the data of the API (\<open>api/rocketmq\<close>, \<open>base/MQMessage.cpp\<close>, \<open>FilterExpression.cpp\<close>);
    \<open>Mix_All\<close> is \<open>base/MixAll.cpp\<close>; \<open>Unique_Id\<close> is \<open>base/UniqueIdGenerator.cpp\<close>: ids of one second differ
    as long as the 16 bit sequence does not wrap; \<open>Signing\<close> is \<open>client/Signature.cpp\<close>.
  \<^item> \<open>Process_Queue\<close> is \<open>rocketmq/ProcessQueueImpl.cpp\<close>: the quota counters and the committed offset equal
    what a specification over the outstanding messages says, in every reachable state, and no assertion
    fails.
  \<^item> \<open>Rate_Limiter\<close> is \<open>base/include/RateLimiter.h\<close>: a limiter never holds more permits than it grants.
  \<^item> \<open>Consume_Service\<close> and \<open>Fifo_Service\<close> are \<open>rocketmq/Consume*MessageService.cpp\<close>: a round of the standard
    service settles every message once; a FIFO queue has at most one task at a time, delivers in
    order, and gives up on a message only when its attempts are exhausted. The locale \<open>message_cache\<close> is
    what the services rely on of a process queue.
  \<^item> \<open>Routes\<close> is the route data, assignments and \<open>client/TopicPublishInfo.cpp\<close>: which queues are selected.
  \<^item> \<open>Message_Codec\<close> is \<open>wrapSendMessageRequest\<close> of \<open>rocketmq/ProducerImpl.cpp\<close>, \<open>wrapMessage\<close> and the
    results of pop and pull in \<open>client/ClientManagerImpl.cpp\<close>, and the compression of \<open>base/UtilAll.cpp\<close>:
    what is sent is what is received. \<open>Message_Attributes\<close> is the accessors of \<open>base/MQMessage.cpp\<close>,
    \<open>MQMessageExt.cpp\<close> and \<open>MessageAccessor.cpp\<close>, with the locale \<open>attribute\<close> that every pair of a getter
    and a setter interprets; \<open>Error_Category\<close> is \<open>base/ErrorCategory.cpp\<close> and the exceptions.
  \<^item> \<open>Name_Server\<close> is the resolvers of name servers: failures move on to every server. \<open>Address_Server\<close> is
    \<open>base/HttpClientImpl.cpp\<close>, \<open>HostInfo.cpp\<close>, \<open>TopAddressing.cpp\<close> and the fetch of a dynamic resolver:
    endpoints are parsed into what they were printed from, and what a fetch does on every answer.
  \<^item> \<open>Client_Base\<close> is \<open>rocketmq/ClientImpl.cpp\<close>: with threads, timers and answers interleaved, every callback
    that waits for a route runs exactly once.
  \<^item> \<open>Client_Manager\<close> is \<open>client/ClientManagerImpl.cpp\<close>, \<open>client/ClientManagerFactory.cpp\<close> and
    \<open>base/include/Histogram.h\<close>: the table of RPC clients stays well formed, and health checks converge.
  \<^item> \<open>Producer\<close> is \<open>rocketmq/ProducerImpl.cpp\<close>, \<open>SendCallbacks.cpp\<close> and \<open>TransactionImpl.cpp\<close>: the mutual
    recursion of requests and retry callbacks equals the specification \<open>send_spec\<close> and ends.
    \<open>Default_Clients\<close> is \<open>rocketmq/DefaultMQProducer.cpp\<close> and \<open>MessageGroupQueueSelector.cpp\<close>: sending with
    the selector of a group is sending in the group. \<open>Consumer_Facade\<close> is \<open>DefaultMQPushConsumer.cpp\<close>:
    what holds of a push consumer however it was configured and started.
  \<^item> \<open>Waiting\<close> is the statements of the blocking calls and their callbacks, in every interleaving, with
    spurious wake-ups: which calls return what the callback was given, and which can miss it.
  \<^item> \<open>Push_Consumer\<close> is \<open>rocketmq/PushConsumerImpl.cpp\<close> and \<open>AsyncReceiveMessageCallback.cpp\<close>;
    \<open>Receive_Cycle\<close> runs it against brokers, timers and consumption: every queue keeps exactly one
    pending receive, and its cache is bounded.
  \<^item> \<open>Pull_Consumer\<close> is \<open>rocketmq/PullConsumerImpl.cpp\<close> and \<open>AwaitPullCallback.cpp\<close>: the blocking pull reports
    the outcome of the call.
  \<^item> \<open>Scheduler\<close> is \<open>scheduler/SchedulerImpl.cpp\<close> and \<open>base/ThreadPoolImpl.cpp\<close>: the tasks, weak pointers and
    timers refine an agenda of jobs, so a cancelled task does not fire again. Its locales \<open>job_service\<close> and
    \<open>task_pool\<close> are what clients rely on. \<open>Client_Tasks\<close> composes the push consumer and the dynamic
    resolver with it: the periodic tasks of a consumer end with it.
  \<^item> \<open>Rpc_Calls\<close> is \<open>client/RpcClientImpl.cpp\<close>, \<open>base/include/InvocationContext.h\<close> and the polling thread of the
    client manager: every call completes exactly once, unless the manager is shut down, and goes out on
    the channel of the host it is meant for. \<open>Export_Calls\<close> is the same for the calls of the exporter.
  \<^item> \<open>Trace_Context\<close> is \<open>client/TracingUtility.cpp\<close>: headers are read as they were written, and never past
    their end. \<open>Spans\<close> is the tracing in \<open>ProducerImpl.cpp\<close> and \<open>ConsumeStandardMessageService.cpp\<close>, and
    \<open>Exporter\<close> is \<open>tracing/exporters/OtlpExporter.cpp\<close>: what a batch leaves in the exported trace.
  \<^item> \<open>Credentials_Provider\<close> is \<open>rocketmq/CredentialsProvider.cpp\<close> with the locale \<open>credentials_provider\<close>:
    credentials do not change until they expire.
  \<^item> \<open>Admin\<close> is \<open>log/LoggerImpl.cpp\<close> and \<open>admin\<close>: the server always listens, and which levels take effect.

  \<^bold>\<open>Conventions.\<close> Unsigned integers are words of their width and wrap; signed integers are integers,
  because their overflow is undefined in C++. A failed assertion, an abort or the dereference of a null
  pointer is None. A weak pointer is an option, or an address with the owners that keep it alive. The
  code of one critical section is one step; memory is sequentially consistent.

  \<^bold>\<open>Parameters.\<close> gRPC, zlib, the digests, HMAC, \<open>std::hash\<close>, httplib, the JSON and time parsers, spdlog,
  OpenCensus, the environment, the clock, the listener of the application, the offset store and the
  answers of brokers and name servers are arguments. Where a property needs
  something of them, it is a hypothesis with a witness: \<open>zlib_round_trip\<close> for compression,
  \<open>fresh_offsets\<close> and \<open>in_order\<close> for delivery, \<open>assignment_ok\<close> for assignments, \<open>splits\<close> and
  \<open>reads_decimal\<close> for the parsing of endpoints, \<open>lower_base16\<close> for the printing of trace ids, \<open>filters\<close> for
  what a sink writes, \<open>hands_over\<close> for the spans an exporter is given.

  \<^bold>\<open>Bounds and fuel.\<close> The loops of \<open>uncompress\<close> and \<open>selectBroker\<close> may run for ever and are partial
  functions: the round trip shows that inflating ends under \<open>zlib_round_trip\<close>, and \<open>selectBroker_result\<close>
  says exactly when the other one ends. \<open>selectActive_loop\<close> counts the rounds of the source's bound.
  \<open>run_send\<close> takes one round for each allowed attempt, and \<open>send_terminates\<close> shows that this is enough.
  The scheduler's properties hold while less than \<open>2 ^ 32\<close> task ids have been drawn; after that ids repeat.
  The bound of the receive cycle is 1023 messages, one less than the quota, plus a batch.

  \<^bold>\<open>Not modelled.\<close> The generated stubs and messages of gRPC; the transport and the channels it opens, with
  the certificates and checks of \<open>client/TlsHelper.cpp\<close>; \<open>client/LogInterceptor.cpp\<close>, which only writes logs;
  the opening of the listening port; the code for Windows; facades that only forward; constants
  no modelled code reads; and the examples.
\<close>

end
